(* ===== verification/Prelude.thy ===== *)
theory Prelude
  imports Main "HOL-Library.Word" "HOL-Library.Signed_Division" "HOL-Library.Sublist"
begin

text \<open>
  Shared vocabulary of the development: the machine-integer conventions, the fragment of
  the C++ standard library that the sources use on strings (\<open>std::string::find\<close>,
  \<open>substr\<close>, \<open>std::tolower\<close>, \<open>std::isspace\<close>, \<open>std::to_string\<close>,
  \<open>std::stoll\<close>, \<open>std::stoul\<close>, \<open>std::stoi\<close>), and the lemmas on lists,
  decimal numerals and searches that the component theories use.

  Conventions. Unsigned integers of the sources are \<open>word\<close>s of their width, so that
  \<open>ucast\<close> is the narrowing conversion of \<open>static_cast\<close>. Signed integers are
  \<open>int\<close>; \<open>in_i32\<close> and \<open>in_i64\<close> say that a value fits its type and
  \<open>wrap_i32\<close>/\<open>wrap_i64\<close> write the two's complement conversion out. Signed
  division and remainder are the truncating \<open>sdiv\<close> and \<open>smod\<close>.
\<close>

section \<open>Named collections\<close>

named_theorems cstr_simps \<open>evaluation of the string library on concatenations\<close>
named_theorems inv_intros \<open>preservation lemmas of component invariants\<close>

section \<open>Machine integers\<close>

type_synonym u8 = "8 word"
type_synonym u16 = "16 word"
type_synonym u32 = "32 word"
type_synonym u64 = "64 word"

definition in_i32 :: "int \<Rightarrow> bool" where
  "in_i32 x \<longleftrightarrow> - (2 ^ 31) \<le> x \<and> x < 2 ^ 31"

definition in_i64 :: "int \<Rightarrow> bool" where
  "in_i64 x \<longleftrightarrow> - (2 ^ 63) \<le> x \<and> x < 2 ^ 63"

definition wrap_i32 :: "int \<Rightarrow> int" where
  "wrap_i32 x = (x + 2 ^ 31) mod 2 ^ 32 - 2 ^ 31"

definition wrap_i64 :: "int \<Rightarrow> int" where
  "wrap_i64 x = (x + 2 ^ 63) mod 2 ^ 64 - 2 ^ 63"

section \<open>Characters and strings\<close>

definition char_code :: "char \<Rightarrow> nat" where
  "char_code c = of_char c"

definition c_isspace :: "char \<Rightarrow> bool" where
  "c_isspace c \<longleftrightarrow> char_code c = 32 \<or> (9 \<le> char_code c \<and> char_code c \<le> 13)"

definition c_tolower :: "char \<Rightarrow> char" where
  "c_tolower c =
     (if 65 \<le> char_code c \<and> char_code c \<le> 90 then char_of (char_code c + 32) else c)"

definition c_isdigit :: "char \<Rightarrow> bool" where
  "c_isdigit c \<longleftrightarrow> 48 \<le> char_code c \<and> char_code c \<le> 57"

definition digit_val :: "char \<Rightarrow> nat" where
  "digit_val c = char_code c - 48"

definition digit_char :: "nat \<Rightarrow> char" where
  "digit_char d = char_of (48 + d)"

text \<open>\<open>find_suf P s\<close>: the offset of the first suffix of \<open>s\<close> that satisfies \<open>P\<close>.\<close>

fun find_suf :: "('a list \<Rightarrow> bool) \<Rightarrow> 'a list \<Rightarrow> nat option" where
  "find_suf P [] = (if P [] then Some 0 else None)"
| "find_suf P (c # cs) = (if P (c # cs) then Some 0 else map_option Suc (find_suf P cs))"

definition find_from :: "('a list \<Rightarrow> bool) \<Rightarrow> 'a list \<Rightarrow> nat \<Rightarrow> nat option" where
  "find_from P s pos =
     (if pos \<le> length s then map_option ((+) pos) (find_suf P (drop pos s)) else None)"

text \<open>\<open>s.find(pat, pos)\<close>, \<open>s.find(c, pos)\<close>, \<open>s.find_first_of(cs, pos)\<close> and
  \<open>s.rfind(c)\<close>; \<open>None\<close> is \<open>std::string::npos\<close>.\<close>

definition str_find :: "string \<Rightarrow> string \<Rightarrow> nat \<Rightarrow> nat option" where
  "str_find pat = find_from (prefix pat)"

definition chr_find :: "char \<Rightarrow> string \<Rightarrow> nat \<Rightarrow> nat option" where
  "chr_find c = find_from (\<lambda>t. t \<noteq> [] \<and> hd t = c)"

definition find_first_of :: "string \<Rightarrow> string \<Rightarrow> nat \<Rightarrow> nat option" where
  "find_first_of cs = find_from (\<lambda>t. t \<noteq> [] \<and> hd t \<in> set cs)"

fun chr_rfind :: "char \<Rightarrow> string \<Rightarrow> nat option" where
  "chr_rfind c [] = None"
| "chr_rfind c (x # xs) =
     (case chr_rfind c xs of
        Some p \<Rightarrow> Some (Suc p)
      | None \<Rightarrow> (if x = c then Some 0 else None))"

text \<open>\<open>s.substr(pos, n)\<close> for \<open>pos \<le> s.size()\<close>.\<close>

definition substr :: "string \<Rightarrow> nat \<Rightarrow> nat \<Rightarrow> string" where
  "substr s pos n = take n (drop pos s)"

definition contains_sub :: "string \<Rightarrow> string \<Rightarrow> bool" where
  "contains_sub n pat = (str_find pat n 0 \<noteq> None)"

section \<open>Decimal output\<close>

fun show_nat :: "nat \<Rightarrow> string" where
  "show_nat n = (if n < 10 then [digit_char n]
                 else show_nat (n div 10) @ [digit_char (n mod 10)])"

declare show_nat.simps [simp del]

definition show_int :: "int \<Rightarrow> string" where
  "show_int x = (if x < 0 then CHR ''-'' # show_nat (nat (- x)) else show_nat (nat x))"

text \<open>\<open>oss.width(w); oss.fill('0'); oss << n\<close> for a non-negative number.\<close>

definition pad0 :: "nat \<Rightarrow> string \<Rightarrow> string" where
  "pad0 w s = replicate (w - length s) (CHR ''0'') @ s"

section \<open>Decimal input\<close>

text \<open>
  \<open>strtol\<close>-style scanning, shared by \<open>std::stoi\<close>, \<open>std::stol\<close>, \<open>std::stoll\<close> and
  \<open>std::stoul\<close>: skip white space, an optional sign, then the longest run of digits;
  what follows is ignored, and no digit at all is \<open>std::invalid_argument\<close>.
\<close>

datatype conv_error = Invalid_argument | Out_of_range

definition nat_of_digits :: "string \<Rightarrow> nat" where
  "nat_of_digits ds = foldl (\<lambda>a c. 10 * a + digit_val c) 0 ds"

definition scan_sign :: "string \<Rightarrow> bool \<times> string" where
  "scan_sign s =
     (case s of
        [] \<Rightarrow> (False, [])
      | c # cs \<Rightarrow> (if c = CHR ''-'' then (True, cs)
                   else if c = CHR ''+'' then (False, cs) else (False, s)))"

definition scan_number :: "string \<Rightarrow> conv_error + (bool \<times> nat)" where
  "scan_number s =
     (let (neg, t) = scan_sign (dropWhile c_isspace s);
          ds = takeWhile c_isdigit t
      in if ds = [] then Inl Invalid_argument else Inr (neg, nat_of_digits ds))"

definition signed_of :: "bool \<times> nat \<Rightarrow> int" where
  "signed_of p = (if fst p then - int (snd p) else int (snd p))"

definition stoll :: "string \<Rightarrow> conv_error + int" where
  "stoll s =
     (case scan_number s of
        Inl e \<Rightarrow> Inl e
      | Inr p \<Rightarrow> (if in_i64 (signed_of p) then Inr (signed_of p) else Inl Out_of_range))"

definition stoi :: "string \<Rightarrow> conv_error + int" where
  "stoi s =
     (case scan_number s of
        Inl e \<Rightarrow> Inl e
      | Inr p \<Rightarrow> (if in_i32 (signed_of p) then Inr (signed_of p) else Inl Out_of_range))"

text \<open>\<open>std::stoul\<close> accepts a minus sign and negates modulo \<open>2 ^ 64\<close>.\<close>

definition stoul :: "string \<Rightarrow> conv_error + u64" where
  "stoul s =
     (case scan_number s of
        Inl e \<Rightarrow> Inl e
      | Inr (neg, m) \<Rightarrow>
          (if m < 2 ^ 64 then Inr (if neg then - of_nat m else of_nat m)
           else Inl Out_of_range))"

section \<open>Lemmas on machine integers\<close>

lemma wrap_i64_id [simp]: "in_i64 x \<Longrightarrow> wrap_i64 x = x"
  by (simp add: in_i64_def wrap_i64_def)

lemma wrap_i32_id [simp]: "in_i32 x \<Longrightarrow> wrap_i32 x = x"
  by (simp add: in_i32_def wrap_i32_def)

lemma wrap_i64_range [simp]: "in_i64 (wrap_i64 x)"
proof -
  have "0 \<le> (x + 2 ^ 63) mod 2 ^ 64" "(x + 2 ^ 63) mod 2 ^ 64 < 2 ^ 64" by simp_all
  then show ?thesis by (simp add: in_i64_def wrap_i64_def)
qed

lemma wrap_i32_range [simp]: "in_i32 (wrap_i32 x)"
proof -
  have "0 \<le> (x + 2 ^ 31) mod 2 ^ 32" "(x + 2 ^ 31) mod 2 ^ 32 < 2 ^ 32" by simp_all
  then show ?thesis by (simp add: in_i32_def wrap_i32_def)
qed

lemma in_i32_in_i64: "in_i32 x \<Longrightarrow> in_i64 x"
  by (simp add: in_i32_def in_i64_def)

lemma sdiv_pos: "0 \<le> a \<Longrightarrow> 0 < b \<Longrightarrow> a sdiv b = a div (b::int)"
  by (simp add: signed_divide_int_def sgn_if)

lemma smod_pos: "0 \<le> a \<Longrightarrow> 0 < b \<Longrightarrow> a smod b = a mod (b::int)"
  by (cases "a = 0") (simp_all add: signed_modulo_int_def)

lemma sdiv_neg: "a < 0 \<Longrightarrow> 0 < b \<Longrightarrow> a sdiv b = - ((- a) div (b::int))"
  by (simp add: signed_divide_int_def sgn_if)

lemma smod_neg: "a < 0 \<Longrightarrow> 0 < b \<Longrightarrow> a smod b = - ((- a) mod (b::int))"
  by (simp add: signed_modulo_int_def)

section \<open>Lemmas on searches\<close>

lemma find_suf_append_skip:
  "(\<And>k. k < length xs \<Longrightarrow> \<not> P (drop k xs @ ys)) \<Longrightarrow>
   find_suf P (xs @ ys) = map_option ((+) (length xs)) (find_suf P ys)"
proof (induction xs)
  case Nil
  then show ?case by (simp add: option.map_id0 [unfolded id_def] map_option_idI)
next
  case (Cons x xs)
  have "\<And>k. k < length xs \<Longrightarrow> \<not> P (drop k xs @ ys)"
    using Cons.prems [of "Suc _"] by simp
  then have "find_suf P (xs @ ys) = map_option ((+) (length xs)) (find_suf P ys)"
    by (rule Cons.IH)
  then show ?case using Cons.prems [of 0] by (simp add: option.map_comp comp_def)
qed

lemma find_suf_hit: "P s \<Longrightarrow> find_suf P s = Some 0"
  by (cases s) simp_all

lemma find_from_hit:
  assumes "pos \<le> length pre" and "s = pre @ xs @ ys" and "pos = length pre"
    and "\<And>k. k < length xs \<Longrightarrow> \<not> P (drop k xs @ ys)" and "P ys"
  shows "find_from P s pos = Some (length pre + length xs)"
  using assms by (simp add: find_from_def find_suf_append_skip find_suf_hit)

lemma not_prefix_skip:
  "pat \<noteq> [] \<Longrightarrow> hd pat \<notin> set xs \<Longrightarrow> k < length xs \<Longrightarrow> \<not> prefix pat (drop k xs @ ys)"
  by (cases pat) (auto simp: Cons_nth_drop_Suc [symmetric])

lemma str_find_append [cstr_simps]:
  assumes "pat \<noteq> []" and "hd pat \<notin> set xs" and "pos = length pre"
  shows "str_find pat (pre @ xs @ pat @ ys) pos = Some (length pre + length xs)"
  unfolding str_find_def
  by (rule find_from_hit) (use assms not_prefix_skip in auto)

lemma chr_find_append [cstr_simps]:
  assumes "c \<notin> set xs" and "pos = length pre"
  shows "chr_find c (pre @ xs @ c # ys) pos = Some (length pre + length xs)"
  unfolding chr_find_def
  by (rule find_from_hit) (use assms in \<open>auto simp: Cons_nth_drop_Suc [symmetric]\<close>)

lemma find_first_of_append [cstr_simps]:
  assumes "set cs \<inter> set xs = {}" and "c \<in> set cs" and "pos = length pre"
  shows "find_first_of cs (pre @ xs @ c # ys) pos = Some (length pre + length xs)"
  unfolding find_first_of_def
proof (rule find_from_hit)
  fix k assume "k < length xs"
  then have "xs ! k \<in> set xs" by simp
  with assms(1) \<open>k < length xs\<close>
  show "\<not> (drop k xs @ c # ys \<noteq> [] \<and> hd (drop k xs @ c # ys) \<in> set cs)"
    by (auto simp: Cons_nth_drop_Suc [symmetric])
qed (use assms in auto)

lemma find_suf_none:
  "(\<And>k. k \<le> length s \<Longrightarrow> \<not> P (drop k s)) \<Longrightarrow> find_suf P s = None"
proof (induction s)
  case Nil
  then show ?case by force
next
  case (Cons c s)
  have "\<And>k. k \<le> length s \<Longrightarrow> \<not> P (drop k s)" using Cons.prems [of "Suc _"] by simp
  with Cons.IH Cons.prems [of 0] show ?case by simp
qed

lemma find_first_of_none [cstr_simps]:
  assumes "set cs \<inter> set xs = {}" and "pos = length pre"
  shows "find_first_of cs (pre @ xs) pos = None"
proof -
  have "find_suf (\<lambda>t. t \<noteq> [] \<and> hd t \<in> set cs) xs = None"
  proof (rule find_suf_none)
    fix k
    show "\<not> (drop k xs \<noteq> [] \<and> hd (drop k xs) \<in> set cs)"
      using assms(1) hd_in_set [of "drop k xs"] set_drop_subset [of k xs] by blast
  qed
  then show ?thesis using assms(2) by (simp add: find_first_of_def find_from_def)
qed

lemma substr_append [cstr_simps]:
  "pos = length pre \<Longrightarrow> n = length xs \<Longrightarrow> substr (pre @ xs @ ys) pos n = xs"
  by (simp add: substr_def)

lemma chr_rfind_append [cstr_simps]:
  assumes "c \<notin> set ys" shows "chr_rfind c (xs @ c # ys) = Some (length xs)"
proof -
  have "chr_rfind c ys = None" using assms by (induction ys) auto
  then show ?thesis by (induction xs) auto
qed

lemma chr_rfind_None: "chr_rfind c s = None \<longleftrightarrow> c \<notin> set s"
  by (induction s) (auto split: option.splits)

section \<open>Lemmas on decimal numerals\<close>

lemma char_code_digit_char [simp]: "d < 10 \<Longrightarrow> char_code (digit_char d) = 48 + d"
  by (simp add: char_code_def digit_char_def)

lemma digit_char_props [simp]:
  assumes "d < 10"
  shows "c_isdigit (digit_char d)" and "digit_val (digit_char d) = d"
  using assms by (simp_all add: c_isdigit_def digit_val_def)

lemma digit_not_special:
  assumes "c_isdigit c"
  shows "c \<noteq> CHR ''-''" "c \<noteq> CHR ''+''" "\<not> c_isspace c" "c \<noteq> CHR ''.''" "c \<noteq> CHR ''(''"
    "c \<noteq> CHR '' ''" "c \<noteq> CHR ''/''" "c \<noteq> CHR ''\<newline>''" "c \<noteq> CHR '']''" "c \<noteq> CHR '':''"
  using assms by (auto simp: c_isdigit_def c_isspace_def char_code_def)

lemma show_nat_digits: "\<forall>c \<in> set (show_nat n). c_isdigit c"
proof (induction n rule: show_nat.induct)
  case (1 n)
  then show ?case by (cases "n < 10") (auto simp: show_nat.simps [of n])
qed

lemma show_nat_nonempty [simp]: "show_nat n \<noteq> []"
  by (subst show_nat.simps) simp

lemma nat_of_digits_snoc: "nat_of_digits (ds @ [c]) = 10 * nat_of_digits ds + digit_val c"
  by (simp add: nat_of_digits_def)

lemma nat_of_digits_show [simp]: "nat_of_digits (show_nat n) = n"
proof (induction n rule: show_nat.induct)
  case (1 n)
  show ?case
  proof (cases "n < 10")
    case True
    then show ?thesis by (simp add: show_nat.simps [of n] nat_of_digits_def)
  next
    case False
    with 1 have "nat_of_digits (show_nat (n div 10)) = n div 10" by simp
    with False show ?thesis
      by (simp add: show_nat.simps [of n] nat_of_digits_snoc)
  qed
qed

lemma nat_of_digits_zeros: "nat_of_digits (replicate k (CHR ''0'') @ ds) = nat_of_digits ds"
  by (induction k) (simp_all add: nat_of_digits_def digit_val_def char_code_def)

lemma nat_of_digits_pad0 [simp]: "nat_of_digits (pad0 w s) = nat_of_digits s"
  by (simp add: pad0_def nat_of_digits_zeros)

lemma pad0_digits: "\<forall>c \<in> set s. c_isdigit c \<Longrightarrow> \<forall>c \<in> set (pad0 w s). c_isdigit c"
  by (auto simp: pad0_def c_isdigit_def char_code_def)

lemma pad0_nonempty [simp]: "s \<noteq> [] \<Longrightarrow> pad0 w s \<noteq> []"
  by (simp add: pad0_def)

lemma takeWhile_digits:
  "\<forall>c \<in> set ds. c_isdigit c \<Longrightarrow> rest = [] \<or> \<not> c_isdigit (hd rest) \<Longrightarrow>
   takeWhile c_isdigit (ds @ rest) = ds"
  by (induction ds) (auto, cases rest, auto)

lemma scan_digits:
  assumes "\<forall>c \<in> set ds. c_isdigit c" and "ds \<noteq> []" and "rest = [] \<or> \<not> c_isdigit (hd rest)"
  shows "scan_number (ds @ rest) = Inr (False, nat_of_digits ds)"
    and "scan_number (CHR ''-'' # ds @ rest) = Inr (True, nat_of_digits ds)"
proof -
  obtain d ds' where d: "ds = d # ds'" using assms(2) by (cases ds) auto
  with assms(1) have dd: "c_isdigit d" by simp
  from d have "dropWhile c_isspace (ds @ rest) = ds @ rest"
    using digit_not_special(3) [OF dd] by simp
  moreover have "scan_sign (ds @ rest) = (False, ds @ rest)"
    using d digit_not_special(1,2) [OF dd] by (simp add: scan_sign_def)
  ultimately show "scan_number (ds @ rest) = Inr (False, nat_of_digits ds)"
    using takeWhile_digits [OF assms(1,3)] assms(2) by (simp add: scan_number_def)
  have "dropWhile c_isspace (CHR ''-'' # ds @ rest) = CHR ''-'' # ds @ rest"
    by (simp add: c_isspace_def char_code_def)
  then show "scan_number (CHR ''-'' # ds @ rest) = Inr (True, nat_of_digits ds)"
    using takeWhile_digits [OF assms(1,3)] assms(2)
    by (simp add: scan_number_def scan_sign_def)
qed

lemma scan_show_int:
  "scan_number (show_int x) = Inr (x < 0, nat \<bar>x\<bar>)"
  using scan_digits [OF show_nat_digits show_nat_nonempty, of "[]"]
  by (simp add: show_int_def)

lemma stoll_show_int [simp]: "in_i64 x \<Longrightarrow> stoll (show_int x) = Inr x"
  by (simp add: stoll_def scan_show_int signed_of_def)

lemma stoi_show_int [simp]: "in_i32 x \<Longrightarrow> stoi (show_int x) = Inr x"
  by (simp add: stoi_def scan_show_int signed_of_def)

lemma stoll_digits:
  "\<forall>c \<in> set ds. c_isdigit c \<Longrightarrow> ds \<noteq> [] \<Longrightarrow> nat_of_digits ds < 2 ^ 63 \<Longrightarrow>
   stoll ds = Inr (int (nat_of_digits ds))"
  using scan_digits(1) [of ds "[]"] by (simp add: stoll_def signed_of_def in_i64_def)

lemma stoul_show_nat [simp]: "n < 2 ^ 64 \<Longrightarrow> stoul (show_nat n) = Inr (of_nat n)"
  using scan_digits(1) [OF show_nat_digits show_nat_nonempty, of "[]"] by (simp add: stoul_def)

lemma show_int_chars: "c \<in> set (show_int x) \<Longrightarrow> c_isdigit c \<or> c = CHR ''-''"
  using show_nat_digits by (auto simp: show_int_def split: if_splits)

lemma show_nat_no_char: "\<not> c_isdigit c \<Longrightarrow> c \<notin> set (show_nat n)"
  using show_nat_digits by blast

lemma show_int_no_char: "\<not> c_isdigit c \<Longrightarrow> c \<noteq> CHR ''-'' \<Longrightarrow> c \<notin> set (show_int x)"
  using show_int_chars by blast

lemmas show_no_char = show_nat_no_char show_int_no_char c_isdigit_def char_code_def

lemma show_int_nonneg: "0 \<le> x \<Longrightarrow> show_int x = show_nat (nat x)"
  by (simp add: show_int_def)

lemma show_int_nonempty [simp]: "show_int x \<noteq> []"
  by (simp add: show_int_def)

lemma show_nat_inject [simp]: "show_nat m = show_nat n \<longleftrightarrow> m = n"
  by (metis nat_of_digits_show)

end
