(* ===== verification/EvTypes.thy ===== *)
theory EvTypes
  imports Prelude
begin

text \<open>
  The data that travels through the program: device kinds and input events
  (\<open>evrp/sdk/types.h\<close>), raw evdev events and device capabilities
  (\<open>evrp/sdk/evdev.h\<close>), the labels of the kinds (\<open>evrp/sdk/tofromstring.cpp\<close>), and the
  numeric constants of the Linux input ABI (\<open>linux/input-event-codes.h\<close>) that the
  sources name.
\<close>

section \<open>Types\<close>

datatype DeviceKind = kUnspecified | kTouchpad | kTouchscreen | kMouse | kKeyboard

record InputEvent =
  ie_device :: DeviceKind
  ie_timeSec :: int
  ie_timeUsec :: int
  ie_type :: u32
  ie_code :: u32
  ie_value :: int

record StatusCode =
  sc_code :: int
  sc_message :: string

record Event =
  ev_sec :: int
  ev_usec :: int
  ev_type :: u16
  ev_code :: u16
  ev_value :: int

record Capabilities =
  cap_name :: string
  evKey :: bool
  evAbs :: bool
  evRel :: bool
  absX :: bool
  absMtPositionX :: bool
  relX :: bool
  relY :: bool
  btnLeft :: bool
  btnRight :: bool
  btnMiddle :: bool
  btnToolFinger :: bool
  btnToolDoubletap :: bool
  btnToolTripletap :: bool
  keyEnter :: bool
  keySpace :: bool
  keyEsc :: bool
  keyA :: bool

section \<open>Constants of the Linux input ABI\<close>

abbreviation (input) EV_SYN :: "'a::len word" where "EV_SYN \<equiv> 0"
abbreviation (input) EV_KEY :: "'a::len word" where "EV_KEY \<equiv> 1"
abbreviation (input) EV_REL :: "'a::len word" where "EV_REL \<equiv> 2"
abbreviation (input) EV_ABS :: "'a::len word" where "EV_ABS \<equiv> 3"
abbreviation (input) EV_MSC :: "'a::len word" where "EV_MSC \<equiv> 4"
abbreviation (input) SYN_REPORT :: "'a::len word" where "SYN_REPORT \<equiv> 0"
abbreviation (input) SYN_MT_REPORT :: "'a::len word" where "SYN_MT_REPORT \<equiv> 2"
abbreviation (input) MSC_SCAN :: "'a::len word" where "MSC_SCAN \<equiv> 4"
abbreviation (input) MSC_TIMESTAMP :: "'a::len word" where "MSC_TIMESTAMP \<equiv> 5"
abbreviation (input) REL_X :: "'a::len word" where "REL_X \<equiv> 0"
abbreviation (input) REL_Y :: "'a::len word" where "REL_Y \<equiv> 1"
abbreviation (input) REL_HWHEEL :: "'a::len word" where "REL_HWHEEL \<equiv> 6"
abbreviation (input) REL_WHEEL :: "'a::len word" where "REL_WHEEL \<equiv> 8"
abbreviation (input) ABS_X :: "'a::len word" where "ABS_X \<equiv> 0"
abbreviation (input) ABS_Y :: "'a::len word" where "ABS_Y \<equiv> 1"
abbreviation (input) ABS_MT_SLOT :: "'a::len word" where "ABS_MT_SLOT \<equiv> 47"
abbreviation (input) ABS_MT_POSITION_X :: "'a::len word" where "ABS_MT_POSITION_X \<equiv> 53"
abbreviation (input) ABS_MT_POSITION_Y :: "'a::len word" where "ABS_MT_POSITION_Y \<equiv> 54"
abbreviation (input) ABS_MT_TRACKING_ID :: "'a::len word" where "ABS_MT_TRACKING_ID \<equiv> 57"
abbreviation (input) BTN_LEFT :: "'a::len word" where "BTN_LEFT \<equiv> 272"
abbreviation (input) BTN_RIGHT :: "'a::len word" where "BTN_RIGHT \<equiv> 273"
abbreviation (input) BTN_MIDDLE :: "'a::len word" where "BTN_MIDDLE \<equiv> 274"
abbreviation (input) BTN_TOOL_FINGER :: "'a::len word" where "BTN_TOOL_FINGER \<equiv> 325"
abbreviation (input) BTN_TOUCH :: "'a::len word" where "BTN_TOUCH \<equiv> 330"
abbreviation (input) BTN_TOOL_DOUBLETAP :: "'a::len word" where "BTN_TOOL_DOUBLETAP \<equiv> 333"
abbreviation (input) BTN_TOOL_TRIPLETAP :: "'a::len word" where "BTN_TOOL_TRIPLETAP \<equiv> 334"
abbreviation (input) BTN_TOOL_QUADTAP :: "'a::len word" where "BTN_TOOL_QUADTAP \<equiv> 335"
abbreviation (input) KEY_ESC :: "'a::len word" where "KEY_ESC \<equiv> 1"
abbreviation (input) KEY_1 :: "'a::len word" where "KEY_1 \<equiv> 2"
abbreviation (input) KEY_9 :: "'a::len word" where "KEY_9 \<equiv> 10"
abbreviation (input) KEY_0 :: "'a::len word" where "KEY_0 \<equiv> 11"
abbreviation (input) KEY_BACKSPACE :: "'a::len word" where "KEY_BACKSPACE \<equiv> 14"
abbreviation (input) KEY_TAB :: "'a::len word" where "KEY_TAB \<equiv> 15"
abbreviation (input) KEY_ENTER :: "'a::len word" where "KEY_ENTER \<equiv> 28"
abbreviation (input) KEY_LEFTCTRL :: "'a::len word" where "KEY_LEFTCTRL \<equiv> 29"
abbreviation (input) KEY_A :: "'a::len word" where "KEY_A \<equiv> 30"
abbreviation (input) KEY_S :: "'a::len word" where "KEY_S \<equiv> 31"
abbreviation (input) KEY_LEFTSHIFT :: "'a::len word" where "KEY_LEFTSHIFT \<equiv> 42"
abbreviation (input) KEY_Z :: "'a::len word" where "KEY_Z \<equiv> 44"
abbreviation (input) KEY_C :: "'a::len word" where "KEY_C \<equiv> 46"
abbreviation (input) KEY_RIGHTSHIFT :: "'a::len word" where "KEY_RIGHTSHIFT \<equiv> 54"
abbreviation (input) KEY_LEFTALT :: "'a::len word" where "KEY_LEFTALT \<equiv> 56"
abbreviation (input) KEY_SPACE :: "'a::len word" where "KEY_SPACE \<equiv> 57"
abbreviation (input) KEY_RIGHTCTRL :: "'a::len word" where "KEY_RIGHTCTRL \<equiv> 97"
abbreviation (input) KEY_RIGHTALT :: "'a::len word" where "KEY_RIGHTALT \<equiv> 100"

section \<open>Labels of the device kinds\<close>

definition toKind :: "string \<Rightarrow> DeviceKind" where
  "toKind label =
     (if label = ''keyboard'' then kKeyboard
      else if label = ''mouse'' then kMouse
      else if label = ''touchpad'' then kTouchpad
      else if label = ''touchscreen'' then kTouchscreen
      else kUnspecified)"

fun kindToString :: "DeviceKind \<Rightarrow> string" where
  "kindToString kKeyboard = ''keyboard''"
| "kindToString kMouse = ''mouse''"
| "kindToString kTouchpad = ''touchpad''"
| "kindToString kTouchscreen = ''touchscreen''"
| "kindToString kUnspecified = []"

text \<open>The enumeration order of \<open>DeviceKind\<close>, which orders \<open>std::map<DeviceKind, _>\<close>.\<close>

fun kind_rank :: "DeviceKind \<Rightarrow> nat" where
  "kind_rank kUnspecified = 0"
| "kind_rank kTouchpad = 1"
| "kind_rank kTouchscreen = 2"
| "kind_rank kMouse = 3"
| "kind_rank kKeyboard = 4"

section \<open>Lemmas\<close>

lemma kind_rank_inject: "kind_rank a = kind_rank b \<longleftrightarrow> a = b"
  by (cases a; cases b) simp_all

instantiation DeviceKind :: linorder
begin

definition less_eq_DeviceKind :: "DeviceKind \<Rightarrow> DeviceKind \<Rightarrow> bool" where
  "less_eq_DeviceKind a b \<longleftrightarrow> kind_rank a \<le> kind_rank b"

definition less_DeviceKind :: "DeviceKind \<Rightarrow> DeviceKind \<Rightarrow> bool" where
  "less_DeviceKind a b \<longleftrightarrow> kind_rank a < kind_rank b"

instance
  by standard (auto simp: less_eq_DeviceKind_def less_DeviceKind_def kind_rank_inject)

end

text \<open>Every kind is recovered from its label, and only the five labels name a kind.\<close>

lemma toKind_toString [simp]: "toKind (kindToString k) = k"
  by (cases k) (simp_all add: toKind_def)

lemma toKind_eq_iff:
  "k \<noteq> kUnspecified \<Longrightarrow> toKind l = k \<longleftrightarrow> l = kindToString k"
  by (cases k) (auto simp: toKind_def)

lemma kindToString_chars: "c \<in> set (kindToString k) \<Longrightarrow> c \<noteq> CHR ''['' \<and> c \<noteq> CHR '']''"
  by (cases k) auto

lemma kindToString_inject: "kindToString a = kindToString b \<longleftrightarrow> a = b"
  by (metis toKind_toString)

end
