(* ===== verification/KeyboardDevice.thy ===== *)
theory KeyboardDevice
  imports EvTypes
begin

text \<open>
  \<open>evrp/sdk/keyboard/keyboarddevice.cpp\<close>: the keyboard heuristic, the key names of the
  recording comments, and the filter that keeps the Ctrl+C chord which stops a recording
  out of the recording. The filter is a state machine over \<open>keyboard_filter_state\<close>; it
  holds events back while a control key is down and emits or drops them as a window.
\<close>

section \<open>Names and recognition\<close>

definition lower :: "string \<Rightarrow> string" where
  "lower s = map c_tolower s"

definition nameLikeKeyboard :: "string \<Rightarrow> bool" where
  "nameLikeKeyboard name =
     (let n = lower name in contains_sub n ''keyboard'' \<or> contains_sub n ''keypad'')"

definition isKeyboardFromCapabilities :: "Capabilities \<Rightarrow> bool" where
  "isKeyboardFromCapabilities caps =
     (let has_keyboard_keys = (keyEnter caps \<or> keySpace caps \<or> keyEsc caps \<or> keyA caps)
      in evKey caps \<and> has_keyboard_keys \<and> nameLikeKeyboard (cap_name caps))"

definition makeKeyEvent :: "u16 \<Rightarrow> int \<Rightarrow> Event" where
  "makeKeyEvent code value =
     \<lparr>ev_sec = 0, ev_usec = 0, ev_type = EV_KEY, ev_code = code, ev_value = value\<rparr>"

definition keyboardKeyNameFromCode :: "u16 \<Rightarrow> string" where
  "keyboardKeyNameFromCode code =
     (if KEY_A \<le> code \<and> code \<le> KEY_Z then [char_of (65 + (unat code - unat (KEY_A :: u16)))]
      else if KEY_1 \<le> code \<and> code \<le> KEY_9 then [char_of (49 + (unat code - unat (KEY_1 :: u16)))]
      else if code = KEY_0 then ''0''
      else if code = KEY_LEFTCTRL then ''LEFTCTRL''
      else if code = KEY_RIGHTCTRL then ''RIGHTCTRL''
      else if code = KEY_LEFTSHIFT then ''LEFTSHIFT''
      else if code = KEY_RIGHTSHIFT then ''RIGHTSHIFT''
      else if code = KEY_LEFTALT then ''LEFTALT''
      else if code = KEY_RIGHTALT then ''RIGHTALT''
      else if code = KEY_SPACE then ''SPACE''
      else if code = KEY_ENTER then ''ENTER''
      else if code = KEY_ESC then ''ESC''
      else if code = KEY_TAB then ''TAB''
      else if code = KEY_BACKSPACE then ''BACKSPACE''
      else ''unknown('' @ show_nat (unat code) @ '')'')"

definition keyboardKeyActionFromValue :: "int \<Rightarrow> string" where
  "keyboardKeyActionFromValue value =
     (if value = 0 then ''release''
      else if value = 1 then ''press''
      else if value = 2 then ''repeat''
      else ''unknown('' @ show_int value @ '')'')"

section \<open>The Ctrl+C filter\<close>

datatype KeyboardCtrlCFilterMode = kOff | kFull | kEndingOnly

record keyboard_filter_state =
  ctrl_down_count :: int
  saw_ctrl_c :: bool
  pending_events :: "Event list"

definition keyboardCtrlCFilterModeFromLabel :: "string \<Rightarrow> KeyboardCtrlCFilterMode" where
  "keyboardCtrlCFilterModeFromLabel label =
     (let t = map c_tolower (filter (\<lambda>c. \<not> c_isspace c) label) in
      if t = ''full'' then kFull
      else if t = ''ending'' \<or> t = ''endingonly'' then kEndingOnly
      else kOff)"

definition is_c_press :: "Event \<Rightarrow> bool" where
  "is_c_press e \<longleftrightarrow>
     ev_type e = EV_KEY \<and> ev_code e = KEY_C \<and> (ev_value e = 1 \<or> ev_value e = 2)"

text \<open>The scan for the last Ctrl+C press; the initial index \<open>pending.size()\<close> means none.\<close>

fun last_c_press_from :: "Event list \<Rightarrow> nat \<Rightarrow> nat \<Rightarrow> nat" where
  "last_c_press_from [] i last_c = last_c"
| "last_c_press_from (e # es) i last_c =
     last_c_press_from es (i + 1) (if is_c_press e then i else last_c)"

definition emitPendingThroughLastCtrlCPress :: "Event list \<Rightarrow> Event list \<Rightarrow> Event list" where
  "emitPendingThroughLastCtrlCPress pending emitted =
     (if pending = [] then emitted
      else let last_c_press = last_c_press_from pending 0 (length pending) in
           if last_c_press < length pending then emitted @ take (last_c_press + 1) pending
           else emitted)"

text \<open>What leaving a control window does: emit it, emit its head, or drop it.\<close>

definition closeWindow ::
  "KeyboardCtrlCFilterMode \<Rightarrow> keyboard_filter_state \<Rightarrow> Event list
   \<Rightarrow> keyboard_filter_state \<times> Event list" where
  "closeWindow mode state emitted =
     (state\<lparr>saw_ctrl_c := False, pending_events := []\<rparr>,
      if \<not> saw_ctrl_c state then emitted @ pending_events state
      else if mode = kEndingOnly then emitPendingThroughLastCtrlCPress (pending_events state) emitted
      else emitted)"

definition processKeyboardEventWithCtrlFilter ::
  "Event \<Rightarrow> KeyboardCtrlCFilterMode \<Rightarrow> keyboard_filter_state \<Rightarrow> Event list
   \<Rightarrow> keyboard_filter_state \<times> Event list" where
  "processKeyboardEventWithCtrlFilter ev mode state emitted =
     (if mode = kOff then (state, emitted @ [ev])
      else
        let is_ctrl_key = (ev_code ev = KEY_LEFTCTRL \<or> ev_code ev = KEY_RIGHTCTRL);
            is_press = (ev_value ev = 1);
            is_repeat = (ev_value ev = 2);
            is_release = (ev_value ev = 0);
            push = (\<lambda>s. s\<lparr>pending_events := pending_events s @ [ev]\<rparr>)
        in
        if ev_type ev = EV_KEY \<and> is_ctrl_key then
          let s1 = (if is_press then state\<lparr>ctrl_down_count := ctrl_down_count state + 1\<rparr> else state);
              s2 = push s1;
              s3 = (if is_release \<and> ctrl_down_count s2 > 0
                    then s2\<lparr>ctrl_down_count := ctrl_down_count s2 - 1\<rparr> else s2)
          in if is_release \<and> ctrl_down_count s3 = 0 then closeWindow mode s3 emitted
             else (s3, emitted)
        else if ev_type ev = EV_KEY \<and> ctrl_down_count state > 0 then
          let s1 = push state
          in (if ev_code ev = KEY_C \<and> (is_press \<or> is_repeat) then s1\<lparr>saw_ctrl_c := True\<rparr> else s1,
              emitted)
        else if ev_type ev \<noteq> EV_KEY \<and> ctrl_down_count state > 0 then (push state, emitted)
        else
          let (s', out) = (if pending_events state \<noteq> [] \<and> ctrl_down_count state = 0
                           then closeWindow mode state emitted else (state, emitted))
          in (s', out @ [ev]))"

definition flushKeyboardEventFilter ::
  "KeyboardCtrlCFilterMode \<Rightarrow> keyboard_filter_state \<Rightarrow> Event list
   \<Rightarrow> keyboard_filter_state \<times> Event list" where
  "flushKeyboardEventFilter mode state emitted =
     (if mode = kOff then (state, emitted)
      else if ctrl_down_count state \<noteq> 0 then (state, emitted)
      else let out = (if pending_events state \<noteq> [] then snd (closeWindow mode state emitted)
                      else emitted)
           in (state\<lparr>saw_ctrl_c := False, pending_events := []\<rparr>, out))"

text \<open>The filter over a batch, as the recording loop of \<open>Record::run\<close> drives it.\<close>

fun filterAll ::
  "KeyboardCtrlCFilterMode \<Rightarrow> keyboard_filter_state \<Rightarrow> Event list
   \<Rightarrow> keyboard_filter_state \<times> Event list" where
  "filterAll mode s [] = (s, [])"
| "filterAll mode s (e # es) =
     (let (s', out) = processKeyboardEventWithCtrlFilter e mode s [];
          (s'', out') = filterAll mode s' es
      in (s'', out @ out'))"

definition filter_init :: keyboard_filter_state where
  "filter_init = \<lparr>ctrl_down_count = 0, saw_ctrl_c = False, pending_events = []\<rparr>"

definition is_ctrl :: "Event \<Rightarrow> bool" where
  "is_ctrl e \<longleftrightarrow> ev_type e = EV_KEY \<and> (ev_code e = KEY_LEFTCTRL \<or> ev_code e = KEY_RIGHTCTRL)"

text \<open>What the state keeps true between events: the count of held control keys is not
  negative, a pending Ctrl+C press is remembered, and with no control key held nothing but
  stray control events (repeats) is held back.\<close>

definition filter_inv :: "keyboard_filter_state \<Rightarrow> bool" where
  "filter_inv s \<longleftrightarrow> 0 \<le> ctrl_down_count s
     \<and> (saw_ctrl_c s \<longrightarrow> (\<exists>e \<in> set (pending_events s). is_c_press e))
     \<and> (ctrl_down_count s = 0 \<longrightarrow> (\<forall>e \<in> set (pending_events s). is_ctrl e) \<and> \<not> saw_ctrl_c s)"

section \<open>Lemmas on the filter\<close>

lemma last_c_press_from_le: "\<not> (\<exists>e \<in> set es. is_c_press e) \<Longrightarrow> last_c_press_from es i l = l"
  by (induction es i l rule: last_c_press_from.induct) auto

lemma last_c_press_from_append:
  "\<not> (\<exists>e \<in> set es'. is_c_press e) \<Longrightarrow> is_c_press c \<Longrightarrow>
   last_c_press_from (es @ c # es') i l = i + length es"
  by (induction es arbitrary: i l) (auto simp: last_c_press_from_le)

lemma emitPending_subseq: "\<exists>t. emitPendingThroughLastCtrlCPress p em = em @ t \<and> subseq t p"
proof -
  have "subseq (take n p) p" for n
    by (rule prefix_imp_subseq) (rule take_is_prefix)
  then show ?thesis
    by (auto simp: emitPendingThroughLastCtrlCPress_def Let_def)
qed

lemma closeWindow_state [simp]:
  "fst (closeWindow m s em) = s\<lparr>saw_ctrl_c := False, pending_events := []\<rparr>"
  by (simp add: closeWindow_def)

lemma closeWindow_subseq: "subseq (snd (closeWindow m s [])) (pending_events s)"
  using emitPending_subseq [of "pending_events s" "[]"] by (auto simp: closeWindow_def)

lemma closeWindow_keep:
  "\<not> saw_ctrl_c s \<Longrightarrow>
   closeWindow m s em = (s\<lparr>saw_ctrl_c := False, pending_events := []\<rparr>, em @ pending_events s)"
  by (simp add: closeWindow_def)

text \<open>The three ways an event goes through an active filter.\<close>

lemma process_off: "processKeyboardEventWithCtrlFilter e kOff s em = (s, em @ [e])"
  by (simp add: processKeyboardEventWithCtrlFilter_def)

lemma process_ctrl:
  assumes "m \<noteq> kOff" and "is_ctrl e"
  shows "processKeyboardEventWithCtrlFilter e m s em =
    (let c = ctrl_down_count s;
         c' = (if ev_value e = 1 then c + 1 else if ev_value e = 0 \<and> c > 0 then c - 1 else c);
         s' = s\<lparr>ctrl_down_count := c', pending_events := pending_events s @ [e]\<rparr>
     in if ev_value e = 0 \<and> c' = 0 then closeWindow m s' em else (s', em))"
  using assms by (cases s) (auto simp: processKeyboardEventWithCtrlFilter_def is_ctrl_def Let_def)

lemma process_held:
  assumes "m \<noteq> kOff" and "\<not> is_ctrl e" and "ctrl_down_count s > 0"
  shows "processKeyboardEventWithCtrlFilter e m s em =
    (s\<lparr>pending_events := pending_events s @ [e], saw_ctrl_c := saw_ctrl_c s \<or> is_c_press e\<rparr>, em)"
  using assms
  by (auto simp: processKeyboardEventWithCtrlFilter_def is_ctrl_def is_c_press_def Let_def)

lemma process_plain:
  assumes "m \<noteq> kOff" and "\<not> is_ctrl e" and "ctrl_down_count s = 0"
  shows "processKeyboardEventWithCtrlFilter e m s em =
    (if pending_events s = [] then (s, em @ [e])
     else (fst (closeWindow m s em), snd (closeWindow m s em) @ [e]))"
  using assms
  by (auto simp: processKeyboardEventWithCtrlFilter_def is_ctrl_def Let_def split_beta)

lemmas process_cases = process_off process_ctrl process_held process_plain

lemma filter_inv_split [consumes 1, case_names ctrl held plain]:
  assumes "filter_inv s"
  obtains "is_ctrl e" | "\<not> is_ctrl e" "ctrl_down_count s > 0" | "\<not> is_ctrl e" "ctrl_down_count s = 0"
  using assms by (cases "is_ctrl e"; cases "ctrl_down_count s = 0") (simp_all add: filter_inv_def)

lemma filter_inv_init: "filter_inv filter_init"
  by (simp add: filter_inv_def filter_init_def)

lemma ctrl_not_c_press: "is_ctrl e \<Longrightarrow> \<not> is_c_press e"
  by (auto simp: is_ctrl_def is_c_press_def)

lemma process_inv [inv_intros]:
  assumes "filter_inv s" and "m \<noteq> kOff"
  shows "filter_inv (fst (processKeyboardEventWithCtrlFilter e m s em))"
  using assms(1)
proof (cases rule: filter_inv_split [of _ e])
  case ctrl
  with assms show ?thesis
    by (auto simp: process_ctrl [OF assms(2) ctrl] filter_inv_def closeWindow_def Let_def)
next
  case held
  with assms show ?thesis by (auto simp: process_held [OF assms(2)] filter_inv_def)
next
  case plain
  with assms show ?thesis
    by (auto simp: process_plain [OF assms(2)] filter_inv_def closeWindow_def)
qed

text \<open>One event: what is emitted together with what stays pending is a subsequence of what
  was pending followed by the event.\<close>

lemma process_subseq:
  assumes "filter_inv s" and "m \<noteq> kOff"
  shows "subseq (snd (processKeyboardEventWithCtrlFilter e m s [])
                 @ pending_events (fst (processKeyboardEventWithCtrlFilter e m s [])))
                (pending_events s @ [e])"
proof -
  have keep: "subseq t p \<Longrightarrow> subseq (t @ [e]) (p @ [e])" for t p :: "Event list"
    by (rule list_emb_append_mono) simp_all
  from assms(1) show ?thesis
  proof (cases rule: filter_inv_split [of _ e])
    case ctrl
    have "subseq (snd (closeWindow m (s\<lparr>ctrl_down_count := c, pending_events := pending_events s @ [e]\<rparr>) []))
        (pending_events s @ [e])" for c
      using closeWindow_subseq [of m "s\<lparr>ctrl_down_count := c, pending_events := pending_events s @ [e]\<rparr>"]
      by simp
    then show ?thesis by (simp add: process_ctrl [OF assms(2) ctrl] Let_def)
  next
    case held
    then show ?thesis by (simp add: process_held [OF assms(2)])
  next
    case plain
    then show ?thesis
      using closeWindow_subseq [of m s] keep by (auto simp: process_plain [OF assms(2)])
  qed
qed

lemma process_lossless:
  assumes "filter_inv s" and "m \<noteq> kOff" and "\<not> saw_ctrl_c s" and "\<not> is_c_press e"
  shows "snd (processKeyboardEventWithCtrlFilter e m s [])
         @ pending_events (fst (processKeyboardEventWithCtrlFilter e m s [])) = pending_events s @ [e]
    \<and> \<not> saw_ctrl_c (fst (processKeyboardEventWithCtrlFilter e m s []))"
  using assms(1)
proof (cases rule: filter_inv_split [of _ e])
  case ctrl
  then show ?thesis
    using assms(3) by (auto simp: process_ctrl [OF assms(2) ctrl] closeWindow_keep Let_def)
next
  case held
  then show ?thesis using assms(3,4) by (simp add: process_held [OF assms(2)])
next
  case plain
  then show ?thesis using assms(3) by (auto simp: process_plain [OF assms(2)] closeWindow_keep)
qed

lemma filterAll_inv [inv_intros]: "filter_inv s \<Longrightarrow> m \<noteq> kOff \<Longrightarrow> filter_inv (fst (filterAll m s es))"
proof (induction es arbitrary: s)
  case (Cons e es)
  then show ?case
    using process_inv [of s m e "[]"] by (auto simp: split_beta Let_def)
qed simp

lemma filterAll_subseq:
  assumes "filter_inv s" and "m \<noteq> kOff"
  shows "subseq (snd (filterAll m s es) @ pending_events (fst (filterAll m s es))) (pending_events s @ es)"
  using assms
proof (induction es arbitrary: s)
  case (Cons e es)
  let ?p = "processKeyboardEventWithCtrlFilter e m s []"
  have "subseq (snd (filterAll m (fst ?p) es) @ pending_events (fst (filterAll m (fst ?p) es)))
          (pending_events (fst ?p) @ es)"
    using Cons process_inv by blast
  then have "subseq (snd ?p @ snd (filterAll m (fst ?p) es) @ pending_events (fst (filterAll m (fst ?p) es)))
          (snd ?p @ pending_events (fst ?p) @ es)"
    by (simp add: list_emb_append_mono)
  also have "subseq (snd ?p @ pending_events (fst ?p) @ es) (pending_events s @ e # es)"
    using list_emb_append_mono [OF process_subseq [OF Cons.prems, of e], of es es] by simp
  finally show ?case by (simp add: split_beta Let_def)
qed simp

lemma filterAll_lossless:
  assumes "filter_inv s" and "m \<noteq> kOff" and "\<not> saw_ctrl_c s" and "\<forall>e \<in> set es. \<not> is_c_press e"
  shows "snd (filterAll m s es) @ pending_events (fst (filterAll m s es)) = pending_events s @ es
    \<and> \<not> saw_ctrl_c (fst (filterAll m s es))"
  using assms
proof (induction es arbitrary: s)
  case (Cons e es)
  let ?p = "processKeyboardEventWithCtrlFilter e m s []"
  have p: "snd ?p @ pending_events (fst ?p) = pending_events s @ [e]" "\<not> saw_ctrl_c (fst ?p)"
    using process_lossless [of s m e] Cons.prems by simp_all
  have "snd (filterAll m (fst ?p) es) @ pending_events (fst (filterAll m (fst ?p) es))
      = pending_events (fst ?p) @ es \<and> \<not> saw_ctrl_c (fst (filterAll m (fst ?p) es))"
    using Cons.IH [of "fst ?p"] Cons.prems p process_inv by simp
  moreover have "snd ?p @ pending_events (fst ?p) @ es = pending_events s @ e # es"
    unfolding append_assoc [symmetric] p(1) by simp
  ultimately show ?case by (simp add: split_beta Let_def)
qed simp

lemma filterAll_append:
  "filterAll m s (xs @ ys) =
     (fst (filterAll m (fst (filterAll m s xs)) ys),
      snd (filterAll m s xs) @ snd (filterAll m (fst (filterAll m s xs)) ys))"
  by (induction xs arbitrary: s) (simp_all add: split_beta Let_def)

lemma filterAll_held:
  assumes "m \<noteq> kOff" and "\<forall>e \<in> set es. \<not> is_ctrl e" and "ctrl_down_count s > 0"
  shows "filterAll m s es =
    (s\<lparr>pending_events := pending_events s @ es,
       saw_ctrl_c := saw_ctrl_c s \<or> (\<exists>e \<in> set es. is_c_press e)\<rparr>, [])"
  using assms
  by (induction es arbitrary: s) (auto simp: process_held Let_def split_beta)

lemma process_init:
  "\<not> is_ctrl e \<Longrightarrow> processKeyboardEventWithCtrlFilter e m filter_init em = (filter_init, em @ [e])"
  by (cases "m = kOff") (simp_all add: process_off process_plain filter_init_def)

lemma filterAll_plain:
  "\<forall>e \<in> set es. \<not> is_ctrl e \<Longrightarrow> filterAll m filter_init es = (filter_init, es)"
  by (induction es) (simp_all add: process_init Let_def)

section \<open>Properties of the filter\<close>



text \<open>Without a press of the C key nothing is lost: the events emitted during the
  recording, the events emitted by the final flush and the events still held because a
  control key is down are exactly the recorded events in order; with no control key held at
  the end the flush leaves nothing behind.\<close>

theorem filter_lossless_without_c:
  assumes "m \<noteq> kOff" and "\<forall>e \<in> set es. \<not> is_c_press e"
  defines "r \<equiv> filterAll m filter_init es"
  defines "f \<equiv> flushKeyboardEventFilter m (fst r) []"
  shows "snd r @ snd f @ pending_events (fst f) = es
    \<and> (ctrl_down_count (fst r) = 0 \<longrightarrow> snd r @ snd f = es)"
  using assms(1) filterAll_lossless [OF filter_inv_init assms(1) _ assms(2)]
  unfolding r_def f_def
  by (auto simp: flushKeyboardEventFilter_def filter_init_def closeWindow_keep Let_def)

theorem filter_lossless_without_c_witness:
  "snd (filterAll kEndingOnly filter_init [makeKeyEvent KEY_LEFTCTRL 1, makeKeyEvent KEY_A 1, makeKeyEvent KEY_LEFTCTRL 0])
   @ snd (flushKeyboardEventFilter kEndingOnly
       (fst (filterAll kEndingOnly filter_init [makeKeyEvent KEY_LEFTCTRL 1, makeKeyEvent KEY_A 1, makeKeyEvent KEY_LEFTCTRL 0])) [])
   @ pending_events (fst (flushKeyboardEventFilter kEndingOnly
       (fst (filterAll kEndingOnly filter_init [makeKeyEvent KEY_LEFTCTRL 1, makeKeyEvent KEY_A 1, makeKeyEvent KEY_LEFTCTRL 0])) []))
   = [makeKeyEvent KEY_LEFTCTRL 1, makeKeyEvent KEY_A 1, makeKeyEvent KEY_LEFTCTRL 0]"
  using filter_lossless_without_c
    [of kEndingOnly "[makeKeyEvent KEY_LEFTCTRL 1, makeKeyEvent KEY_A 1, makeKeyEvent KEY_LEFTCTRL 0]"]
  by (simp add: is_c_press_def makeKeyEvent_def)



text \<open>The key names of the recording comments assume that the evdev codes of the
  letters are consecutive. They follow the rows of the keyboard: the S key is written as
  B, the left shift key as M, and the C key has no name.\<close>

theorem key_names_follow_no_layout:
  "keyboardKeyNameFromCode KEY_S = ''B'' \<and> keyboardKeyNameFromCode KEY_LEFTSHIFT = ''M''
   \<and> keyboardKeyNameFromCode KEY_C = ''unknown(46)''"
  by (simp add: keyboardKeyNameFromCode_def) code_simp

end
