(* ===== verification/EventFormat.thy ===== *)
theory EventFormat
  imports EvTypes KeyboardDevice
begin

text \<open>
  The text format of a recording (\<open>evrp/sdk/eventformat.cpp\<close>): one line per event,
  \<open>[kind] SEC.USEC type=T(NAME) code=C(NAME) value=V // comment\<close>, and the two duration
  lines \<open>[leading] SEC.USEC\<close> and \<open>[trailing] SEC.USEC\<close>. The main results are that the
  parser reads back what the formatter writes.
\<close>

section \<open>Parsing\<close>

definition parseEventLabel :: "string \<Rightarrow> string" where
  "parseEventLabel line =
     (case chr_find (CHR ''['') line 0 of
        None \<Rightarrow> []
      | Some lb \<Rightarrow>
          (case chr_find (CHR '']'') line (lb + 1) of
             None \<Rightarrow> []
           | Some rb \<Rightarrow> substr line (lb + 1) (rb - lb - 1)))"

text \<open>The \<open>SEC.USEC\<close> token, as both line parsers read it.\<close>

definition parseTimestamp :: "string \<Rightarrow> int option" where
  "parseTimestamp ts_token =
     (case chr_find (CHR ''.'') ts_token 0 of
        None \<Rightarrow> None
      | Some dot \<Rightarrow>
          (if dot = 0 \<or> length ts_token \<le> dot + 1 then None
           else (case stoll (substr ts_token 0 dot) of
                   Inl _ \<Rightarrow> None
                 | Inr sec \<Rightarrow>
                     (case stoll (drop (dot + 1) ts_token) of
                        Inl _ \<Rightarrow> None
                      | Inr usec \<Rightarrow> Some (wrap_i64 (wrap_i64 (sec * 1000000) + usec))))))"

text \<open>One \<open>name=NUMBER\<close> field: where \<open>name=\<close> starts at or after \<open>from\<close>, and where the
  number ends (the first of \<open>stops\<close>, or the end of the line).\<close>

definition fieldAfter :: "string \<Rightarrow> string \<Rightarrow> string \<Rightarrow> nat \<Rightarrow> (string \<times> nat) option" where
  "fieldAfter name stops line from =
     (case str_find name line from of
        None \<Rightarrow> None
      | Some p \<Rightarrow>
          (let pos = p + length name;
               stop = (case find_first_of stops line pos of None \<Rightarrow> length line | Some e \<Rightarrow> e)
           in Some (substr line pos (stop - pos), stop)))"

definition parseEventLine :: "string \<Rightarrow> (int \<times> u16 \<times> u16 \<times> int) option" where
  "parseEventLine line =
     (case str_find ''] '' line 0 of
        None \<Rightarrow> None
      | Some bracket \<Rightarrow>
     (let ts_start = bracket + 2 in
      case chr_find (CHR '' '') line ts_start of
        None \<Rightarrow> None
      | Some ts_end \<Rightarrow>
     (if ts_end \<le> ts_start then None else
      case parseTimestamp (substr line ts_start (ts_end - ts_start)) of
        None \<Rightarrow> None
      | Some deltaUs \<Rightarrow>
     (case fieldAfter ''type='' ''( '' line ts_end of
        None \<Rightarrow> None
      | Some (type_tok, type_end) \<Rightarrow>
     (case stoul type_tok of
        Inl _ \<Rightarrow> None
      | Inr type \<Rightarrow>
     (case fieldAfter ''code='' ''( '' line type_end of
        None \<Rightarrow> None
      | Some (code_tok, code_end) \<Rightarrow>
     (case stoul code_tok of
        Inl _ \<Rightarrow> None
      | Inr code \<Rightarrow>
     (case fieldAfter ''value='' '' /'' line code_end of
        None \<Rightarrow> None
      | Some (value_tok, value_end) \<Rightarrow>
     (case stoi value_tok of
        Inl _ \<Rightarrow> None
      | Inr value \<Rightarrow> Some (deltaUs, ucast type, ucast code, value))))))))))"

definition parseLabeledDurationLine :: "string \<Rightarrow> string \<Rightarrow> int option" where
  "parseLabeledDurationLine line expected_label =
     (if parseEventLabel line \<noteq> expected_label then None
      else (case str_find ''] '' line 0 of
              None \<Rightarrow> None
            | Some bracket \<Rightarrow> parseTimestamp (drop (bracket + 2) line)))"

definition parseLeadingLine :: "string \<Rightarrow> int option" where
  "parseLeadingLine line = parseLabeledDurationLine line ''leading''"

definition parseTrailingLine :: "string \<Rightarrow> int option" where
  "parseTrailingLine line = parseLabeledDurationLine line ''trailing''"

section \<open>Formatting\<close>

definition eventTypeName :: "u16 \<Rightarrow> string" where
  "eventTypeName type =
     (if type = EV_SYN then ''EV_SYN''
      else if type = EV_KEY then ''EV_KEY''
      else if type = EV_REL then ''EV_REL''
      else if type = EV_ABS then ''EV_ABS''
      else if type = EV_MSC then ''EV_MSC''
      else ''EV_UNKNOWN'')"

definition eventCodeName :: "u16 \<Rightarrow> u16 \<Rightarrow> string" where
  "eventCodeName type code =
     (if type = EV_MSC then
        (if code = MSC_SCAN then ''MSC_SCAN''
         else if code = MSC_TIMESTAMP then ''MSC_TIMESTAMP'' else [])
      else if type = EV_SYN then
        (if code = SYN_REPORT then ''SYN_REPORT''
         else if code = SYN_MT_REPORT then ''SYN_MT_REPORT'' else [])
      else [])"

text \<open>\<open>delta_sec\<close> and \<open>deltaUsec\<close> after the sign fix, printed as \<open>SEC.USEC\<close>.\<close>

definition formatTimestamp :: "int \<Rightarrow> string" where
  "formatTimestamp deltaUs =
     (let delta_sec = deltaUs sdiv 1000000; deltaUsec = deltaUs smod 1000000;
          (s, u) = (if deltaUsec < 0 then (delta_sec - 1, deltaUsec + 1000000)
                    else (delta_sec, deltaUsec))
      in show_int s @ ''.'' @ pad0 6 (show_int u))"

definition formatEventLine :: "DeviceKind \<Rightarrow> Event \<Rightarrow> int \<Rightarrow> string" where
  "formatEventLine device ev deltaUs =
     (let code_name = eventCodeName (ev_type ev) (ev_code ev) in
      ''['' @ kindToString device @ ''] '' @ formatTimestamp deltaUs
      @ '' type='' @ show_nat (unat (ev_type ev)) @ ''('' @ eventTypeName (ev_type ev) @ '')''
      @ '' code='' @ show_nat (unat (ev_code ev))
      @ (if code_name \<noteq> [] then ''('' @ code_name @ '')'' else [])
      @ '' value='' @ show_int (ev_value ev)
      @ (if device = kKeyboard then
           (if ev_type ev = EV_KEY then
              '' // key='' @ keyboardKeyNameFromCode (ev_code ev)
              @ '' action='' @ keyboardKeyActionFromValue (ev_value ev)
            else '' // key=N/A action=non-key-event'')
         else []))"

definition formatDurationLine :: "string \<Rightarrow> int \<Rightarrow> string" where
  "formatDurationLine label deltaUs = ''['' @ label @ ''] '' @ formatTimestamp deltaUs"

definition formatLeadingLine :: "int \<Rightarrow> string" where
  "formatLeadingLine deltaUs = formatDurationLine ''leading'' deltaUs"

definition formatTrailingLine :: "int \<Rightarrow> string" where
  "formatTrailingLine deltaUs = formatDurationLine ''trailing'' deltaUs"

text \<open>The durations whose \<open>SEC * 1000000 + USEC\<close> does not overflow \<open>long long\<close>.\<close>

definition ts_ok :: "int \<Rightarrow> bool" where
  "ts_ok d \<longleftrightarrow> - (9223372036854 * 1000000) \<le> d \<and> d < 2 ^ 63"

section \<open>Lemmas on time stamps\<close>

text \<open>The two printed numbers are the floor quotient and the non-negative remainder.\<close>

lemma formatTimestamp_floor:
  "formatTimestamp d = show_int (d div 1000000) @ ''.'' @ pad0 6 (show_int (d mod 1000000))"
proof (cases "d < 0")
  case True
  have "(- d) mod 1000000 = (if d mod 1000000 = 0 then 0 else 1000000 - d mod 1000000)"
    by (simp add: zmod_zminus1_eq_if)
  moreover have "(- d) div 1000000 = (if d mod 1000000 = 0 then - (d div 1000000) else - (d div 1000000) - 1)"
    by (simp add: zdiv_zminus1_eq_if)
  ultimately show ?thesis
    using True by (auto simp: formatTimestamp_def sdiv_neg smod_neg Let_def)
next
  case False
  moreover have "\<not> d mod 1000000 < 0" by simp
  ultimately show ?thesis by (simp add: formatTimestamp_def sdiv_pos smod_pos Let_def del: pos_mod_sign)
qed

lemma usec_digits:
  "\<forall>c \<in> set (pad0 6 (show_int (d mod 1000000))). c_isdigit c"
  by (rule pad0_digits) (simp add: show_int_nonneg show_nat_digits)

lemma timestamp_no_char:
  assumes "c \<in> set (formatTimestamp d)"
  shows "c_isdigit c \<or> c = CHR ''-'' \<or> c = CHR ''.''"
  using assms usec_digits [of d] show_int_chars [of c "d div 1000000"]
  by (auto simp: formatTimestamp_floor)

lemma ts_ok_sec:
  assumes "ts_ok d"
  shows "in_i64 (d div 1000000)" and "in_i64 (d div 1000000 * 1000000)"
proof -
  define q r where "q = d div 1000000" and "r = d mod 1000000"
  then have "d = q * 1000000 + r" "0 \<le> r" "r < 1000000" by simp_all
  moreover have "- 9223372036854000000 \<le> d" and "d < 9223372036854775808"
    using assms by (simp_all add: ts_ok_def)
  ultimately have "- 9223372036854 \<le> q" and "q \<le> 9223372036854" by linarith+
  then have "in_i64 q" and "in_i64 (q * 1000000)"
    unfolding in_i64_def by simp_all
  then show "in_i64 (d div 1000000)" and "in_i64 (d div 1000000 * 1000000)"
    by (simp_all add: q_def)
qed

lemma parse_format_timestamp:
  assumes "ts_ok d"
  shows "parseTimestamp (formatTimestamp d) = Some d"
proof -
  let ?s = "show_int (d div 1000000)" and ?u = "pad0 6 (show_int (d mod 1000000))"
  have "CHR ''.'' \<notin> set ?s"
    using show_int_chars [of "CHR ''.''" "d div 1000000"] by (auto simp: c_isdigit_def char_code_def)
  then have dot: "chr_find (CHR ''.'') (?s @ CHR ''.'' # ?u) 0 = Some (length ?s)"
    using chr_find_append [of "CHR ''.''" ?s 0 "[]" ?u] by simp
  have sec: "stoll ?s = Inr (d div 1000000)" by (simp add: ts_ok_sec [OF assms])
  have "nat_of_digits ?u = nat (d mod 1000000)" by (simp add: show_int_nonneg)
  then have usec: "stoll ?u = Inr (d mod 1000000)"
    using stoll_digits [OF usec_digits] by (simp add: nat_less_iff)
  have r1: "in_i64 (d div 1000000 * 1000000)" by (rule ts_ok_sec [OF assms])
  have r2: "in_i64 d" using assms by (simp add: ts_ok_def in_i64_def)
  show ?thesis
    using dot sec usec r1 r2
    by (simp add: parseTimestamp_def formatTimestamp_floor substr_def)
qed

section \<open>Lemmas on labels and fields\<close>

lemma parseEventLabel_bracket:
  assumes "CHR '']'' \<notin> set l"
  shows "parseEventLabel (''['' @ l @ '']'' @ rest) = l"
proof -
  have "chr_find (CHR ''['') (''['' @ l @ '']'' @ rest) 0 = Some 0"
    using chr_find_append [of "CHR ''[''" "[]" 0 "[]"] by simp
  moreover have "chr_find (CHR '']'') (''['' @ l @ '']'' @ rest) 1 = Some (1 + length l)"
    using chr_find_append [of "CHR '']''" l 1 "''[''" rest] assms by simp
  ultimately show ?thesis by (simp add: parseEventLabel_def substr_def)
qed

lemma fieldAfter_stop:
  assumes "name \<noteq> []" "hd name \<notin> set gap" "set stops \<inter> set tok = {}" "c \<in> set stops"
    and "pos = length pre"
  shows "fieldAfter name stops (pre @ gap @ name @ tok @ c # rest) pos
         = Some (tok, length pre + length gap + length name + length tok)"
proof -
  have "str_find name (pre @ gap @ name @ tok @ c # rest) pos = Some (length pre + length gap)"
    using assms str_find_append by blast
  moreover have "find_first_of stops ((pre @ gap @ name) @ tok @ c # rest)
      (length pre + length gap + length name) = Some (length (pre @ gap @ name) + length tok)"
    by (rule find_first_of_append) (use assms in auto)
  ultimately show ?thesis by (simp add: fieldAfter_def substr_def)
qed

lemma fieldAfter_end:
  assumes "name \<noteq> []" "hd name \<notin> set gap" "set stops \<inter> set tok = {}" and "pos = length pre"
  shows "fieldAfter name stops (pre @ gap @ name @ tok) pos
         = Some (tok, length pre + length gap + length name + length tok)"
proof -
  have "str_find name (pre @ gap @ name @ tok) pos = Some (length pre + length gap)"
    using assms str_find_append by blast
  moreover have "find_first_of stops ((pre @ gap @ name) @ tok)
      (length pre + length gap + length name) = None"
    by (rule find_first_of_none) (use assms in auto)
  ultimately show ?thesis by (simp add: fieldAfter_def substr_def)
qed

text \<open>A value field at the end of the line, or followed by a comment.\<close>

lemma fieldAfter_tail:
  assumes "name \<noteq> []" "hd name \<notin> set gap" "set stops \<inter> set tok = {}" and "pos = length pre"
    and "tail = [] \<or> tail \<noteq> [] \<and> hd tail \<in> set stops"
  shows "\<exists>e. fieldAfter name stops (pre @ gap @ name @ tok @ tail) pos = Some (tok, e)"
  using assms fieldAfter_end [OF assms(1-4)]
    fieldAfter_stop [OF assms(1-3) _ assms(4), of "hd tail" "tl tail"]
  by (cases tail) auto

lemma unat_u16_u64: "unat (w :: u16) < 2 ^ 64"
proof -
  have "unat w < 2 ^ LENGTH(16)" by (rule unsigned_less)
  then show ?thesis by simp
qed

lemma ucast_back_u16: "ucast (of_nat (unat (w :: u16)) :: u64) = w"
  by simp (transfer, simp)

section \<open>The formatter and the parser agree\<close>

lemma format_gaps:
  "CHR ''c'' \<notin> set (''('' @ eventTypeName t @ '') '')"
  "CHR ''v'' \<notin> set ((if eventCodeName t c \<noteq> [] then ''('' @ eventCodeName t c @ '')'' else []) @ '' '')"
  by (auto simp: eventTypeName_def eventCodeName_def)

lemma parseEventLine_shape:
  assumes L: "CHR '']'' \<notin> set L" and TS: "parseTimestamp TS = Some d" "CHR '' '' \<notin> set TS" "TS \<noteq> []"
    and g1: "CHR ''c'' \<notin> set (''('' @ tn @ '') '')" and g2: "CHR ''v'' \<notin> set (cn @ '' '')"
    and cn: "cn = [] \<or> hd cn = CHR ''(''" and v: "in_i32 v"
    and tail: "tail = [] \<or> tail \<noteq> [] \<and> hd tail = CHR '' ''"
  shows "parseEventLine (''['' @ L @ ''] '' @ TS @ '' type='' @ show_nat (unat (t :: u16)) @ ''('' @ tn @ '')''
      @ '' code='' @ show_nat (unat (c :: u16)) @ cn @ '' value='' @ show_int v @ tail)
    = Some (d, t, c, v)"
proof -
  let ?T = "show_nat (unat t)" and ?C = "show_nat (unat c)" and ?V = "show_int v"
  define h1 where "h1 = ''['' @ L @ ''] ''"
  define h2 where "h2 = h1 @ TS @ '' type='' @ ?T"
  define h3 where "h3 = h2 @ ''('' @ tn @ '') '' @ ''code='' @ ?C"
  define r3 where "r3 = cn @ '' value='' @ ?V @ tail"
  define r2 where "r2 = ''('' @ tn @ '') '' @ ''code='' @ ?C @ r3"
  define r1 where "r1 = ''type='' @ ?T @ r2"
  define line where "line = h1 @ TS @ CHR '' '' # r1"
  have b: "str_find ''] '' line 0 = Some (1 + length L)"
    using str_find_append [of "''] ''" "''['' @ L" 0 "[]"] L by (simp add: line_def h1_def)
  have e: "chr_find (CHR '' '') line (length h1) = Some (length h1 + length TS)"
    unfolding line_def by (rule chr_find_append) (use TS in auto)
  have sT: "set ''( '' \<inter> set ?T = {}" by (simp add: show_no_char)
  have f1: "fieldAfter ''type='' ''( '' line (length h1 + length TS) = Some (?T, length h2)"
    using fieldAfter_stop [of "''type=''" "'' ''" "''( ''" ?T "CHR ''(''" "length h1 + length TS" "h1 @ TS"]
      sT by (simp add: line_def r1_def r2_def h2_def)
  have l3: "line = h2 @ r2" by (simp add: line_def r1_def h2_def)
  have sC: "set ''( '' \<inter> set ?C = {}" by (simp add: show_no_char)
  have f2: "\<exists>e. fieldAfter ''code='' ''( '' line (length h2) = Some (?C, length h3)"
  proof (cases cn)
    case Nil
    then show ?thesis
      using fieldAfter_stop [of "''code=''" "''('' @ tn @ '') ''" "''( ''" ?C "CHR '' ''" "length h2" h2] g1 sC
      by (simp add: l3 r2_def r3_def h3_def)
  next
    case (Cons x xs)
    with cn have "x = CHR ''(''" by simp
    with Cons show ?thesis
      using fieldAfter_stop [of "''code=''" "''('' @ tn @ '') ''" "''( ''" ?C "CHR ''(''" "length h2" h2] g1 sC
      by (simp add: l3 r2_def r3_def h3_def)
  qed
  have l4: "line = h3 @ r3" by (simp add: l3 r2_def h3_def)
  have "set '' /'' \<inter> set ?V = {}"
    by (simp add: show_no_char)
  then obtain e3 where f3: "fieldAfter ''value='' '' /'' line (length h3) = Some (?V, e3)"
    using fieldAfter_tail [of "''value=''" "cn @ '' ''" "'' /''" ?V "length h3" h3 tail] g2 tail
    by (auto simp: l4 r3_def)
  have line: "''['' @ L @ ''] '' @ TS @ '' type='' @ ?T @ ''('' @ tn @ '')''
      @ '' code='' @ ?C @ cn @ '' value='' @ ?V @ tail = line"
    by (simp add: line_def r1_def r2_def r3_def h1_def)
  have len: "length h1 = 1 + length L + 2" by (simp add: h1_def)
  have ts: "substr line (length h1) (length TS) = TS"
    unfolding line_def by (rule substr_append) simp_all
  show ?thesis
    unfolding line using b e f1 f2 f3 ts TS v unat_u16_u64 ucast_back_u16 len
    by (simp add: parseEventLine_def Let_def)
qed

lemma parse_format_event:
  assumes "ts_ok d" and "in_i32 (ev_value ev)"
  shows "parseEventLine (formatEventLine k ev d) = Some (d, ev_type ev, ev_code ev, ev_value ev)"
proof -
  have br: "CHR '']'' \<notin> set (kindToString k)" using kindToString_chars by blast
  have sp: "CHR '' '' \<notin> set (formatTimestamp d)"
    using timestamp_no_char [of "CHR '' ''" d] by (auto simp: c_isdigit_def char_code_def)
  show ?thesis
    unfolding formatEventLine_def Let_def
    by (rule parseEventLine_shape [OF br parse_format_timestamp [OF assms(1)] sp _ format_gaps _ assms(2)])
       (simp_all add: formatTimestamp_floor)
qed

lemma label_format_event: "parseEventLabel (formatEventLine k ev d) = kindToString k"
proof -
  have br: "CHR '']'' \<notin> set (kindToString k)" using kindToString_chars by blast
  show ?thesis using parseEventLabel_bracket [OF br] by (simp add: formatEventLine_def Let_def)
qed

lemma label_format_duration:
  assumes "CHR '']'' \<notin> set l"
  shows "parseEventLabel (formatDurationLine l d) = l"
  using parseEventLabel_bracket [OF assms, of "'' '' @ formatTimestamp d"] by (simp add: formatDurationLine_def)

text \<open>C28. Reading back a recorded event line gives the recorded event: for every device
  kind, every evdev event whose value fits \<open>int\<close> and every duration whose microsecond
  count does not overflow, \<open>parseEventLine\<close> inverts \<open>formatEventLine\<close> and
  \<open>parseEventLabel\<close> gives the label of the kind.\<close>

theorem event_line_roundtrip:
  assumes "ts_ok d" and "in_i32 (ev_value ev)"
  shows "parseEventLine (formatEventLine k ev d) = Some (d, ev_type ev, ev_code ev, ev_value ev)
    \<and> toKind (parseEventLabel (formatEventLine k ev d)) = k"
  using parse_format_event [OF assms] label_format_event by simp

theorem event_line_roundtrip_witness:
  "ts_ok (-1) \<and> in_i32 (-7)
   \<and> parseEventLine (formatEventLine kKeyboard
        \<lparr>ev_sec = 3, ev_usec = 4, ev_type = EV_KEY, ev_code = KEY_A, ev_value = -7\<rparr> (-1))
      = Some (-1, EV_KEY, KEY_A, -7)"
proof -
  have h: "ts_ok (-1)" "in_i32 (ev_value \<lparr>ev_sec = 3, ev_usec = 4, ev_type = EV_KEY, ev_code = KEY_A, ev_value = -7\<rparr>)"
    by (simp_all add: ts_ok_def in_i32_def)
  show ?thesis using h event_line_roundtrip [OF h, of kKeyboard] by simp
qed

text \<open>A formatted line stays on one line of the file.\<close>

lemma keyName_one_line: "CHR 0x0A \<notin> set (keyboardKeyNameFromCode c)"
proof -
  have nl: "CHR 0x0A \<noteq> char_of n" if "49 \<le> n" "n < 256" for n :: nat
  proof
    assume "CHR 0x0A = char_of n"
    then have "(of_char (CHR 0x0A) :: nat) = of_char (char_of n :: char)" by simp
    then show False using that by simp
  qed
  consider "KEY_A \<le> c" "c \<le> KEY_Z" | "\<not> (KEY_A \<le> c \<and> c \<le> KEY_Z)" "KEY_1 \<le> c" "c \<le> KEY_9"
    | "\<not> (KEY_A \<le> c \<and> c \<le> KEY_Z)" "\<not> (KEY_1 \<le> c \<and> c \<le> KEY_9)" by blast
  then show ?thesis
  proof cases
    case 1
    then have "unat c \<le> 44" by (simp add: word_le_nat_alt)
    then show ?thesis using 1 nl by (simp add: keyboardKeyNameFromCode_def)
  next
    case 2
    then have "unat c \<le> 10" by (simp add: word_le_nat_alt)
    then show ?thesis using 2 nl unfolding keyboardKeyNameFromCode_def by (simp only: if_False) simp
  next
    case 3
    then show ?thesis unfolding keyboardKeyNameFromCode_def by (simp only: if_False) (simp add: show_no_char)
  qed
qed

lemma format_one_line:
  "CHR 0x0A \<notin> set (formatEventLine k ev d)" "CHR 0x0A \<notin> set l \<Longrightarrow> CHR 0x0A \<notin> set (formatDurationLine l d)"
proof -
  have ts: "CHR 0x0A \<notin> set (formatTimestamp d)"
    using timestamp_no_char [of "CHR 0x0A" d] by (auto simp: c_isdigit_def char_code_def)
  have k: "CHR 0x0A \<notin> set (kindToString k)" by (cases k) simp_all
  have "CHR 0x0A \<notin> set (eventTypeName t)" "CHR 0x0A \<notin> set (eventCodeName t c)"
    "CHR 0x0A \<notin> set (keyboardKeyActionFromValue v)" for t c v
    by (simp_all add: eventTypeName_def eventCodeName_def keyboardKeyActionFromValue_def show_no_char)
  then show "CHR 0x0A \<notin> set (formatEventLine k ev d)"
    using ts k keyName_one_line by (simp add: formatEventLine_def Let_def show_no_char)
  show "CHR 0x0A \<notin> set l \<Longrightarrow> CHR 0x0A \<notin> set (formatDurationLine l d)"
    using ts by (simp add: formatDurationLine_def)
qed

lemma parse_duration_line:
  assumes "CHR '']'' \<notin> set l" and "ts_ok d"
  shows "parseLabeledDurationLine (formatDurationLine l d) l' = (if l = l' then Some d else None)"
proof -
  have "parseEventLabel (formatDurationLine l d) = l"
    using parseEventLabel_bracket [OF assms(1)] by (simp add: formatDurationLine_def)
  moreover have "str_find ''] '' (formatDurationLine l d) 0 = Some (1 + length l)"
    using str_find_append [of "''] ''" "''['' @ l" 0 "[]"] assms(1) by (simp add: formatDurationLine_def)
  ultimately show ?thesis
    using parse_format_timestamp [OF assms(2)]
    by (cases "l = l'") (simp_all add: parseLabeledDurationLine_def formatDurationLine_def)
qed

text \<open>The two duration lines are read back, and neither is mistaken for the other or
  for an event of a device kind.\<close>

theorem duration_line_roundtrip:
  assumes "ts_ok d"
  shows "parseLeadingLine (formatLeadingLine d) = Some d \<and> parseTrailingLine (formatTrailingLine d) = Some d
    \<and> parseLeadingLine (formatTrailingLine d) = None \<and> parseTrailingLine (formatLeadingLine d) = None
    \<and> toKind (parseEventLabel (formatLeadingLine d)) = kUnspecified
    \<and> toKind (parseEventLabel (formatTrailingLine d)) = kUnspecified"
  using parse_duration_line [OF _ assms, of "''leading''"] parse_duration_line [OF _ assms, of "''trailing''"]
    parseEventLabel_bracket [of "''leading''" "'' '' @ formatTimestamp d"]
    parseEventLabel_bracket [of "''trailing''" "'' '' @ formatTimestamp d"]
  by (simp add: parseLeadingLine_def formatLeadingLine_def parseTrailingLine_def formatTrailingLine_def
      formatDurationLine_def toKind_def)

theorem duration_line_roundtrip_witness:
  "ts_ok 1500000 \<and> parseLeadingLine (formatLeadingLine 1500000) = Some 1500000"
proof -
  have h: "ts_ok 1500000" by (simp add: ts_ok_def)
  show ?thesis using h duration_line_roundtrip [OF h] by simp
qed

end
