(* ===== verification/TouchDevice.thy ===== *)
theory TouchDevice
  imports KeyboardDevice
begin

text \<open>
  \<open>evrp/sdk/touchdevice.cpp\<close>: recognition of touchpads and touch screens, and the
  segmentation of a touch stream into contacts. The segment state tracks which multi-touch
  slots are in contact; a break is emitted after the last contact has ended, before the next
  event or after the time stamp event that closes the frame.
\<close>

section \<open>Recognition\<close>

definition nameLikeTouchpad :: "string \<Rightarrow> bool" where
  "nameLikeTouchpad name =
     (let n = lower name in
      contains_sub n ''touchpad'' \<or> contains_sub n ''trackpad''
      \<or> contains_sub n ''synaptics'' \<or> contains_sub n ''elan'')"

definition isTouchpadFromCapabilities :: "Capabilities \<Rightarrow> bool" where
  "isTouchpadFromCapabilities caps =
     (let has_abs = (evAbs caps \<and> (absX caps \<or> absMtPositionX caps));
          has_finger_tool = (btnToolFinger caps \<or> btnToolDoubletap caps \<or> btnToolTripletap caps)
      in has_abs \<and> has_finger_tool \<and> nameLikeTouchpad (cap_name caps))"

definition nameLikeTouchscreen :: "string \<Rightarrow> bool" where
  "nameLikeTouchscreen name = contains_sub (lower name) ''touchscreen''"

definition isTouchscreenFromCapabilities :: "Capabilities \<Rightarrow> bool" where
  "isTouchscreenFromCapabilities caps =
     (if isTouchpadFromCapabilities caps then False
      else let has_abs = (evAbs caps \<and> (absX caps \<or> absMtPositionX caps))
           in has_abs \<and> nameLikeTouchscreen (cap_name caps))"

section \<open>Segmentation\<close>

record touch_segment_state =
  current_slot :: int
  slot_active :: "bool list"
  active_mt_count :: int
  btn_touch_active :: bool
  tool_finger_active :: bool
  tool_doubletap_active :: bool
  tool_tripletap_active :: bool
  tool_quadtap_active :: bool
  pending_segment_break :: bool

record touch_segment_decision =
  emit_break_before_event :: bool
  emit_break_after_event :: bool

definition isTouchingNow :: "touch_segment_state \<Rightarrow> bool" where
  "isTouchingNow state =
     (let any_tool_active = (tool_finger_active state \<or> tool_doubletap_active state
                             \<or> tool_tripletap_active state \<or> tool_quadtap_active state)
      in active_mt_count state > 0 \<or> btn_touch_active state \<or> any_tool_active)"

text \<open>\<open>slot_active.resize(slot + 1, 0)\<close> when the slot is beyond the end.\<close>

definition growSlots :: "int \<Rightarrow> bool list \<Rightarrow> bool list" where
  "growSlots slot xs = xs @ replicate (nat slot + 1 - length xs) False"

definition touchAbs :: "Event \<Rightarrow> touch_segment_state \<Rightarrow> touch_segment_state" where
  "touchAbs ev state =
     (if ev_code ev = ABS_MT_SLOT then
        let s = state\<lparr>current_slot := ev_value ev\<rparr> in
        if current_slot s \<ge> 0 \<and> nat (current_slot s) \<ge> length (slot_active s)
        then s\<lparr>slot_active := growSlots (current_slot s) (slot_active s)\<rparr> else s
      else if ev_code ev = ABS_MT_TRACKING_ID \<and> current_slot state \<ge> 0 then
        let s = (if nat (current_slot state) \<ge> length (slot_active state)
                 then state\<lparr>slot_active := growSlots (current_slot state) (slot_active state)\<rparr>
                 else state);
            i = nat (current_slot s);
            current_active = slot_active s ! i
        in if ev_value ev = -1 then
             (if current_active
              then s\<lparr>slot_active := (slot_active s)[i := False], active_mt_count := active_mt_count s - 1\<rparr>
              else s)
           else
             (if \<not> current_active
              then s\<lparr>slot_active := (slot_active s)[i := True], active_mt_count := active_mt_count s + 1\<rparr>
              else s)
      else state)"

definition touchKey :: "Event \<Rightarrow> touch_segment_state \<Rightarrow> touch_segment_state" where
  "touchKey ev state =
     (let v = (ev_value ev \<noteq> 0); c = ev_code ev;
          s1 = (if c = BTN_TOUCH then state\<lparr>btn_touch_active := v\<rparr> else state);
          s2 = (if c = BTN_TOOL_FINGER then s1\<lparr>tool_finger_active := v\<rparr> else s1);
          s3 = (if c = BTN_TOOL_DOUBLETAP then s2\<lparr>tool_doubletap_active := v\<rparr> else s2);
          s4 = (if c = BTN_TOOL_TRIPLETAP then s3\<lparr>tool_tripletap_active := v\<rparr> else s3)
      in if c = BTN_TOOL_QUADTAP then s4\<lparr>tool_quadtap_active := v\<rparr> else s4)"

definition updateTouchSegmentState ::
  "Event \<Rightarrow> touch_segment_state \<Rightarrow> touch_segment_state \<times> bool" where
  "updateTouchSegmentState ev state =
     (let was_touching = isTouchingNow state;
          s = (if ev_type ev = EV_ABS then touchAbs ev state
               else if ev_type ev = EV_KEY then touchKey ev state
               else state)
      in (s, was_touching \<and> \<not> isTouchingNow s))"

definition processTouchEventForSegment ::
  "Event \<Rightarrow> touch_segment_state \<Rightarrow> touch_segment_state \<times> touch_segment_decision" where
  "processTouchEventForSegment ev state =
     (let is_msc_timestamp = (ev_type ev = EV_MSC \<and> ev_code ev = MSC_TIMESTAMP);
          before = (pending_segment_break state \<and> \<not> is_msc_timestamp);
          s1 = (if before then state\<lparr>pending_segment_break := False\<rparr> else state);
          (s2, segment_ended) = updateTouchSegmentState ev s1;
          s3 = (if segment_ended then s2\<lparr>pending_segment_break := True\<rparr> else s2);
          after = (pending_segment_break s3 \<and> is_msc_timestamp);
          s4 = (if after then s3\<lparr>pending_segment_break := False\<rparr> else s3)
      in (s4, \<lparr>emit_break_before_event = before, emit_break_after_event = after\<rparr>))"

text \<open>A whole stream: the number of breaks emitted and the number of contacts that ended.\<close>

fun touchRun :: "touch_segment_state \<Rightarrow> Event list \<Rightarrow> touch_segment_state \<times> nat \<times> nat" where
  "touchRun s [] = (s, 0, 0)"
| "touchRun s (e # es) =
     (let (s', d) = processTouchEventForSegment e s;
          ended = (isTouchingNow s \<and> \<not> isTouchingNow s');
          (t, breaks, ends) = touchRun s' es
      in (t, breaks + of_bool (emit_break_before_event d) + of_bool (emit_break_after_event d),
          ends + of_bool ended))"

text \<open>The counter of contacts equals the number of slots in contact, and an active slot index
  inside the table is what the next tracking event addresses.\<close>

definition touch_inv :: "touch_segment_state \<Rightarrow> bool" where
  "touch_inv s \<longleftrightarrow> active_mt_count s = int (length (filter id (slot_active s)))"

section \<open>Lemmas\<close>

lemma filter_id_grow [simp]: "length (filter id (growSlots n xs)) = length (filter id xs)"
  by (simp add: growSlots_def)

lemma length_growSlots: "0 \<le> n \<Longrightarrow> nat n < length (growSlots n xs)"
  by (simp add: growSlots_def)

lemma count_clear: "i < length xs \<Longrightarrow> xs ! i \<Longrightarrow>
    int (length (filter id (xs[i := False]))) = int (length (filter id xs)) - 1"
proof (induction xs arbitrary: i)
  case (Cons x xs)
  then show ?case by (cases i) auto
qed simp

lemma count_set: "i < length xs \<Longrightarrow> \<not> xs ! i \<Longrightarrow>
    int (length (filter id (xs[i := True]))) = int (length (filter id xs)) + 1"
proof (induction xs arbitrary: i)
  case (Cons x xs)
  then show ?case by (cases i) auto
qed simp

lemma touchAbs_inv [inv_intros]: "touch_inv s \<Longrightarrow> touch_inv (touchAbs ev s)"
  using length_growSlots [of "current_slot s" "slot_active s"]
  by (auto simp: touchAbs_def touch_inv_def Let_def count_clear count_set not_le)

lemma touchKey_fields [simp]:
  "slot_active (touchKey ev s) = slot_active s" "active_mt_count (touchKey ev s) = active_mt_count s"
  "pending_segment_break (touchKey ev s) = pending_segment_break s"
  by (auto simp: touchKey_def Let_def)

lemma touchAbs_pending [simp]: "pending_segment_break (touchAbs ev s) = pending_segment_break s"
  by (auto simp: touchAbs_def Let_def)

lemma update_pending [simp]:
  "pending_segment_break (fst (updateTouchSegmentState ev s)) = pending_segment_break s"
  by (simp add: updateTouchSegmentState_def Let_def)

lemma update_inv [inv_intros]: "touch_inv s \<Longrightarrow> touch_inv (fst (updateTouchSegmentState ev s))"
  using touchAbs_inv [of s ev] by (auto simp: updateTouchSegmentState_def Let_def touch_inv_def)

lemma touch_pending_irrelevant [simp]:
  "isTouchingNow (s\<lparr>pending_segment_break := b\<rparr>) = isTouchingNow s"
  "touch_inv (s\<lparr>pending_segment_break := b\<rparr>) = touch_inv s"
  by (simp_all add: isTouchingNow_def touch_inv_def)

lemma process_touch_inv [inv_intros]:
  "touch_inv s \<Longrightarrow> touch_inv (fst (processTouchEventForSegment ev s))"
  using update_inv [of s ev] update_inv [of "s\<lparr>pending_segment_break := False\<rparr>" ev]
  by (simp add: processTouchEventForSegment_def Let_def split_beta)

lemma update_ended:
  "snd (updateTouchSegmentState ev s) \<longleftrightarrow>
     isTouchingNow s \<and> \<not> isTouchingNow (fst (updateTouchSegmentState ev s))"
  by (simp add: updateTouchSegmentState_def Let_def)

lemma update_msc: "ev_type ev = EV_MSC \<Longrightarrow> updateTouchSegmentState ev s = (s, False)"
  by (simp add: updateTouchSegmentState_def Let_def)

text \<open>One event: breaks emitted plus a break still pending balance contacts ended plus a
  break that was pending.\<close>

lemma process_touch_balance:
  assumes "processTouchEventForSegment ev s = (s', d)"
  shows "of_bool (emit_break_before_event d) + of_bool (emit_break_after_event d)
           + of_bool (pending_segment_break s')
       = of_bool (isTouchingNow s \<and> \<not> isTouchingNow s') + (of_bool (pending_segment_break s) :: nat)
    \<and> \<not> (emit_break_before_event d \<and> emit_break_after_event d)"
proof (cases "ev_type ev = EV_MSC \<and> ev_code ev = MSC_TIMESTAMP")
  case True
  with assms show ?thesis
    by (auto simp: processTouchEventForSegment_def update_msc Let_def)
next
  case False
  define s1 where "s1 = (if pending_segment_break s then s\<lparr>pending_segment_break := False\<rparr> else s)"
  define u where "u = updateTouchSegmentState ev s1"
  have t1: "isTouchingNow s1 = isTouchingNow s" and p1: "\<not> pending_segment_break s1"
    by (simp_all add: s1_def)
  have u: "snd u \<longleftrightarrow> isTouchingNow s \<and> \<not> isTouchingNow (fst u)" "\<not> pending_segment_break (fst u)"
    using update_ended [of ev s1] t1 p1 by (simp_all add: u_def)
  have "s' = (if snd u then (fst u)\<lparr>pending_segment_break := True\<rparr> else fst u)"
    and "d = \<lparr>emit_break_before_event = pending_segment_break s, emit_break_after_event = False\<rparr>"
    using assms False
    by (auto simp: processTouchEventForSegment_def Let_def split_beta s1_def u_def split: if_splits)
  with u show ?thesis by auto
qed

lemma touchRun_inv [inv_intros]: "touch_inv s \<Longrightarrow> touch_inv (fst (touchRun s es))"
proof (induction es arbitrary: s)
  case (Cons e es)
  then show ?case using process_touch_inv [of s e] by (simp add: split_beta Let_def)
qed simp

section \<open>Properties\<close>

text \<open>C38. The contact counter of the segment state is the number of slots in contact in
  every state that a stream of events reaches, so it is never negative and the stylus is
  up exactly when no slot, button or tool is active.\<close>

theorem touch_count_invariant:
  assumes "touch_inv s"
  shows "active_mt_count (fst (touchRun s es)) = int (length (filter id (slot_active (fst (touchRun s es)))))
    \<and> 0 \<le> active_mt_count (fst (touchRun s es))"
  using touchRun_inv [OF assms, of es] by (simp add: touch_inv_def)

theorem touch_count_invariant_witness:
  "0 \<le> active_mt_count (fst (touchRun
      \<lparr>current_slot = 0, slot_active = [], active_mt_count = 0, btn_touch_active = False,
       tool_finger_active = False, tool_doubletap_active = False, tool_tripletap_active = False,
       tool_quadtap_active = False, pending_segment_break = False\<rparr>
      [\<lparr>ev_sec = 0, ev_usec = 0, ev_type = EV_ABS, ev_code = ABS_MT_TRACKING_ID, ev_value = 7\<rparr>]))"
  using touch_count_invariant
    [of "\<lparr>current_slot = 0, slot_active = [], active_mt_count = 0, btn_touch_active = False,
       tool_finger_active = False, tool_doubletap_active = False, tool_tripletap_active = False,
       tool_quadtap_active = False, pending_segment_break = False\<rparr>"
      "[\<lparr>ev_sec = 0, ev_usec = 0, ev_type = EV_ABS, ev_code = ABS_MT_TRACKING_ID, ev_value = 7\<rparr>]"]
  by (simp add: touch_inv_def)

text \<open>Every contact that ends produces exactly one segment break: over any stream the
  breaks emitted and the break still pending at the end equal the contacts that ended and
  the break that was pending at the start.\<close>

theorem touch_breaks_balance:
  "fst (snd (touchRun s es)) + of_bool (pending_segment_break (fst (touchRun s es)))
   = snd (snd (touchRun s es)) + of_bool (pending_segment_break s)"
proof (induction es arbitrary: s)
  case (Cons e es)
  let ?p = "processTouchEventForSegment e s"
  show ?case
    using Cons.IH [of "fst ?p"] process_touch_balance [of e s "fst ?p" "snd ?p"]
    by (simp add: split_beta Let_def)
qed simp

end
