(* ===== verification/FileSystem.thy ===== *)
theory FileSystem
  imports Prelude
begin

text \<open>
  \<open>evrp/sdk/filesystem\<close>: the system calls behind \<open>IFileSystem\<close> are a parameter, a
  record of functions on a world of type \<open>'w\<close> (the class \<open>PosixFileSystem\<close> forwards each to
  the call of the same name), and \<open>EnhancedFileSystem\<close> is modelled on top of it. The loops
  that retry interrupted calls may run forever, so they return an option, \<open>None\<close> for a
  loop that never ends. What the results rely on of the system calls is stated by the
  predicates \<open>posix_write\<close>, \<open>posix_read\<close> and \<open>eintr_progress\<close>.
\<close>

unbundle bit_operations_syntax

section \<open>The system calls\<close>

abbreviation (input) "EINTR \<equiv> (4 :: int)"
abbreviation (input) "EINVAL \<equiv> (22 :: int)"
abbreviation (input) "STDOUT_FILENO \<equiv> (1 :: int)"
abbreviation (input) "O_RDONLY \<equiv> (0 :: u32)"
abbreviation (input) "O_WRONLY \<equiv> (1 :: u32)"
abbreviation (input) "O_RDWR \<equiv> (2 :: u32)"
abbreviation (input) "O_ACCMODE \<equiv> (3 :: u32)"
abbreviation (input) "O_CREAT \<equiv> (64 :: u32)"
abbreviation (input) "O_TRUNC \<equiv> (512 :: u32)"
abbreviation (input) "O_NONBLOCK \<equiv> (2048 :: u32)"

text \<open>\<open>io_open\<close> takes the mode of the three-argument call as an option. \<open>io_read\<close> returns the
  count and the bytes, \<open>io_poll\<close> the count and, per descriptor, whether \<open>revents\<close> has
  \<open>POLLIN\<close>.\<close>

record 'w IFileSystem =
  io_open :: "string \<Rightarrow> u32 \<Rightarrow> u32 option \<Rightarrow> 'w \<Rightarrow> int \<times> 'w"
  io_close :: "int \<Rightarrow> 'w \<Rightarrow> int \<times> 'w"
  io_read :: "int \<Rightarrow> nat \<Rightarrow> 'w \<Rightarrow> (int \<times> string) \<times> 'w"
  io_write :: "int \<Rightarrow> string \<Rightarrow> 'w \<Rightarrow> int \<times> 'w"
  io_poll :: "int list \<Rightarrow> int \<Rightarrow> 'w \<Rightarrow> (int \<times> bool list) \<times> 'w"
  io_fsync :: "int \<Rightarrow> 'w \<Rightarrow> int \<times> 'w"
  io_fflushStdout :: "'w \<Rightarrow> int \<times> 'w"
  io_errno :: "'w \<Rightarrow> int"
  io_set_errno :: "int \<Rightarrow> 'w \<Rightarrow> 'w"

section \<open>EnhancedFileSystem\<close>

definition openFd :: "'w IFileSystem \<Rightarrow> string \<Rightarrow> u32 \<Rightarrow> u32 \<Rightarrow> 'w \<Rightarrow> int \<times> 'w" where
  "openFd io path flags mode w =
     (if path = [] then
        (let acc = flags AND O_ACCMODE in
         if acc = O_WRONLY \<or> acc = O_RDWR then (STDOUT_FILENO, w)
         else (-1, io_set_errno io EINVAL w))
      else if flags AND O_CREAT \<noteq> 0 then io_open io path flags (Some mode) w
      else io_open io path flags None w)"

definition closeFd :: "'w IFileSystem \<Rightarrow> int \<Rightarrow> 'w \<Rightarrow> 'w" where
  "closeFd io fd w = (if fd \<ge> 0 then snd (io_close io fd w) else w)"

definition readFd :: "'w IFileSystem \<Rightarrow> int \<Rightarrow> nat \<Rightarrow> 'w \<Rightarrow> (int \<times> string) \<times> 'w" where
  "readFd io fd sz w = (if fd < 0 \<or> sz = 0 then ((-1, []), w) else io_read io fd sz w)"

definition writeFd :: "'w IFileSystem \<Rightarrow> int \<Rightarrow> string \<Rightarrow> 'w \<Rightarrow> int \<times> 'w" where
  "writeFd io fd buffer w =
     (if fd < 0 \<or> length buffer = 0 then (-1, w) else io_write io fd buffer w)"

text \<open>\<open>pollFds\<close> looks at the first 32 descriptors; the result is the count and the
  \<open>ready\<close> array (unchanged beyond what it looked at, here: what it wrote).\<close>

definition pollFds :: "'w IFileSystem \<Rightarrow> int list \<Rightarrow> int \<Rightarrow> 'w \<Rightarrow> (int \<times> bool list) \<times> 'w" where
  "pollFds io fds timeoutMs w =
     (if fds = [] then ((-1, []), w)
      else
        let n = (if length fds > 32 then 32 else length fds);
            ((ret, revents), w') = io_poll io (take n fds) timeoutMs w;
            cleared = replicate n False
        in if ret < 0 then ((-1, cleared), w')
           else if ret = 0 then ((0, cleared), w')
           else let ready = map (\<lambda>i. i < length revents \<and> revents ! i) [0..<n]
                in ((int (length (filter id ready)), ready), w'))"

partial_function (option) writeLoop ::
  "'w IFileSystem \<Rightarrow> int \<Rightarrow> string \<Rightarrow> 'w \<Rightarrow> (bool \<times> 'w) option" where
  "writeLoop io fd rest w =
     (if rest = [] then Some (True, w)
      else
        let r = io_write io fd rest w; n = fst r; w' = snd r in
        if n < 0 then
          (if io_errno io w' = EINTR then writeLoop io fd rest w' else Some (False, w'))
        else if n = 0 then Some (False, w')
        else writeLoop io fd (drop (nat n) rest) w')"

definition writeOutput :: "'w IFileSystem \<Rightarrow> int \<Rightarrow> string \<Rightarrow> 'w \<Rightarrow> (bool \<times> 'w) option" where
  "writeOutput io fd data w =
     (if fd < 0 then Some (False, w)
      else if length data = 0 then Some (True, w)
      else writeLoop io fd data w)"

definition flushFd :: "'w IFileSystem \<Rightarrow> int \<Rightarrow> 'w \<Rightarrow> bool \<times> 'w" where
  "flushFd io fd w =
     (if fd < 0 then (False, w)
      else if fd = STDOUT_FILENO then (let (r, w') = io_fflushStdout io w in (r = 0, w'))
      else (let (r, w') = io_fsync io fd w in (r = 0, w')))"

partial_function (option) readLoop ::
  "'w IFileSystem \<Rightarrow> int \<Rightarrow> string \<Rightarrow> 'w \<Rightarrow> (bool \<times> string \<times> 'w) option" where
  "readLoop io fd out w =
     (let r = io_read io fd 8192 w; n = fst (fst r); bytes = snd (fst r); w' = snd r in
      if n < 0 then
        (if io_errno io w' = EINTR then readLoop io fd out w' else Some (False, out, w'))
      else if n = 0 then Some (True, out, w')
      else readLoop io fd (out @ take (nat n) bytes) w')"

definition readInputAll :: "'w IFileSystem \<Rightarrow> int \<Rightarrow> 'w \<Rightarrow> (bool \<times> string \<times> 'w) option" where
  "readInputAll io fd w = (if fd < 0 then Some (False, [], w) else readLoop io fd [] w)"

text \<open>A file system in memory (bytes written, bytes still to be read) that accepts three
  bytes at a time: the system calls the examples of this development run on.\<close>

definition mem_io :: "(string \<times> string) IFileSystem" where
  "mem_io =
     \<lparr>io_open = (\<lambda>p f m w. (3, w)), io_close = (\<lambda>fd w. (0, w)),
      io_read = (\<lambda>fd k (out, u). let n = min 3 (length u) in ((int n, take n u), (out, drop n u))),
      io_write = (\<lambda>fd d (out, u). let n = min 3 (length d) in (int n, (out @ take n d, u))),
      io_poll = (\<lambda>fds t w. ((0, []), w)), io_fsync = (\<lambda>fd w. (0, w)),
      io_fflushStdout = (\<lambda>w. (0, w)), io_errno = (\<lambda>w. 0), io_set_errno = (\<lambda>e w. w)\<rparr>"

text \<open>A file system that only hands out descriptors (its world lists the open ones) and
  accepts every write: for the examples on resources.\<close>

definition desc_io :: "int list IFileSystem" where
  "desc_io =
     \<lparr>io_open = (\<lambda>p f m opn. let fd = foldr max opn 2 + 1 in (fd, fd # opn)),
      io_close = (\<lambda>fd opn. (0, removeAll fd opn)),
      io_read = (\<lambda>fd k w. ((0, []), w)), io_write = (\<lambda>fd d w. (int (length d), w)),
      io_poll = (\<lambda>fds t w. ((0, []), w)), io_fsync = (\<lambda>fd w. (0, w)),
      io_fflushStdout = (\<lambda>w. (0, w)), io_errno = (\<lambda>w. 0), io_set_errno = (\<lambda>e w. w)\<rparr>"

section \<open>What is relied on\<close>

text \<open>\<open>opened w\<close>: the open descriptors. \<open>open(2)\<close> fails or returns a descriptor that was
  not open, \<open>close(2)\<close> releases the one it is given, no other call changes the set.\<close>

definition posix_descriptors :: "'w IFileSystem \<Rightarrow> ('w \<Rightarrow> int set) \<Rightarrow> bool" where
  "posix_descriptors io opened \<longleftrightarrow>
     (\<forall>p f m w. let (fd, w') = io_open io p f m w in
        if fd < 0 then opened w' = opened w
        else fd \<notin> opened w \<and> opened w' = insert fd (opened w))
     \<and> (\<forall>fd w. opened (snd (io_close io fd w)) = opened w - {fd})
     \<and> (\<forall>fd k w. opened (snd (io_read io fd k w)) = opened w)
     \<and> (\<forall>fd d w. opened (snd (io_write io fd d w)) = opened w)
     \<and> (\<forall>fds t w. opened (snd (io_poll io fds t w)) = opened w)
     \<and> (\<forall>e w. opened (io_set_errno io e w) = opened w)"

text \<open>\<open>content w fd\<close>: the bytes accepted so far on a descriptor. \<open>write(2)\<close> accepts a prefix
  of its buffer, and nothing when it fails.\<close>

definition posix_write :: "'w IFileSystem \<Rightarrow> ('w \<Rightarrow> int \<Rightarrow> string) \<Rightarrow> bool" where
  "posix_write io content \<longleftrightarrow>
     (\<forall>fd d w. let (n, w') = io_write io fd d w in
        n \<le> int (length d) \<and> content w' fd = content w fd @ take (nat n) d)"

text \<open>\<open>remaining w fd\<close>: the bytes still to be read. \<open>read(2)\<close> returns a non-empty prefix of
  at most the requested size, 0 at the end of the file, or fails.\<close>

definition posix_read :: "'w IFileSystem \<Rightarrow> ('w \<Rightarrow> int \<Rightarrow> string) \<Rightarrow> bool" where
  "posix_read io remaining \<longleftrightarrow>
     (\<forall>fd k w. let ((n, bytes), w') = io_read io fd k w in
        (n \<ge> 0 \<longrightarrow> bytes = take (nat n) (remaining w fd) \<and> nat n \<le> length (remaining w fd)
          \<and> remaining w' fd = drop (nat n) (remaining w fd) \<and> (n = 0 \<longrightarrow> remaining w fd = []))
      \<and> (n < 0 \<longrightarrow> remaining w' fd = remaining w fd))"

text \<open>Interruptions by signals run out: \<open>sig w\<close> bounds those still to come.\<close>

definition eintr_progress :: "'w IFileSystem \<Rightarrow> ('w \<Rightarrow> nat) \<Rightarrow> bool" where
  "eintr_progress io sig \<longleftrightarrow>
     (\<forall>fd d w. let (n, w') = io_write io fd d w in
        sig w' \<le> sig w \<and> (n < 0 \<and> io_errno io w' = EINTR \<longrightarrow> sig w' < sig w))
   \<and> (\<forall>fd k w. let ((n, b), w') = io_read io fd k w in
        sig w' \<le> sig w \<and> (n < 0 \<and> io_errno io w' = EINTR \<longrightarrow> sig w' < sig w))"

section \<open>Lemmas\<close>

lemma posix_descriptorsD:
  assumes "posix_descriptors io opened"
  shows "opened (snd (io_close io fd w)) = opened w - {fd}"
    "opened (snd (io_read io fd k w)) = opened w"
    "opened (snd (io_write io fd d w)) = opened w"
    "opened (io_set_errno io e w) = opened w"
    "opened (snd (io_poll io fds tmo w)) = opened w"
    "fst (io_open io p f m w) < 0 \<Longrightarrow> opened (snd (io_open io p f m w)) = opened w"
    "fst (io_open io p f m w) \<ge> 0 \<Longrightarrow> fst (io_open io p f m w) \<notin> opened w"
    "fst (io_open io p f m w) \<ge> 0 \<Longrightarrow>
       opened (snd (io_open io p f m w)) = insert (fst (io_open io p f m w)) (opened w)"
proof -
  have "let (fd, w') = io_open io p f m w in
        if fd < 0 then opened w' = opened w
        else fd \<notin> opened w \<and> opened w' = insert fd (opened w)"
    using assms by (simp add: posix_descriptors_def)
  then show "fst (io_open io p f m w) < 0 \<Longrightarrow> opened (snd (io_open io p f m w)) = opened w"
    "fst (io_open io p f m w) \<ge> 0 \<Longrightarrow> fst (io_open io p f m w) \<notin> opened w"
    "fst (io_open io p f m w) \<ge> 0 \<Longrightarrow>
       opened (snd (io_open io p f m w)) = insert (fst (io_open io p f m w)) (opened w)"
    by (simp_all add: split_beta Let_def)
qed (use assms in \<open>auto simp: posix_descriptors_def\<close>)

lemma foldr_max_ge: "x \<in> set xs \<Longrightarrow> x \<le> foldr max xs (k :: int)"
  by (induction xs) auto

lemma foldr_max_base: "k \<le> foldr max xs (k :: int)"
  by (induction xs) auto

lemma desc_io_descriptors: "posix_descriptors desc_io set"
proof -
  have "foldr max w 2 + 1 \<notin> set w" for w :: "int list"
    using foldr_max_ge [of "foldr max w 2 + 1" w 2] by auto
  moreover have "\<not> foldr max w 2 + 1 < 0" for w :: "int list"
    using foldr_max_base [of 2 w] by auto
  ultimately show ?thesis by (simp add: posix_descriptors_def desc_io_def Let_def)
qed

lemma posix_writeD:
  assumes "posix_write io content" and "io_write io fd d w = (n, w')"
  shows "n \<le> int (length d)" and "content w' fd = content w fd @ take (nat n) d"
  using assms by (auto simp: posix_write_def dest!: spec [of _ fd] spec [of _ d] spec [of _ w])

lemma eintr_writeD:
  assumes "eintr_progress io sig" and "io_write io fd d w = (n, w')"
  shows "sig w' \<le> sig w" and "n < 0 \<Longrightarrow> io_errno io w' = EINTR \<Longrightarrow> sig w' < sig w"
  using assms by (auto simp: eintr_progress_def dest!: spec [of _ fd] spec [of _ d] spec [of _ w])

lemma posix_readD:
  assumes "posix_read io remaining" and "io_read io fd k w = ((n, bytes), w')"
  shows "n \<ge> 0 \<Longrightarrow> bytes = take (nat n) (remaining w fd)" "n \<ge> 0 \<Longrightarrow> nat n \<le> length (remaining w fd)"
    "n \<ge> 0 \<Longrightarrow> remaining w' fd = drop (nat n) (remaining w fd)" "n = 0 \<Longrightarrow> remaining w fd = []"
    "n < 0 \<Longrightarrow> remaining w' fd = remaining w fd"
  using assms by (auto simp: posix_read_def dest!: spec [of _ fd] spec [of _ k] spec [of _ w])

lemma eintr_readD:
  assumes "eintr_progress io sig" and "io_read io fd k w = ((n, b), w')"
  shows "sig w' \<le> sig w" and "n < 0 \<Longrightarrow> io_errno io w' = EINTR \<Longrightarrow> sig w' < sig w"
  using assms by (auto simp: eintr_progress_def dest!: spec [of _ fd] spec [of _ k] spec [of _ w])

text \<open>The write loop returns, and what it wrote is all of the data or a prefix of it.\<close>

lemma writeLoop_total:
  assumes "posix_write io content" and "eintr_progress io sig"
  shows "\<exists>ok w' k. writeLoop io fd rest w = Some (ok, w') \<and> content w' fd = content w fd @ take k rest
    \<and> (ok \<longrightarrow> length rest \<le> k)"
proof (induction "length rest + sig w" arbitrary: rest w rule: less_induct)
  case less
  obtain n w' where io: "io_write io fd rest w = (n, w')" by force
  note pw = posix_writeD [OF assms(1) io] and ew = eintr_writeD [OF assms(2) io]
  consider "rest = []" | "rest \<noteq> []" "n < 0" "io_errno io w' = EINTR"
    | "rest \<noteq> []" "n < 0" "io_errno io w' \<noteq> EINTR" | "rest \<noteq> []" "n = 0" | "rest \<noteq> []" "n > 0"
    by force
  then show ?case
  proof cases
    case 1
    then show ?thesis by (auto simp: writeLoop.simps)
  next
    case 2
    then have "length rest + sig w' < length rest + sig w" using ew by simp
    from less [OF this] 2 io pw show ?thesis by (simp add: writeLoop.simps [of io fd rest w] Let_def)
  next
    case 3
    then show ?thesis
      using io pw by (auto simp: writeLoop.simps [of io fd rest w] Let_def intro: exI [of _ 0])
  next
    case 4
    then show ?thesis
      using io pw by (auto simp: writeLoop.simps [of io fd rest w] Let_def intro: exI [of _ 0])
  next
    case 5
    then have "0 < nat n" "0 < length rest" by simp_all
    then have "length (drop (nat n) rest) + sig w' < length rest + sig w"
      using ew(1) unfolding length_drop by linarith
    from less [OF this] obtain ok w2 k where
      "writeLoop io fd (drop (nat n) rest) w' = Some (ok, w2)"
      "content w2 fd = content w' fd @ take k (drop (nat n) rest)"
      "ok \<longrightarrow> length (drop (nat n) rest) \<le> k" by blast
    then show ?thesis
      using 5 io pw by (auto simp: writeLoop.simps [of io fd rest w] Let_def take_add
          intro!: exI [of _ "nat n + k"])
  qed
qed

lemma readLoop_total:
  assumes "posix_read io remaining" and "eintr_progress io sig"
  shows "\<exists>ok s w'. readLoop io fd out w = Some (ok, out @ s, w')
    \<and> remaining w fd = s @ remaining w' fd \<and> (ok \<longrightarrow> remaining w' fd = [])"
proof (induction "length (remaining w fd) + sig w" arbitrary: out w rule: less_induct)
  case less
  obtain n b w' where io: "io_read io fd 8192 w = ((n, b), w')" by (metis prod.exhaust)
  note pr = posix_readD [OF assms(1) io] and er = eintr_readD [OF assms(2) io]
  consider "n < 0" "io_errno io w' = EINTR" | "n < 0" "io_errno io w' \<noteq> EINTR" | "n = 0" | "n > 0"
    by force
  then show ?case
  proof cases
    case 1
    then have "length (remaining w' fd) + sig w' < length (remaining w fd) + sig w" using er pr by simp
    from less [OF this, of out] 1 io pr show ?thesis
      by (simp add: readLoop.simps [of io fd out w] Let_def)
  next
    case 2
    then show ?thesis using io pr by (auto simp: readLoop.simps [of io fd out w] Let_def)
  next
    case 3
    then show ?thesis using io pr by (auto simp: readLoop.simps [of io fd out w] Let_def)
  next
    case 4
    then have "length (remaining w' fd) + sig w' < length (remaining w fd) + sig w"
      using er pr by simp
    from less [OF this, of "out @ take (nat n) b"] obtain ok s w2 where
      "readLoop io fd (out @ take (nat n) b) w' = Some (ok, (out @ take (nat n) b) @ s, w2)"
      "remaining w' fd = s @ remaining w2 fd" "ok \<longrightarrow> remaining w2 fd = []" by blast
    moreover have "take (nat n) b = take (nat n) (remaining w fd)" using pr(1) 4 by simp
    moreover have "remaining w fd = take (nat n) (remaining w fd) @ remaining w' fd"
      using pr(3) 4 by simp
    ultimately show ?thesis using 4 io
      by (auto simp: readLoop.simps [of io fd out w] Let_def intro!: exI [of _ "take (nat n) b @ s"])
  qed
qed

lemma mem_io_posix:
  "posix_write mem_io (\<lambda>w fd. fst w)" "posix_read mem_io (\<lambda>w fd. snd w)" "eintr_progress mem_io (\<lambda>w. 0)"
  by (auto simp: posix_write_def posix_read_def eintr_progress_def mem_io_def Let_def min_def)

text \<open>Partial correctness of \<open>writeOutput\<close>: what success means for the file, and what a
  write leaves alone.\<close>

lemma writeLoop_result_aux:
  assumes "posix_write io content" and "writeLoop io fd rest w = Some r"
  shows "io = io \<longrightarrow> fst r \<longrightarrow> content (snd r) fd = content w fd @ rest"
proof (rule writeLoop.raw_induct [where P = "\<lambda>io' fd rest w r. io' = io \<longrightarrow> fst r \<longrightarrow> content (snd r) fd = content w fd @ rest",
      OF _ assms(2)], intro impI)
  fix f io' and fd' :: int and rest' w' r'
  assume ih: "\<And>io' fd rest w r. f io' fd rest w = Some r \<Longrightarrow> io' = io \<longrightarrow> fst r \<longrightarrow> content (snd r) fd = content w fd @ rest"
    and body: "(if rest' = [] then Some (True, w')
      else let r = io_write io' fd' rest' w'; n = fst r; w'' = snd r in
        if n < 0 then if io_errno io' w'' = EINTR then f io' fd' rest' w'' else Some (False, w'')
        else if n = 0 then Some (False, w'') else f io' fd' (drop (nat n) rest') w'') = Some r'"
    and io': "io' = io" and ok: "fst r'"
  obtain n w1 where e: "io_write io fd' rest' w' = (n, w1)" by fastforce
  note pw = posix_writeD [OF assms(1) e]
  show "content (snd r') fd' = content w' fd' @ rest'"
  proof (cases "rest' = []")
    case False
    consider "n < 0" "io_errno io w1 = EINTR" | "n < 0" "io_errno io w1 \<noteq> EINTR" | "n = 0" | "n > 0" by force
    then show ?thesis
    proof cases
      case 1
      then show ?thesis using body e False io' ok ih [of io fd' rest' w1 r'] pw by (simp add: Let_def)
    next
      case 4
      then have "content (snd r') fd' = content w1 fd' @ drop (nat n) rest'"
        using body e False io' ok ih [of io fd' "drop (nat n) rest'" w1 r'] by (simp add: Let_def)
      then show ?thesis using pw(2) by simp
    qed (use body e False io' ok in \<open>auto simp: Let_def\<close>)
  qed (use body in auto)
qed

lemma writeLoop_frame_aux:
  assumes "\<And>fd d w. f (snd (io_write io fd d w)) = f w" and "writeLoop io fd rest w = Some r"
  shows "io = io \<longrightarrow> f (snd r) = f w"
proof (rule writeLoop.raw_induct [where P = "\<lambda>io' fd rest w r. io' = io \<longrightarrow> f (snd r) = f w", OF _ assms(2)], intro impI)
  fix g io' and fd' :: int and rest' w' r'
  assume ih: "\<And>io' fd rest w r. g io' fd rest w = Some r \<Longrightarrow> io' = io \<longrightarrow> f (snd r) = f w"
    and body: "(if rest' = [] then Some (True, w')
      else let r = io_write io' fd' rest' w'; n = fst r; w'' = snd r in
        if n < 0 then if io_errno io' w'' = EINTR then g io' fd' rest' w'' else Some (False, w'')
        else if n = 0 then Some (False, w'') else g io' fd' (drop (nat n) rest') w'') = Some r'"
    and io': "io' = io"
  show "f (snd r') = f w'"
    using body io' assms(1) [of fd' rest' w'] ih [of io fd' rest' "snd (io_write io fd' rest' w')" r']
      ih [of io fd' "drop (nat (fst (io_write io fd' rest' w'))) rest'" "snd (io_write io fd' rest' w')" r']
    by (auto simp: Let_def split: if_splits)
qed

lemmas writeLoop_result = writeLoop_result_aux [simplified]
lemmas writeLoop_frame = writeLoop_frame_aux [simplified]

lemma writeOutput_result:
  assumes "posix_write io content" and "\<And>fd d w. f (snd (io_write io fd d w)) = f w"
    and "writeOutput io fd d w = Some (ok, w')"
  shows "ok \<Longrightarrow> content w' fd = content w fd @ d" and "f w' = f w"
  using assms(3) writeLoop_result [OF assms(1), of fd d w] writeLoop_frame [of f io, OF assms(2)]
  by (fastforce simp: writeOutput_def split: if_splits)+

section \<open>Properties\<close>

text \<open>C29. \<open>writeOutput\<close> returns, however often the call is cut short or interrupted. When it
  reports success the descriptor has received exactly the data, in order; otherwise it has
  received a prefix of it.\<close>

theorem writeOutput_complete:
  assumes "posix_write io content" and "eintr_progress io sig"
  shows "\<exists>ok w'. writeOutput io fd d w = Some (ok, w')
    \<and> (if ok then content w' fd = content w fd @ d else \<exists>k. content w' fd = content w fd @ take k d)"
proof -
  obtain ok w' k where "writeLoop io fd d w = Some (ok, w')" "content w' fd = content w fd @ take k d"
    "ok \<longrightarrow> length d \<le> k" using writeLoop_total [OF assms, of fd d w] by blast
  then show ?thesis by (auto simp: writeOutput_def intro: exI [of _ 0])
qed

theorem writeOutput_complete_witness:
  "\<exists>ok w'. writeOutput mem_io 5 ''recording'' ([], []) = Some (ok, w')
    \<and> (if ok then fst w' = ''recording'' else \<exists>k. fst w' = take k ''recording'')"
  using writeOutput_complete [OF mem_io_posix(1,3), of 5 "''recording''" "([], [])"]
  by (simp only: fst_conv append_Nil)

text \<open>\<open>readInputAll\<close> returns, and what it has read is what has been taken off the file;
  when it reports success that is the whole rest of the file.\<close>

theorem readInputAll_complete:
  assumes "posix_read io remaining" and "eintr_progress io sig" and "0 \<le> fd"
  shows "\<exists>ok s w'. readInputAll io fd w = Some (ok, s, w') \<and> remaining w fd = s @ remaining w' fd
    \<and> (ok \<longrightarrow> s = remaining w fd)"
  using readLoop_total [OF assms(1,2), of fd "[]" w] assms(3) by (auto simp: readInputAll_def)

theorem readInputAll_complete_witness:
  "\<exists>ok s w'. readInputAll mem_io 0 ([], ''abcdefg'') = Some (ok, s, w')
    \<and> ''abcdefg'' = s @ snd w' \<and> (ok \<longrightarrow> s = ''abcdefg'')"
  using readInputAll_complete [OF mem_io_posix(2,3), of 0 "([], ''abcdefg'')"] by simp

end
