(* ===== verification/InputDevice.thy ===== *)
theory InputDevice
  imports TouchDevice FileSystem
begin

text \<open>
  \<open>evrp/sdk/evdev.cpp\<close> and \<open>evrp/sdk/inputdevice.cpp\<close>: the capability bitmaps of an evdev
  node, reading a batch of events, recognition of a device's kind from its capabilities,
  and the search for the nodes of a kind among \<open>/dev/input/event0\<close> to \<open>event31\<close>. The
  results of the \<open>ioctl\<close> calls are a parameter; open and close go through
  \<open>FileSystem\<close>.
\<close>

section \<open>Capability bitmaps\<close>

text \<open>\<open>BITS_PER_LONG\<close> is 64; \<open>NBITS(x)\<close> is the number of words the code allocates.\<close>

definition NBITS :: "nat \<Rightarrow> nat" where
  "NBITS x = (x - 1) div 64 + 1"

definition TEST_BIT :: "nat \<Rightarrow> u64 list \<Rightarrow> bool" where
  "TEST_BIT b arr = ((arr ! (b div 64)) AND push_bit (b mod 64) 1 \<noteq> 0)"

abbreviation "EV_MAX \<equiv> (31 :: nat)"
abbreviation "KEY_MAX \<equiv> (767 :: nat)"
abbreviation "ABS_MAX \<equiv> (63 :: nat)"
abbreviation "REL_MAX \<equiv> (15 :: nat)"

text \<open>What the \<open>ioctl\<close> calls return for one descriptor: the name buffer of \<open>EVIOCGNAME\<close> and
  the words of \<open>EVIOCGBIT\<close> for event type 0 (all types), \<open>EV_KEY\<close>, \<open>EV_ABS\<close> and
  \<open>EV_REL\<close>; \<open>None\<close> is a negative result.\<close>

record evdev_ioctl =
  ioc_name :: "string option"
  ioc_ev :: "u64 list option"
  ioc_key :: "u64 list option"
  ioc_abs :: "u64 list option"
  ioc_rel :: "u64 list option"

text \<open>A zero-initialised array of \<open>n\<close> words after the kernel copied words into it.\<close>

definition bitArray :: "nat \<Rightarrow> u64 list \<Rightarrow> u64 list" where
  "bitArray n ws = take n (ws @ replicate n 0)"

definition getCapabilities :: "int \<Rightarrow> evdev_ioctl \<Rightarrow> Capabilities option" where
  "getCapabilities fd dev =
     (if fd < 0 then None else
      case ioc_name dev of None \<Rightarrow> None | Some name \<Rightarrow>
      (case ioc_ev dev of None \<Rightarrow> None | Some ev \<Rightarrow>
      (case ioc_key dev of None \<Rightarrow> None | Some key \<Rightarrow>
      (case ioc_abs dev of None \<Rightarrow> None | Some absw \<Rightarrow>
      (case ioc_rel dev of None \<Rightarrow> None | Some rel \<Rightarrow>
       (let evbit = bitArray (NBITS EV_MAX) ev; keybit = bitArray (NBITS KEY_MAX) key;
            absbit = bitArray (NBITS ABS_MAX) absw; relbit = bitArray (NBITS REL_MAX) rel in
        Some \<lparr>cap_name = takeWhile (\<lambda>c. c \<noteq> CHR 0x00) (take 256 name),
              evKey = TEST_BIT 1 evbit, evAbs = TEST_BIT 3 evbit, evRel = TEST_BIT 2 evbit,
              absX = TEST_BIT 0 absbit, absMtPositionX = TEST_BIT 53 absbit,
              relX = TEST_BIT 0 relbit, relY = TEST_BIT 1 relbit,
              btnLeft = TEST_BIT 272 keybit, btnRight = TEST_BIT 273 keybit,
              btnMiddle = TEST_BIT 274 keybit, btnToolFinger = TEST_BIT 325 keybit,
              btnToolDoubletap = TEST_BIT 333 keybit, btnToolTripletap = TEST_BIT 334 keybit,
              keyEnter = TEST_BIT 28 keybit, keySpace = TEST_BIT 57 keybit,
              keyEsc = TEST_BIT 1 keybit, keyA = TEST_BIT 30 keybit\<rparr>))))))"

definition openAndGetCapabilities ::
  "'w IFileSystem \<Rightarrow> ('w \<Rightarrow> int \<Rightarrow> evdev_ioctl) \<Rightarrow> string \<Rightarrow> 'w \<Rightarrow> Capabilities option \<times> 'w" where
  "openAndGetCapabilities io ioctl path w =
     (let (fd, w1) = openFd io path (O_RDONLY OR O_NONBLOCK) 0 w in
      if fd < 0 then (None, w1)
      else let caps = getCapabilities fd (ioctl w1 fd) in (caps, closeFd io fd w1))"

section \<open>Reading events\<close>

text \<open>The bytes of one \<open>struct input_event\<close> on a 64-bit little-endian machine: seconds
  and microseconds (8 bytes each), type and code (2 each), value (4).\<close>

primrec le_bytes :: "nat \<Rightarrow> nat \<Rightarrow> string" where
  "le_bytes 0 x = []"
| "le_bytes (Suc n) x = char_of (x mod 256) # le_bytes n (x div 256)"

primrec le_val :: "string \<Rightarrow> nat" where
  "le_val [] = 0"
| "le_val (c # cs) = char_code c + 256 * le_val cs"

definition encodeInputEvent :: "Event \<Rightarrow> string" where
  "encodeInputEvent ev =
     le_bytes 8 (nat (ev_sec ev mod 2 ^ 64)) @ le_bytes 8 (nat (ev_usec ev mod 2 ^ 64)) @
     le_bytes 2 (unat (ev_type ev)) @ le_bytes 2 (unat (ev_code ev)) @
     le_bytes 4 (nat (ev_value ev mod 2 ^ 32))"

definition decodeInputEvent :: "string \<Rightarrow> Event" where
  "decodeInputEvent bs =
     \<lparr>ev_sec = wrap_i64 (int (le_val (take 8 bs))),
      ev_usec = wrap_i64 (int (le_val (take 8 (drop 8 bs)))),
      ev_type = of_nat (le_val (take 2 (drop 16 bs))),
      ev_code = of_nat (le_val (take 2 (drop 18 bs))),
      ev_value = wrap_i32 (int (le_val (take 4 (drop 20 bs))))\<rparr>"

definition readEvents ::
  "'w IFileSystem \<Rightarrow> int \<Rightarrow> int \<Rightarrow> 'w \<Rightarrow> (int \<times> Event list) \<times> 'w" where
  "readEvents io fd max_count w =
     (if fd < 0 \<or> max_count \<le> 0 then ((-1, []), w)
      else
        let ((n, bytes), w') = readFd io fd (64 * 24) w in
        if n \<le> 0 then ((n, []), w')
        else if n mod 24 \<noteq> 0 then ((-1, []), w')
        else let count = nat (n div 24);
                 out = min count (nat max_count);
                 evs = map (\<lambda>i. decodeInputEvent (take 24 (drop (24 * i) bytes))) [0..<out]
             in ((int out, evs), w'))"

section \<open>SigintGuard\<close>

text \<open>The flag \<open>stop_\<close> of the class and what \<open>sigaction\<close> has installed for \<open>SIGINT\<close>; a guard keeps what was
  installed before it.\<close>

datatype sig_action = DefaultAction | GuardHandler | OtherHandler nat

record sigint_state =
  sg_stop :: bool
  sg_action :: sig_action

definition sigintHandler :: "sigint_state \<Rightarrow> sigint_state" where
  "sigintHandler st = st\<lparr>sg_stop := True\<rparr>"

definition newSigintGuard :: "sigint_state \<Rightarrow> sig_action \<times> sigint_state" where
  "newSigintGuard st = (sg_action st, st\<lparr>sg_stop := False, sg_action := GuardHandler\<rparr>)"

definition destroySigintGuard :: "sig_action \<Rightarrow> sigint_state \<Rightarrow> sigint_state" where
  "destroySigintGuard oldSa st = st\<lparr>sg_action := oldSa\<rparr>"

definition sigintStopRequested :: "sigint_state \<Rightarrow> bool" where
  "sigintStopRequested st = sg_stop st"

text \<open>What a process does with the signal: it arrives, or a scope with a guard runs.\<close>

datatype sig_prog = Sigint | Guarded "sig_prog list"

fun sigProg :: "sig_prog \<Rightarrow> sigint_state \<Rightarrow> sigint_state"
  and sigProgs :: "sig_prog list \<Rightarrow> sigint_state \<Rightarrow> sigint_state" where
  "sigProg Sigint st = (if sg_action st = GuardHandler then sigintHandler st else st)"
| "sigProg (Guarded ps) st =
     (let (oldSa, st1) = newSigintGuard st in destroySigintGuard oldSa (sigProgs ps st1))"
| "sigProgs [] st = st"
| "sigProgs (p # ps) st = sigProgs ps (sigProg p st)"

section \<open>Kinds of devices\<close>

definition nameLikeMouse :: "string \<Rightarrow> bool" where
  "nameLikeMouse name =
     (let n = lower name in
      contains_sub n ''mouse'' \<or> contains_sub n ''trackball'' \<or> contains_sub n ''pointer'')"

definition isMouseFromCapabilities :: "Capabilities \<Rightarrow> bool" where
  "isMouseFromCapabilities caps =
     (let has_rel = (evRel caps \<and> relX caps \<and> relY caps);
          has_buttons = (btnLeft caps \<or> btnRight caps \<or> btnMiddle caps)
      in has_rel \<and> has_buttons \<and> nameLikeMouse (cap_name caps))"

definition makeEvent :: "u16 \<Rightarrow> u16 \<Rightarrow> int \<Rightarrow> Event" where
  "makeEvent type code value =
     \<lparr>ev_sec = 0, ev_usec = 0, ev_type = type, ev_code = code, ev_value = value\<rparr>"

text \<open>\<open>isTouchpad\<close>, \<open>isTouchscreen\<close>, \<open>isMouse\<close> and \<open>isKeyboard\<close> share one shape: read the
  capabilities, then ask the recogniser.\<close>

definition isKindOfDevice ::
  "'w IFileSystem \<Rightarrow> ('w \<Rightarrow> int \<Rightarrow> evdev_ioctl) \<Rightarrow> (Capabilities \<Rightarrow> bool) \<Rightarrow> string \<Rightarrow> 'w \<Rightarrow> bool \<times> 'w" where
  "isKindOfDevice io ioctl recognise devPath w =
     (let (c, w') = openAndGetCapabilities io ioctl devPath w in
      case c of None \<Rightarrow> (False, w') | Some caps \<Rightarrow> (recognise caps, w'))"

fun recogniser :: "DeviceKind \<Rightarrow> (Capabilities \<Rightarrow> bool) option" where
  "recogniser kTouchpad = Some isTouchpadFromCapabilities"
| "recogniser kTouchscreen = Some isTouchscreenFromCapabilities"
| "recogniser kMouse = Some isMouseFromCapabilities"
| "recogniser kKeyboard = Some isKeyboardFromCapabilities"
| "recogniser kUnspecified = None"

definition eventPath :: "nat \<Rightarrow> string" where
  "eventPath i = ''/dev/input/event'' @ show_nat i"

text \<open>The loop of \<open>pushIf\<close> over the node numbers.\<close>

fun pushIf :: "(string \<Rightarrow> 'w \<Rightarrow> bool \<times> 'w) \<Rightarrow> nat list \<Rightarrow> 'w \<Rightarrow> string list \<times> 'w" where
  "pushIf pred [] w = ([], w)"
| "pushIf pred (i # is) w =
     (let (yes, w1) = pred (eventPath i) w; (rest, w2) = pushIf pred is w1
      in (if yes then eventPath i # rest else rest, w2))"

definition findAllDevicePaths ::
  "'w IFileSystem \<Rightarrow> ('w \<Rightarrow> int \<Rightarrow> evdev_ioctl) \<Rightarrow> DeviceKind \<Rightarrow> 'w \<Rightarrow> string list \<times> 'w" where
  "findAllDevicePaths io ioctl kind w =
     (case recogniser kind of
        None \<Rightarrow> ([], w)
      | Some recognise \<Rightarrow> pushIf (isKindOfDevice io ioctl recognise) [0..<32] w)"

definition findDevicePath ::
  "'w IFileSystem \<Rightarrow> ('w \<Rightarrow> int \<Rightarrow> evdev_ioctl) \<Rightarrow> DeviceKind \<Rightarrow> 'w \<Rightarrow> string \<times> 'w" where
  "findDevicePath io ioctl kind w =
     (let (paths, w') = findAllDevicePaths io ioctl kind w in
      (case paths of [] \<Rightarrow> [] | p # _ \<Rightarrow> p, w'))"

definition findFirstTouchpad where "findFirstTouchpad io ioctl w = findDevicePath io ioctl kTouchpad w"
definition findFirstTouchscreen where "findFirstTouchscreen io ioctl w = findDevicePath io ioctl kTouchscreen w"
definition findFirstMouse where "findFirstMouse io ioctl w = findDevicePath io ioctl kMouse w"
definition findFirstKeyboard where "findFirstKeyboard io ioctl w = findDevicePath io ioctl kKeyboard w"

section \<open>The probe of the device kinds\<close>

text \<open>\<open>LocalDeviceKindsProvider\<close>: the kinds with at least one node, in the order of the
  probe, and the statistics it logs. \<open>is_chr\<close> is what \<open>stat\<close> says of a path.\<close>

record EvdevNodeStats =
  characterDevices :: nat
  capsReadable :: nat
  capsUnreadable :: nat

fun scanEvdevNodesForProbe ::
  "'w IFileSystem \<Rightarrow> ('w \<Rightarrow> int \<Rightarrow> evdev_ioctl) \<Rightarrow> (string \<Rightarrow> bool) \<Rightarrow> nat list \<Rightarrow> EvdevNodeStats \<Rightarrow> 'w
   \<Rightarrow> EvdevNodeStats \<times> 'w" where
  "scanEvdevNodesForProbe io ioctl is_chr [] s w = (s, w)"
| "scanEvdevNodesForProbe io ioctl is_chr (i # is) s w =
     (if \<not> is_chr (eventPath i) then scanEvdevNodesForProbe io ioctl is_chr is s w
      else
        let s1 = s\<lparr>characterDevices := characterDevices s + 1\<rparr>;
            (caps, w') = openAndGetCapabilities io ioctl (eventPath i) w;
            s2 = (if caps \<noteq> None then s1\<lparr>capsReadable := capsReadable s1 + 1\<rparr>
                  else s1\<lparr>capsUnreadable := capsUnreadable s1 + 1\<rparr>)
        in scanEvdevNodesForProbe io ioctl is_chr is s2 w')"

fun probeKinds ::
  "'w IFileSystem \<Rightarrow> ('w \<Rightarrow> int \<Rightarrow> evdev_ioctl) \<Rightarrow> DeviceKind list \<Rightarrow> 'w \<Rightarrow> DeviceKind list \<times> 'w" where
  "probeKinds io ioctl [] w = ([], w)"
| "probeKinds io ioctl (k # ks) w =
     (let (p, w1) = findDevicePath io ioctl k w; (rest, w2) = probeKinds io ioctl ks w1
      in (if p \<noteq> [] then k # rest else rest, w2))"

definition localKinds ::
  "'w IFileSystem \<Rightarrow> ('w \<Rightarrow> int \<Rightarrow> evdev_ioctl) \<Rightarrow> (string \<Rightarrow> bool) \<Rightarrow> 'w \<Rightarrow> DeviceKind list \<times> 'w" where
  "localKinds io ioctl is_chr w =
     (let (out, w1) = probeKinds io ioctl [kTouchpad, kTouchscreen, kMouse, kKeyboard] w;
          (stats, w2) = scanEvdevNodesForProbe io ioctl is_chr [0..<32]
              \<lparr>characterDevices = 0, capsReadable = 0, capsUnreadable = 0\<rparr> w1
      in (out, w2))"

definition formatKindList :: "DeviceKind list \<Rightarrow> string" where
  "formatKindList kinds =
     concat (map (\<lambda>i. (if i > 0 then '', '' else []) @ kindToString (kinds ! i)) [0..<length kinds])"

text \<open>The fields of an event fit their types.\<close>

definition event_ok :: "Event \<Rightarrow> bool" where
  "event_ok ev \<longleftrightarrow> in_i64 (ev_sec ev) \<and> in_i64 (ev_usec ev) \<and> in_i32 (ev_value ev)"

section \<open>Lemmas\<close>

lemma TEST_BIT_bit: "TEST_BIT b arr = bit (arr ! (b div 64)) (b mod 64)"
proof -
  have "b mod 64 < 64" by simp
  then show ?thesis
    by (auto simp: TEST_BIT_def push_bit_of_1 bit_iff_and_push_bit_not_eq_0)
qed

lemma length_le_bytes [simp]: "length (le_bytes n x) = n"
  by (induction n arbitrary: x) auto

lemma le_val_le_bytes [simp]: "le_val (le_bytes n x) = x mod 256 ^ n"
proof (induction n arbitrary: x)
  case (Suc n)
  then show ?case by (simp add: char_code_def mod_mult2_eq)
qed simp

lemma length_encode [simp]: "length (encodeInputEvent ev) = 24"
  by (simp add: encodeInputEvent_def)

lemma wrap_i64_mod [simp]: "wrap_i64 (x mod 18446744073709551616) = wrap_i64 x"
  by (simp add: wrap_i64_def mod_add_left_eq)

lemma wrap_i32_mod [simp]: "wrap_i32 (x mod 4294967296) = wrap_i32 x"
  by (simp add: wrap_i32_def mod_add_left_eq)

lemma decode_encode:
  assumes "event_ok ev"
  shows "decodeInputEvent (encodeInputEvent ev) = ev"
proof -
  have u: "unat (x :: u16) < 65536" for x using unsigned_less [of x] by simp
  show ?thesis using assms
    by (cases ev) (simp add: event_ok_def decodeInputEvent_def encodeInputEvent_def u)
qed

lemma length_concat_encode: "length (concat (map encodeInputEvent evs)) = 24 * length evs"
  by (induction evs) simp_all

lemma nth_chunk:
  assumes "i < length evs"
  shows "take 24 (drop (24 * i) (concat (map encodeInputEvent evs))) = encodeInputEvent (evs ! i)"
  using assms
proof (induction evs arbitrary: i)
  case (Cons e evs)
  then show ?case by (cases i) simp_all
qed simp

lemma length_bitArray [simp]: "length (bitArray n ws) = n"
  by (simp add: bitArray_def)

lemma pushIf_pure:
  assumes "\<And>p w. pred p w = (P p, w)"
  shows "pushIf pred is w = (map eventPath (filter (P \<circ> eventPath) is), w)"
  by (induction "is" arbitrary: w) (simp_all add: assms)

lemma pushIf_paths: "set (fst (pushIf pred is w)) \<subseteq> eventPath ` set is"
  by (induction "is" arbitrary: w) (auto simp: split_beta Let_def)

lemma pushIf_subseq: "subseq (fst (pushIf pred is w)) (map eventPath is)"
  by (induction "is" arbitrary: w) (auto simp: split_beta Let_def)

lemma eventPath_inject [simp]: "eventPath i = eventPath j \<longleftrightarrow> i = j"
  by (simp add: eventPath_def)

lemma eventPath_nonempty [simp]: "eventPath i \<noteq> []"
  by (simp add: eventPath_def)

lemma findAll_subseq: "subseq (fst (findAllDevicePaths io ioctl k w)) (map eventPath [0..<32])"
  by (simp add: findAllDevicePaths_def pushIf_subseq split: option.split)

lemma findAll_distinct: "distinct (fst (findAllDevicePaths io ioctl k w))"
proof -
  have d: "distinct (map eventPath [0..<32])"
    unfolding distinct_map inj_on_def eventPath_inject distinct_upt by simp
  obtain N where "fst (findAllDevicePaths io ioctl k w) = nths (map eventPath [0..<32]) N"
    using findAll_subseq subseq_conv_nths by metis
  then show ?thesis using distinct_nthsI [OF d] by simp
qed

lemma findAll_nonempty_paths: "[] \<notin> set (fst (findAllDevicePaths io ioctl k w))"
proof -
  have "[] \<notin> set (fst (pushIf pred is w))" for pred :: "string \<Rightarrow> 'a \<Rightarrow> bool \<times> 'a" and "is" w
    using pushIf_paths [of pred "is" w] eventPath_nonempty by (metis imageE subsetD)
  then show ?thesis by (simp add: findAllDevicePaths_def split: option.split)
qed

lemma openAndGet_opened:
  assumes "posix_descriptors io opened" and "path \<noteq> []"
  shows "opened (snd (openAndGetCapabilities io ioctl path w)) = opened w"
  using assms(2) posix_descriptorsD [OF assms(1)]
  by (auto simp: openAndGetCapabilities_def openFd_def closeFd_def split_beta Let_def)

lemma isKind_opened:
  assumes "posix_descriptors io opened" and "path \<noteq> []"
  shows "opened (snd (isKindOfDevice io ioctl r path w)) = opened w"
  using openAndGet_opened [OF assms]
  by (simp add: isKindOfDevice_def split_beta Let_def split: option.split)

lemma pushIf_opened:
  assumes "\<And>p w. p \<noteq> [] \<Longrightarrow> opened (snd (pred p w)) = opened w"
  shows "opened (snd (pushIf pred is w)) = opened w"
  by (induction "is" arbitrary: w) (simp_all add: split_beta Let_def assms)

lemma findAll_opened:
  assumes "posix_descriptors io opened"
  shows "opened (snd (findAllDevicePaths io ioctl k w)) = opened w"
  using pushIf_opened [of opened, OF isKind_opened [OF assms]]
  by (simp add: findAllDevicePaths_def split: option.split)

lemma findDevice_opened:
  assumes "posix_descriptors io opened"
  shows "opened (snd (findDevicePath io ioctl k w)) = opened w"
  using findAll_opened [OF assms] by (simp add: findDevicePath_def split_beta Let_def)

lemma probeKinds_opened:
  assumes "posix_descriptors io opened"
  shows "opened (snd (probeKinds io ioctl ks w)) = opened w"
  by (induction ks arbitrary: w) (simp_all add: split_beta Let_def findDevice_opened [OF assms])

lemma scan_opened:
  assumes "posix_descriptors io opened"
  shows "opened (snd (scanEvdevNodesForProbe io ioctl is_chr is s w)) = opened w"
  by (induction "is" arbitrary: s w)
     (simp_all add: split_beta Let_def openAndGet_opened [OF assms])

lemma probeKinds_subseq: "subseq (fst (probeKinds io ioctl ks w)) ks"
  by (induction ks arbitrary: w) (auto simp: split_beta Let_def)

lemma sigProg_action: "sg_action (sigProg p st) = sg_action st" "sg_action (sigProgs ps st) = sg_action st"
proof (induction p st and ps st rule: sigProg_sigProgs.induct)
  case (2 ps st)
  then show ?case by (simp add: newSigintGuard_def destroySigintGuard_def)
qed (simp_all add: sigintHandler_def)

section \<open>Properties\<close>

text \<open>Guards restore: whatever scopes were opened and signals came in between, the action for \<open>SIGINT\<close> is
  afterwards what it was. Within a scope with no inner one, a stop is requested exactly when the signal
  has come since the scope was entered.\<close>

theorem sigint_guard_scope:
  "sg_action (sigProgs ps st) = sg_action st
   \<and> sigintStopRequested (sigProgs (replicate n Sigint) (snd (newSigintGuard st))) = (n > 0)"
proof -
  have "sg_action st = GuardHandler \<Longrightarrow> sg_stop (sigProgs (replicate n Sigint) st) = (sg_stop st \<or> n > 0)" for st
    by (induction n arbitrary: st) (simp_all add: sigintHandler_def)
  then show ?thesis using sigProg_action(2) [of ps st] by (simp add: sigintStopRequested_def newSigintGuard_def)
qed

text \<open>The probe of the device kinds leaks no descriptor, whatever the \<open>open\<close> and
  \<open>ioctl\<close> calls return for each of the 32 nodes (at most five passes over them), and it
  reports each kind at most once, in the fixed order of the probe.\<close>

theorem probe_leaks_no_descriptor:
  assumes "posix_descriptors io opened"
  shows "opened (snd (localKinds io ioctl is_chr w)) = opened w
         \<and> subseq (fst (localKinds io ioctl is_chr w)) [kTouchpad, kTouchscreen, kMouse, kKeyboard]"
  using probeKinds_opened [OF assms] scan_opened [OF assms] probeKinds_subseq
  by (simp add: localKinds_def split_beta Let_def del: probeKinds.simps scanEvdevNodesForProbe.simps)

theorem probe_leaks_no_descriptor_witness:
  "set (snd (localKinds desc_io (\<lambda>w fd. \<lparr>ioc_name = None, ioc_ev = None, ioc_key = None,
      ioc_abs = None, ioc_rel = None\<rparr>) (\<lambda>p. True) [7])) = {7}"
  using probe_leaks_no_descriptor [OF desc_io_descriptors] by simp

text \<open>C34. When the kernel hands over the structures of a batch of at most 64 events,
  \<open>readEvents\<close> returns exactly these events, in order, with their times, types, codes and
  values, provided the caller's buffer is large enough; a smaller buffer loses the rest.\<close>

theorem readEvents_exact:
  assumes "fd \<ge> 0" and "0 < max_count" and "evs \<noteq> []" and "\<forall>e \<in> set evs. event_ok e"
    and "io_read io fd 1536 w = ((int (24 * length evs), concat (map encodeInputEvent evs)), w')"
  shows "readEvents io fd max_count w
         = ((int (min (length evs) (nat max_count)), take (nat max_count) evs), w')"
proof -
  have n: "int (24 * length evs) div 24 = int (length evs)" "int (24 * length evs) mod 24 = 0" by simp_all
  have "map (\<lambda>i. decodeInputEvent (take 24 (drop (24 * i) (concat (map encodeInputEvent evs)))))
          [0..<min (length evs) (nat max_count)]
        = map (\<lambda>i. evs ! i) [0..<min (length evs) (nat max_count)]"
    using assms(4) by (intro map_cong refl) (simp add: nth_chunk decode_encode)
  also have "\<dots> = take (nat max_count) evs"
    by (rule nth_equalityI) simp_all
  finally show ?thesis
    using assms n by (simp add: readEvents_def readFd_def Let_def)
qed

theorem readEvents_exact_witness:
  "readEvents (mem_io\<lparr>io_read := (\<lambda>fd k w. ((24, encodeInputEvent (makeEvent 1 30 1)), w))\<rparr>) 3 64 ([], [])
   = ((1, [makeEvent 1 30 1]), ([], []))"
  using readEvents_exact [of 3 64 "[makeEvent 1 30 1]"
      "mem_io\<lparr>io_read := (\<lambda>fd k w. ((24, encodeInputEvent (makeEvent 1 30 1)), w))\<rparr>" "([], [])" "([], [])"]
  by (simp add: event_ok_def makeEvent_def in_i64_def in_i32_def)

text \<open>Every bit that \<open>getCapabilities\<close> tests lies inside the array allocated for its
  event type, so no test reads past the buffer; and a test reads the bit it names.\<close>

theorem capability_bits_in_range:
  "list_all (\<lambda>b. b div 64 < length (bitArray (NBITS EV_MAX) ws)) [1, 2, 3]
   \<and> list_all (\<lambda>b. b div 64 < length (bitArray (NBITS KEY_MAX) ws)) [1, 28, 30, 57, 272, 273, 274, 325, 333, 334]
   \<and> list_all (\<lambda>b. b div 64 < length (bitArray (NBITS ABS_MAX) ws)) [0, 53]
   \<and> list_all (\<lambda>b. b div 64 < length (bitArray (NBITS REL_MAX) ws)) [0, 1]
   \<and> TEST_BIT b arr = bit (arr ! (b div 64)) (b mod 64)"
  by (simp add: NBITS_def TEST_BIT_bit)

end
