(* ===== verification/Writers.thy ===== *)
theory Writers
  imports InputDevice
begin

text \<open>
  The sinks of raw events (\<open>IRawEventWriter\<close>) and the writers above them:
  \<open>InputEventWriter\<close> writes to the evdev nodes (\<open>evrp/sdk/inputeventwriter.cpp\<close>),
  \<open>PlaybackEventCollector\<close> buffers events on a timeline
  (\<open>evrp/sdk/playbackeventcollector.cpp\<close>), \<open>KeyboardEventWriter\<close> and \<open>MouseEventWriter\<close>
  (\<open>evrp/sdk/keyboard/keyboardeventwriter.cpp\<close>, \<open>evrp/sdk/mouse/mouseeventwriter.cpp\<close>)
  translate to raw writes. The locale \<open>raw_writer\<close> is the contract of a sink; both
  sinks are interpretations of it.
\<close>

type_synonym 's raw_write = "DeviceKind \<Rightarrow> u16 \<Rightarrow> u16 \<Rightarrow> int \<Rightarrow> 's \<Rightarrow> bool \<times> 's"

section \<open>InputEventWriter\<close>

record InputEventWriter =
  kindToFd :: "DeviceKind \<rightharpoonup> int"

definition writer_init :: InputEventWriter where
  "writer_init = \<lparr>kindToFd = (\<lambda>_. None)\<rparr>"

text \<open>The loop over the paths of \<open>getFd\<close>: the first that opens.\<close>

fun openAny :: "'w IFileSystem \<Rightarrow> string list \<Rightarrow> 'w \<Rightarrow> int \<times> 'w" where
  "openAny io [] w = (-1, w)"
| "openAny io (devPath # paths) w =
     (let (fd, w1) = openFd io devPath O_RDWR 0 w in
      if fd \<ge> 0 then (fd, w1) else openAny io paths w1)"

definition getFd ::
  "'w IFileSystem \<Rightarrow> ('w \<Rightarrow> int \<Rightarrow> evdev_ioctl) \<Rightarrow> DeviceKind \<Rightarrow> InputEventWriter \<times> 'w
   \<Rightarrow> int \<times> InputEventWriter \<times> 'w" where
  "getFd io ioctl device = (\<lambda>(self, w).
     if device = kUnspecified then (-1, self, w)
     else case kindToFd self device of
       Some fd \<Rightarrow> (fd, self, w)
     | None \<Rightarrow>
        (let (paths, w1) = findAllDevicePaths io ioctl device w in
         if paths = [] then (-1, self\<lparr>kindToFd := (kindToFd self)(device \<mapsto> -1)\<rparr>, w1)
         else let (fd, w2) = openAny io paths w1 in
              if fd \<ge> 0 then (fd, self\<lparr>kindToFd := (kindToFd self)(device \<mapsto> fd)\<rparr>, w2)
              else (-1, self\<lparr>kindToFd := (kindToFd self)(device \<mapsto> -1)\<rparr>, w2)))"

text \<open>\<open>tod\<close> is \<open>gettimeofday\<close>.\<close>

definition writeEvent ::
  "'w IFileSystem \<Rightarrow> ('w \<Rightarrow> int \<times> int) \<Rightarrow> int \<Rightarrow> u16 \<Rightarrow> u16 \<Rightarrow> int \<Rightarrow> 'w \<Rightarrow> bool \<times> 'w" where
  "writeEvent io tod fd type code value w =
     (let ev = \<lparr>ev_sec = fst (tod w), ev_usec = snd (tod w), ev_type = type, ev_code = code,
                ev_value = value\<rparr>;
          (n, w') = writeFd io fd (encodeInputEvent ev) w
      in (n = 24, w'))"

definition writeEventWithSync ::
  "'w IFileSystem \<Rightarrow> ('w \<Rightarrow> int \<times> int) \<Rightarrow> int \<Rightarrow> u16 \<Rightarrow> u16 \<Rightarrow> int \<Rightarrow> 'w \<Rightarrow> bool \<times> 'w" where
  "writeEventWithSync io tod fd type code value w =
     (let (ok, w1) = writeEvent io tod fd type code value w in
      if \<not> ok then (False, w1)
      else if type \<noteq> EV_SYN then
        let needs_mt = (type = EV_ABS \<and> (code = ABS_MT_POSITION_Y
                                          \<or> (code = ABS_MT_TRACKING_ID \<and> value = -1)));
            (ok_mt, w2) = (if needs_mt then writeEvent io tod fd EV_SYN SYN_MT_REPORT 0 w1 else (True, w1))
        in if \<not> ok_mt then (False, w2)
           else let (ok_syn, w3) = writeEvent io tod fd EV_SYN SYN_REPORT 0 w2
                in (ok_syn, w3)
      else (True, w1))"

definition writeRaw ::
  "'w IFileSystem \<Rightarrow> ('w \<Rightarrow> int \<Rightarrow> evdev_ioctl) \<Rightarrow> ('w \<Rightarrow> int \<times> int)
   \<Rightarrow> (InputEventWriter \<times> 'w) raw_write" where
  "writeRaw io ioctl tod device type code value st =
     (let (fd, self, w) = getFd io ioctl device st in
      if fd < 0 then (True, self, w)
      else let (ok, w') = writeEventWithSync io tod fd type code value w in (ok, self, w'))"

text \<open>The destructor, in the order of \<open>std::map\<close>.\<close>

fun closeKinds :: "'w IFileSystem \<Rightarrow> (DeviceKind \<rightharpoonup> int) \<Rightarrow> DeviceKind list \<Rightarrow> 'w \<Rightarrow> 'w" where
  "closeKinds io m [] w = w"
| "closeKinds io m (k # ks) w =
     closeKinds io m ks (case m k of Some fd \<Rightarrow> (if fd \<ge> 0 then closeFd io fd w else w) | None \<Rightarrow> w)"

definition destroyWriter :: "'w IFileSystem \<Rightarrow> InputEventWriter \<times> 'w \<Rightarrow> 'w" where
  "destroyWriter io = (\<lambda>(self, w).
     closeKinds io (kindToFd self) [kUnspecified, kTouchpad, kTouchscreen, kMouse, kKeyboard] w)"

section \<open>KeyboardEventWriter and MouseEventWriter\<close>

definition kbPress :: "'s raw_write \<Rightarrow> u16 \<Rightarrow> 's \<Rightarrow> bool \<times> 's" where
  "kbPress wr key_code s = wr kKeyboard EV_KEY key_code 1 s"

definition kbRelease :: "'s raw_write \<Rightarrow> u16 \<Rightarrow> 's \<Rightarrow> bool \<times> 's" where
  "kbRelease wr key_code s = wr kKeyboard EV_KEY key_code 0 s"

definition kbRepeat :: "'s raw_write \<Rightarrow> u16 \<Rightarrow> 's \<Rightarrow> bool \<times> 's" where
  "kbRepeat wr key_code s = wr kKeyboard EV_KEY key_code 2 s"

definition kbWrite :: "'s raw_write \<Rightarrow> u16 \<Rightarrow> u16 \<Rightarrow> int \<Rightarrow> 's \<Rightarrow> bool \<times> 's" where
  "kbWrite wr type code value s =
     (if type = EV_KEY then
        (if value = 0 then kbRelease wr code s
         else if value = 1 then kbPress wr code s
         else if value = 2 then kbRepeat wr code s
         else (True, s))
      else wr kKeyboard type code value s)"

definition mouseMove :: "'s raw_write \<Rightarrow> int \<Rightarrow> int \<Rightarrow> 's \<Rightarrow> bool \<times> 's" where
  "mouseMove wr dx dy s =
     (let (ok, s1) = (if dx \<noteq> 0 then wr kMouse EV_REL REL_X dx s else (True, s)) in
      if ok \<and> dy \<noteq> 0 then wr kMouse EV_REL REL_Y dy s1 else (ok, s1))"

text \<open>\<open>cursor\<close> is \<open>ICursorPos::getPosition\<close>; \<open>None\<close> when there is no cursor or it fails.
  The subtraction of two \<open>int\<close>s wraps.\<close>

definition moveToScreen :: "'s raw_write \<Rightarrow> (int \<times> int) option \<Rightarrow> int \<Rightarrow> int \<Rightarrow> 's \<Rightarrow> bool \<times> 's" where
  "moveToScreen wr cursor x y s =
     (case cursor of
        None \<Rightarrow> (False, s)
      | Some (cur_x, cur_y) \<Rightarrow> mouseMove wr (wrap_i32 (x - cur_x)) (wrap_i32 (y - cur_y)) s)"

definition moveTo :: "'s raw_write \<Rightarrow> int \<Rightarrow> int \<Rightarrow> 's \<Rightarrow> bool \<times> 's" where
  "moveTo wr x y s =
     (let (ok, s1) = wr kMouse EV_ABS ABS_X x s in
      if ok then wr kMouse EV_ABS ABS_Y y s1 else (ok, s1))"

text \<open>The scaling of one coordinate; the product of two \<open>int\<close>s wraps.\<close>

definition scaleAxis :: "int \<Rightarrow> int \<Rightarrow> int" where
  "scaleAxis x width =
     (if x < 0 then 0 else if x > width then 32767 else wrap_i32 (x * 32767) sdiv width)"

definition moveToScaled :: "'s raw_write \<Rightarrow> int \<Rightarrow> int \<Rightarrow> int \<Rightarrow> int \<Rightarrow> 's \<Rightarrow> bool \<times> 's" where
  "moveToScaled wr x y width height s =
     (if width \<le> 0 \<or> height \<le> 0 then (False, s)
      else moveTo wr (scaleAxis x width) (scaleAxis y height) s)"

definition scrollV :: "'s raw_write \<Rightarrow> int \<Rightarrow> 's \<Rightarrow> bool \<times> 's" where
  "scrollV wr value s = wr kMouse EV_REL REL_WHEEL value s"

definition scrollH :: "'s raw_write \<Rightarrow> int \<Rightarrow> 's \<Rightarrow> bool \<times> 's" where
  "scrollH wr value s = wr kMouse EV_REL REL_HWHEEL value s"

definition buttonDown :: "'s raw_write \<Rightarrow> u16 \<Rightarrow> 's \<Rightarrow> bool \<times> 's" where
  "buttonDown wr btn s = wr kMouse EV_KEY btn 1 s"

definition buttonUp :: "'s raw_write \<Rightarrow> u16 \<Rightarrow> 's \<Rightarrow> bool \<times> 's" where
  "buttonUp wr btn s = wr kMouse EV_KEY btn 0 s"

definition buttonClick :: "'s raw_write \<Rightarrow> u16 \<Rightarrow> 's \<Rightarrow> bool \<times> 's" where
  "buttonClick wr btn s =
     (let (ok, s1) = buttonDown wr btn s in if ok then buttonUp wr btn s1 else (False, s1))"

definition mouseWrite :: "'s raw_write \<Rightarrow> u16 \<Rightarrow> u16 \<Rightarrow> int \<Rightarrow> 's \<Rightarrow> bool \<times> 's" where
  "mouseWrite wr type code value s = wr kMouse type code value s"

text \<open>\<open>InputEventWriter::write\<close> sends keyboard and mouse events through these writers.\<close>

definition writerWrite ::
  "'w IFileSystem \<Rightarrow> ('w \<Rightarrow> int \<Rightarrow> evdev_ioctl) \<Rightarrow> ('w \<Rightarrow> int \<times> int)
   \<Rightarrow> (InputEventWriter \<times> 'w) raw_write" where
  "writerWrite io ioctl tod device type code value st =
     (if device = kKeyboard then kbWrite (writeRaw io ioctl tod) type code value st
      else if device = kMouse then mouseWrite (writeRaw io ioctl tod) type code value st
      else writeRaw io ioctl tod device type code value st)"

section \<open>PlaybackEventCollector\<close>

text \<open>Times in microseconds, the readings of the steady clock in nanoseconds.\<close>

record PlaybackEventCollector =
  col_events :: "InputEvent list"
  timelineUs :: int
  hasWall :: bool
  lastWall :: int

definition collector_init :: PlaybackEventCollector where
  "collector_init = \<lparr>col_events = [], timelineUs = 0, hasWall = False, lastWall = 0\<rparr>"

definition collectorClear :: "PlaybackEventCollector \<Rightarrow> PlaybackEventCollector" where
  "collectorClear s = s\<lparr>col_events := [], timelineUs := 0, hasWall := False\<rparr>"

fun stampBatch :: "int \<Rightarrow> InputEvent list \<Rightarrow> InputEvent list \<times> int" where
  "stampBatch tml [] = ([], tml)"
| "stampBatch tml (e # es) =
     (let (rest, tml') = stampBatch (tml + 1) es in
      (e\<lparr>ie_timeSec := tml sdiv 1000000, ie_timeUsec := tml smod 1000000\<rparr> # rest, tml'))"

text \<open>\<open>now\<close> reads the steady clock.\<close>

definition appendBatchWithTimeline ::
  "('w \<Rightarrow> int \<times> 'w) \<Rightarrow> InputEvent list \<Rightarrow> PlaybackEventCollector \<times> 'w \<Rightarrow> PlaybackEventCollector \<times> 'w" where
  "appendBatchWithTimeline now batch = (\<lambda>(s, w).
     if batch = [] then (s, w)
     else
       let (wall, w') = now w;
           g = (wall - lastWall s) sdiv 1000;
           tml = (if hasWall s \<and> g > 0 then timelineUs s + g else timelineUs s);
           (stamped, tml') = stampBatch tml batch
       in (s\<lparr>col_events := col_events s @ stamped, timelineUs := tml', hasWall := True, lastWall := wall\<rparr>, w'))"

definition pushEvent :: "DeviceKind \<Rightarrow> u16 \<Rightarrow> u16 \<Rightarrow> int \<Rightarrow> InputEvent" where
  "pushEvent device t c v =
     \<lparr>ie_device = device, ie_timeSec = 0, ie_timeUsec = 0, ie_type = ucast t, ie_code = ucast c,
      ie_value = v\<rparr>"

definition collectorWriteRaw ::
  "('w \<Rightarrow> int \<times> 'w) \<Rightarrow> (PlaybackEventCollector \<times> 'w) raw_write" where
  "collectorWriteRaw now device type code value st =
     (let needs_mt = (type = EV_ABS \<and> (code = ABS_MT_POSITION_Y
                                        \<or> (code = ABS_MT_TRACKING_ID \<and> value = -1)));
          batch = [pushEvent device type code value] @
            (if type \<noteq> EV_SYN then
               (if needs_mt then [pushEvent device EV_SYN SYN_MT_REPORT 0] else []) @
               [pushEvent device EV_SYN SYN_REPORT 0]
             else [])
      in (True, appendBatchWithTimeline now batch st))"

definition takeEvents :: "PlaybackEventCollector \<Rightarrow> InputEvent list \<times> PlaybackEventCollector" where
  "takeEvents s = (col_events s, collectorClear s)"

text \<open>\<open>IPlayback\<close>, as its clients see it: each call returns its result, the status it wrote
  and the new state behind the interface.\<close>

record 'p IPlayback =
  pb_upload :: "InputEvent list \<Rightarrow> 'p \<Rightarrow> (bool \<times> StatusCode) \<times> 'p"
  pb_playback :: "'p \<Rightarrow> (bool \<times> StatusCode) \<times> 'p"
  pb_stopPlayback :: "'p \<Rightarrow> bool \<times> 'p"

definition uploadAndPlay ::
  "'p IPlayback option \<Rightarrow> PlaybackEventCollector \<times> 'p \<Rightarrow> bool \<times> PlaybackEventCollector \<times> 'p" where
  "uploadAndPlay playback = (\<lambda>(s, p).
     case playback of None \<Rightarrow> (False, s, p)
     | Some pb \<Rightarrow>
        if col_events s = [] then (True, s, p)
        else let ((ok, up), p1) = pb_upload pb (col_events s) p in
             if \<not> ok \<or> sc_code up \<noteq> 0 then (False, s, p1)
             else let ((ok2, play), p2) = pb_playback pb p1 in
                  if \<not> ok2 \<or> sc_code play \<noteq> 0 then (False, s, p2)
                  else (True, collectorClear s, p2))"

section \<open>Observing the sinks\<close>

text \<open>System calls that also log the writes the kernel accepted whole: they behave as the
  calls they wrap.\<close>

definition logged :: "'w IFileSystem \<Rightarrow> ('w \<times> (int \<times> string) list) IFileSystem" where
  "logged io =
     \<lparr>io_open = (\<lambda>p f m (w, l). let (r, w') = io_open io p f m w in (r, w', l)),
      io_close = (\<lambda>fd (w, l). let (r, w') = io_close io fd w in (r, w', l)),
      io_read = (\<lambda>fd k (w, l). let (r, w') = io_read io fd k w in (r, w', l)),
      io_write = (\<lambda>fd d (w, l). let (n, w') = io_write io fd d w in
                    (n, w', if n = int (length d) then l @ [(fd, d)] else l)),
      io_poll = (\<lambda>fds t (w, l). let (r, w') = io_poll io fds t w in (r, w', l)),
      io_fsync = (\<lambda>fd (w, l). let (r, w') = io_fsync io fd w in (r, w', l)),
      io_fflushStdout = (\<lambda>(w, l). let (r, w') = io_fflushStdout io w in (r, w', l)),
      io_errno = (\<lambda>(w, l). io_errno io w),
      io_set_errno = (\<lambda>e (w, l). (io_set_errno io e w, l))\<rparr>"

definition wireOf :: "int \<times> string \<Rightarrow> int \<times> u16 \<times> u16 \<times> int" where
  "wireOf = (\<lambda>(fd, bs). let e = decodeInputEvent bs in (fd, ev_type e, ev_code e, ev_value e))"

definition dev_wire :: "InputEventWriter \<times> 'w \<times> (int \<times> string) list \<Rightarrow> (int \<times> u16 \<times> u16 \<times> int) list" where
  "dev_wire = (\<lambda>(self, w, l). map wireOf l)"

definition dev_route :: "InputEventWriter \<times> 'w \<Rightarrow> DeviceKind \<Rightarrow> int option option" where
  "dev_route = (\<lambda>(self, w) d.
     if d = kUnspecified then Some None
     else map_option (\<lambda>fd. if fd \<ge> 0 then Some fd else None) (kindToFd self d))"

definition col_wire :: "PlaybackEventCollector \<times> 'w \<Rightarrow> (DeviceKind \<times> u16 \<times> u16 \<times> int) list" where
  "col_wire = (\<lambda>(s, w). map (\<lambda>e. (ie_device e, ucast (ie_type e), ucast (ie_code e), ie_value e)) (col_events s))"

definition col_route :: "PlaybackEventCollector \<times> 'w \<Rightarrow> DeviceKind \<Rightarrow> DeviceKind option option" where
  "col_route = (\<lambda>st d. Some (Some d))"

fun writeMany :: "'s raw_write \<Rightarrow> (DeviceKind \<times> u16 \<times> u16 \<times> int) list \<Rightarrow> 's \<Rightarrow> 's" where
  "writeMany wr [] s = s"
| "writeMany wr ((d, t, c, v) # ops) s = writeMany wr ops (snd (wr d t c v s))"

text \<open>The position of an event on the timeline, in microseconds.\<close>

definition ie_us :: "InputEvent \<Rightarrow> int" where
  "ie_us e = ie_timeSec e * 1000000 + ie_timeUsec e"

text \<open>The timeline of the collector: events in strictly increasing time, all before the next
  stamp. \<open>paced w0\<close>: the next stamp is not behind the clock, first read at \<open>w0\<close>.\<close>

definition timeline_inv :: "PlaybackEventCollector \<Rightarrow> bool" where
  "timeline_inv s \<longleftrightarrow> 0 \<le> timelineUs s \<and> sorted_wrt (<) (map ie_us (col_events s))
     \<and> (\<forall>e \<in> set (col_events s). ie_us e < timelineUs s \<and> 0 \<le> ie_timeUsec e \<and> ie_timeUsec e < 1000000)"

definition paced :: "int \<Rightarrow> PlaybackEventCollector \<Rightarrow> bool" where
  "paced w0 s \<longleftrightarrow> hasWall s \<and> 1000 * timelineUs s \<ge> lastWall s - w0 + 1000"

text \<open>The stamp of the next batch.\<close>

definition nextStamp :: "int \<Rightarrow> PlaybackEventCollector \<Rightarrow> int" where
  "nextStamp wall s =
     (let g = (wall - lastWall s) sdiv 1000 in
      if hasWall s \<and> g > 0 then timelineUs s + g else timelineUs s)"

text \<open>The descriptors a writer holds, and that it owns them in a world where \<open>outside\<close> were
  open before.\<close>

definition heldFds :: "InputEventWriter \<Rightarrow> int set" where
  "heldFds self = {fd. \<exists>d. kindToFd self d = Some fd \<and> fd \<ge> 0}"

definition owns :: "('w \<Rightarrow> int set) \<Rightarrow> int set \<Rightarrow> InputEventWriter \<times> 'w \<Rightarrow> bool" where
  "owns opened outside = (\<lambda>(self, w). opened w = outside \<union> heldFds self \<and> outside \<inter> heldFds self = {})"

section \<open>The contract of a sink\<close>

text \<open>The events one raw write stands for on the wire of the device.\<close>

definition needsMt :: "u16 \<Rightarrow> u16 \<Rightarrow> int \<Rightarrow> bool" where
  "needsMt t c v \<longleftrightarrow> t = EV_ABS \<and> (c = ABS_MT_POSITION_Y \<or> c = ABS_MT_TRACKING_ID \<and> v = -1)"

definition packet :: "u16 \<Rightarrow> u16 \<Rightarrow> int \<Rightarrow> (u16 \<times> u16 \<times> int) list" where
  "packet t c v = (t, c, v) #
     (if t = EV_SYN then []
      else (if needsMt t c v then [(EV_SYN, SYN_MT_REPORT, 0)] else []) @ [(EV_SYN, SYN_REPORT, 0)])"

text \<open>A run of raw writes to one device that stops at the first failure.\<close>

fun runWrites :: "'s raw_write \<Rightarrow> DeviceKind \<Rightarrow> (u16 \<times> u16 \<times> int) list \<Rightarrow> 's \<Rightarrow> bool \<times> 's" where
  "runWrites wr d [] s = (True, s)"
| "runWrites wr d ((t, c, v) # ops) s =
     (let (ok, s1) = wr d t c v s in if ok then runWrites wr d ops s1 else (False, s1))"

text \<open>\<open>wire s\<close> lists what the sink delivered, each event with its channel; \<open>route s d\<close> is
  \<open>None\<close> before the first write to \<open>d\<close>, then \<open>Some (Some k)\<close> for the channel \<open>k\<close> of
  the device, or \<open>Some None\<close> when there is none.\<close>

locale raw_writer =
  fixes wr :: "DeviceKind \<Rightarrow> u16 \<Rightarrow> u16 \<Rightarrow> int \<Rightarrow> 's \<Rightarrow> bool \<times> 's"
    and wire :: "'s \<Rightarrow> ('c \<times> u16 \<times> u16 \<times> int) list"
    and route :: "'s \<Rightarrow> DeviceKind \<Rightarrow> 'c option option"
  assumes settled: "wr d t c v s = (ok, s') \<Longrightarrow> route s' d \<noteq> None"
    and stable: "wr d t c v s = (ok, s') \<Longrightarrow> route s d' = Some r \<Longrightarrow> route s' d' = Some r"
    and dropped: "wr d t c v s = (ok, s') \<Longrightarrow> route s' d = Some None \<Longrightarrow> ok \<and> wire s' = wire s"
    and delivered: "in_i32 v \<Longrightarrow> wr d t c v s = (ok, s') \<Longrightarrow> route s' d = Some (Some k) \<Longrightarrow>
      \<exists>n. wire s' = wire s @ map (Pair k) (take n (packet t c v)) \<and> (ok \<longleftrightarrow> n \<ge> length (packet t c v))"
begin

lemma run_stable: "route s d' = Some r \<Longrightarrow> route (snd (runWrites wr d ops s)) d' = Some r"
proof (induction ops arbitrary: s)
  case (Cons op ops)
  then show ?case using stable by (cases op) (fastforce split: prod.split)
qed simp

lemma run_dropped:
  assumes "route s d = Some None"
  shows "\<exists>s'. runWrites wr d ops s = (True, s') \<and> wire s' = wire s"
  using assms
proof (induction ops arbitrary: s)
  case (Cons op ops)
  obtain t c v where op: "op = (t, c, v)" by (cases op)
  obtain ok s1 where w: "wr d t c v s = (ok, s1)" by fastforce
  have "route s1 d = Some None" using stable [OF w Cons.prems] .
  moreover have "ok" "wire s1 = wire s" using dropped [OF w calculation] by auto
  ultimately show ?case using Cons.IH [of s1] op w by simp
qed simp

lemma run_delivered:
  assumes "\<forall>(t, c, v) \<in> set ops. in_i32 v"
    and "runWrites wr d ops s = (ok, s')" and "route s' d = Some (Some k)"
  shows "\<exists>n. wire s' = wire s @ map (Pair k) (take n (concat (map (\<lambda>(t, c, v). packet t c v) ops)))
             \<and> (ok \<longrightarrow> n \<ge> length (concat (map (\<lambda>(t, c, v). packet t c v) ops)))"
  using assms
proof (induction ops arbitrary: s)
  case (Cons op ops)
  obtain t c v where op: "op = (t, c, v)" by (cases op)
  obtain ok1 s1 where w: "wr d t c v s = (ok1, s1)" by fastforce
  have v: "in_i32 v" using Cons.prems(1) op by auto
  obtain r where r: "route s1 d = Some r" using settled [OF w] by auto
  have last: "route s' d = Some r"
    using Cons.prems(2) op w run_stable [OF r, of d ops] r by (cases ok1) auto
  then have "r = Some k" using Cons.prems(3) by simp
  then obtain n1 where n1: "wire s1 = wire s @ map (Pair k) (take n1 (packet t c v))"
    "ok1 \<longleftrightarrow> n1 \<ge> length (packet t c v)"
    using delivered [OF v w] r by auto
  show ?case
  proof (cases ok1)
    case True
    then obtain n where "wire s' = wire s1 @ map (Pair k) (take n (concat (map (\<lambda>(t, c, v). packet t c v) ops)))"
      "ok \<longrightarrow> n \<ge> length (concat (map (\<lambda>(t, c, v). packet t c v) ops))"
      using Cons.IH [of s1] Cons.prems op w by auto
    then show ?thesis using True n1 op
      by (intro exI [of _ "length (packet t c v) + n"]) simp
  next
    case False
    then show ?thesis using Cons.prems(2) n1 op w
      by (intro exI [of _ n1]) simp
  qed
qed (auto intro: exI [of _ 0])

end

section \<open>The sinks keep the contract\<close>

lemma ucast_u16_u32 [simp]: "(ucast (ucast (x :: u16) :: u32) :: u16) = x"
  by (rule bit_word_eqI) (simp add: bit_simps)

lemma stampBatch_length [simp]: "length (fst (stampBatch n es)) = length es"
  by (induction es arbitrary: n) (simp_all add: split_beta Let_def)

lemma stampBatch_snd [simp]: "snd (stampBatch n es) = n + int (length es)"
  by (induction es arbitrary: n) (simp_all add: split_beta Let_def)

lemma stampBatch_keeps:
  assumes "\<And>e a b. f (e\<lparr>ie_timeSec := a, ie_timeUsec := b\<rparr>) = f e"
  shows "map f (fst (stampBatch n es)) = map f es"
  by (induction es arbitrary: n) (simp_all add: split_beta Let_def assms)

lemma col_write_wire:
  assumes "collectorWriteRaw now d t c v st = (ok, st')"
  shows "ok" "col_wire st' = col_wire st @ map (Pair d) (packet t c v)"
proof -
  obtain s w where st: "st = (s, w)" by (cases st)
  show ok using assms by (simp add: collectorWriteRaw_def)
  let ?f = "\<lambda>e. (ie_device e, (ucast (ie_type e) :: u16), (ucast (ie_code e) :: u16), ie_value e)"
  have k: "map ?f (fst (stampBatch n es)) = map ?f es" for n es
    by (rule stampBatch_keeps) simp
  show "col_wire st' = col_wire st @ map (Pair d) (packet t c v)"
    using assms st
    by (auto simp: collectorWriteRaw_def appendBatchWithTimeline_def col_wire_def packet_def
          needsMt_def split_beta Let_def k pushEvent_def simp del: stampBatch.simps)
qed

interpretation col: raw_writer "collectorWriteRaw now" col_wire col_route for now
proof
  fix d t c v s ok s' k
  assume w: "collectorWriteRaw now d t c v s = (ok, s')" and "col_route s' d = Some (Some k)"
  then show "\<exists>n. col_wire s' = col_wire s @ map (Pair k) (take n (packet t c v)) \<and> (ok \<longleftrightarrow> n \<ge> length (packet t c v))"
    using col_write_wire [OF w] by (intro exI [of _ "length (packet t c v)"]) (simp add: col_route_def)
qed (auto simp: col_route_def)

text \<open>Nothing but a write changes the log.\<close>

lemma logged_open [simp]: "snd (snd (io_open (logged io) p f m wl)) = snd wl"
  by (simp add: logged_def split_beta Let_def)

lemma logged_close [simp]: "snd (snd (io_close (logged io) fd wl)) = snd wl"
  by (simp add: logged_def split_beta Let_def)

lemma logged_errno [simp]: "snd (io_set_errno (logged io) e wl) = snd wl"
  by (simp add: logged_def split_beta Let_def)

lemma logged_openFd [simp]: "snd (snd (openFd (logged io) p f m wl)) = snd wl"
  by (simp add: openFd_def Let_def)

lemma logged_caps: "snd (snd (openAndGetCapabilities (logged io) ioctl p wl)) = snd wl"
  by (simp add: openAndGetCapabilities_def closeFd_def split_beta Let_def)

lemma logged_isKind: "snd (snd (isKindOfDevice (logged io) ioctl r p wl)) = snd wl"
  by (simp add: isKindOfDevice_def logged_caps split_beta Let_def split: option.split)

lemma logged_findAll: "snd (snd (findAllDevicePaths (logged io) ioctl d wl)) = snd wl"
proof -
  have "snd (snd (pushIf (isKindOfDevice (logged io) ioctl r) is wl)) = snd wl" for r "is"
    by (rule pushIf_opened [of snd]) (rule logged_isKind)
  then show ?thesis by (simp add: findAllDevicePaths_def split: option.split)
qed

lemma logged_openAny: "snd (snd (openAny (logged io) ps wl)) = snd wl"
  by (induction ps arbitrary: wl) (simp_all add: split_beta Let_def)

lemma getFd_log:
  assumes "getFd (logged io) ioctl d (self, wl) = (fd, self', wl')"
  shows "snd wl' = snd wl"
  using assms logged_findAll [of io ioctl d wl]
  by (auto simp: getFd_def split_beta Let_def logged_openAny split: if_splits option.splits)

lemma getFd_route:
  assumes "getFd io ioctl d (self, w) = (fd, self', w')"
  shows "dev_route (self', w'') d = Some (if fd \<ge> 0 then Some fd else None)"
    and "d' \<noteq> d \<or> kindToFd self d' \<noteq> None \<Longrightarrow> kindToFd self' d' = kindToFd self d'"
  using assms
  by (auto simp: getFd_def dev_route_def split_beta Let_def split: if_splits option.splits
        intro: exI [of _ "-1"])

lemma writeEvent_log:
  assumes "in_i32 v" and "fd \<ge> 0" and "writeEvent (logged io) tod fd t c v wl = (ok, wl')"
  shows "map wireOf (snd wl') = map wireOf (snd wl) @ (if ok then [(fd, t, c, v)] else [])"
proof -
  have u: "unat (x :: u16) < 65536" for x using unsigned_less [of x] by simp
  have dec: "wireOf (fd, encodeInputEvent \<lparr>ev_sec = a, ev_usec = b, ev_type = t, ev_code = c, ev_value = v\<rparr>)
             = (fd, t, c, v)" for a b
    using assms(1) by (simp add: wireOf_def decodeInputEvent_def encodeInputEvent_def u)
  have ne: "encodeInputEvent e \<noteq> []" for e using length_encode [of e] by (auto simp del: length_encode)
  show ?thesis using assms(2,3)
    by (auto simp: writeEvent_def writeFd_def logged_def split_beta Let_def dec ne split: if_splits)
qed

lemma writeSync_log:
  assumes "in_i32 v" and "fd \<ge> 0" and "writeEventWithSync (logged io) tod fd t c v wl = (ok, wl')"
  shows "\<exists>n. map wireOf (snd wl') = map wireOf (snd wl) @ map (Pair fd) (take n (packet t c v))
             \<and> (ok \<longleftrightarrow> n \<ge> length (packet t c v))"
proof -
  have z: "in_i32 0" by (simp add: in_i32_def)
  obtain ok1 w1 where 1: "writeEvent (logged io) tod fd t c v wl = (ok1, w1)"
    by (cases "writeEvent (logged io) tod fd t c v wl")
  obtain ok2 w2 where 2: "writeEvent (logged io) tod fd EV_SYN SYN_MT_REPORT 0 w1 = (ok2, w2)"
    by (cases "writeEvent (logged io) tod fd EV_SYN SYN_MT_REPORT 0 w1")
  obtain ok3 w3 where 3: "writeEvent (logged io) tod fd EV_SYN SYN_REPORT 0 w2 = (ok3, w3)"
    by (cases "writeEvent (logged io) tod fd EV_SYN SYN_REPORT 0 w2")
  obtain ok4 w4 where 4: "writeEvent (logged io) tod fd EV_SYN SYN_REPORT 0 w1 = (ok4, w4)"
    by (cases "writeEvent (logged io) tod fd EV_SYN SYN_REPORT 0 w1")
  note L1 = writeEvent_log [OF assms(1,2) 1] and L2 = writeEvent_log [OF z assms(2) 2]
    and L3 = writeEvent_log [OF z assms(2) 3] and L4 = writeEvent_log [OF z assms(2) 4]
  consider "\<not> ok1" | "ok1" "t = EV_SYN" | "ok1" "t \<noteq> EV_SYN" "needsMt t c v" "\<not> ok2"
    | "ok1" "t \<noteq> EV_SYN" "needsMt t c v" "ok2" | "ok1" "t \<noteq> EV_SYN" "\<not> needsMt t c v" by blast
  then show ?thesis
  proof cases
    case 1
    then show ?thesis using assms(3) L1 \<open>writeEvent (logged io) tod fd t c v wl = (ok1, w1)\<close>
      by (intro exI [of _ 0]) (simp add: writeEventWithSync_def packet_def)
  next
    case 2
    then show ?thesis using assms(3) L1 1
      by (intro exI [of _ 1]) (auto simp: writeEventWithSync_def packet_def)
  next
    case 3
    then show ?thesis using assms(3) L1 L2 1 2
      by (intro exI [of _ 1]) (auto simp: writeEventWithSync_def packet_def needsMt_def)
  next
    case 4
    then show ?thesis using assms(3) L1 L2 L3 1 2 3
      by (intro exI [of _ "if ok3 then 3 else 2"]) (auto simp: writeEventWithSync_def packet_def needsMt_def)
  next
    case 5
    then show ?thesis using assms(3) L1 L4 1 4
      by (intro exI [of _ "if ok4 then 2 else 1"]) (auto simp: writeEventWithSync_def packet_def needsMt_def)
  qed
qed

interpretation dev: raw_writer "writeRaw (logged io) ioctl tod" dev_wire dev_route for io ioctl tod
proof
  fix d t c v d' r k and s s' :: "InputEventWriter \<times> 'a \<times> (int \<times> string) list" and ok
  assume w: "writeRaw (logged io) ioctl tod d t c v s = (ok, s')"
  obtain self wl where s: "s = (self, wl)" by (cases s)
  obtain fd self1 w1 where g: "getFd (logged io) ioctl d s = (fd, self1, w1)"
    by (cases "getFd (logged io) ioctl d s")
  define w2 where "w2 = snd s'"
  have s': "s' = (self1, w2)"
    using w g by (auto simp: w2_def writeRaw_def split_beta split: if_splits)
  note route = getFd_route [OF g [unfolded s]]
  have rd: "dev_route s' d = Some (if fd \<ge> 0 then Some fd else None)"
    using getFd_route(1) [OF g [unfolded s], of w2] s' by simp
  have drop: "fd < 0 \<Longrightarrow> ok \<and> w2 = w1" using w g s' by (simp add: writeRaw_def)
  have log: "snd w1 = snd wl" using getFd_log [OF g [unfolded s]] .
  show "dev_route s' d \<noteq> None" using rd by simp
  have "d' = kUnspecified \<or> kindToFd self1 d' = kindToFd self d'" if "dev_route s d' = Some r"
    using route(2) [of d'] that s by (cases "kindToFd self d'") (auto simp: dev_route_def split: if_splits)
  then have "dev_route s d' = Some r \<Longrightarrow> dev_route s' d' = dev_route s d'"
    using s s' by (cases "d' = kUnspecified") (simp_all add: dev_route_def)
  then show "dev_route s d' = Some r \<Longrightarrow> dev_route s' d' = Some r" by simp
  show "dev_route s' d = Some None \<Longrightarrow> ok \<and> dev_wire s' = dev_wire s"
    using rd drop log s s' by (cases wl; cases w1) (auto simp: dev_wire_def split: if_splits)
  show "\<exists>n. dev_wire s' = dev_wire s @ map (Pair k) (take n (packet t c v)) \<and> (ok \<longleftrightarrow> n \<ge> length (packet t c v))"
    if "in_i32 v" "dev_route s' d = Some (Some k)"
  proof -
    have fd: "fd = k" "fd \<ge> 0" using rd that(2) by (auto split: if_splits)
    obtain ok2 w3 where e: "writeEventWithSync (logged io) tod fd t c v w1 = (ok2, w3)"
    by (cases "writeEventWithSync (logged io) tod fd t c v w1")
    have "ok2 = ok" "w3 = w2" using w g e fd s' by (auto simp: writeRaw_def)
    then show ?thesis
      using writeSync_log [OF that(1) fd(2) e] log s s' fd(1)
      by (cases wl; cases w2) (auto simp: dev_wire_def)
  qed
qed

section \<open>The timeline of the collector\<close>

lemma ie_us_stamp: "0 \<le> n \<Longrightarrow> ie_us (e\<lparr>ie_timeSec := n sdiv 1000000, ie_timeUsec := n smod 1000000\<rparr>) = n"
  by (simp add: ie_us_def sdiv_pos smod_pos)

lemma stampBatch_us: "0 \<le> n \<Longrightarrow> map ie_us (fst (stampBatch n es)) = map (\<lambda>i. n + int i) [0..<length es]"
proof (induction es arbitrary: n)
  case (Cons e es)
  have "map (\<lambda>i. n + int i) [0..<Suc (length es)] = n # map (\<lambda>i. n + 1 + int i) [0..<length es]"
    by (simp add: upt_rec [of 0] map_Suc_upt [symmetric] ac_simps del: upt_Suc)
  then show ?case using Cons by (simp add: split_beta Let_def ie_us_stamp del: upt_Suc)
qed simp

lemma stampBatch_usec:
  "0 \<le> n \<Longrightarrow> e \<in> set (fst (stampBatch n es)) \<Longrightarrow> 0 \<le> ie_timeUsec e \<and> ie_timeUsec e < 1000000"
proof (induction es arbitrary: n)
  case (Cons e' es)
  then show ?case using Cons.IH [of "n + 1"] by (auto simp: split_beta Let_def smod_pos)
qed simp

lemma stampBatch_before: "0 \<le> n \<Longrightarrow> e \<in> set (fst (stampBatch n es)) \<Longrightarrow> n \<le> ie_us e \<and> ie_us e < n + int (length es)"
proof -
  assume "0 \<le> n" "e \<in> set (fst (stampBatch n es))"
  then have "ie_us e \<in> set (map (\<lambda>i. n + int i) [0..<length es])"
    using stampBatch_us [of n es] by (metis imageI set_map)
  then show ?thesis by auto
qed

lemma append_batch_eq:
  assumes "batch \<noteq> []"
  shows "appendBatchWithTimeline now batch (s, w) =
    (s\<lparr>col_events := col_events s @ fst (stampBatch (nextStamp (fst (now w)) s) batch),
       timelineUs := nextStamp (fst (now w)) s + int (length batch), hasWall := True,
       lastWall := fst (now w)\<rparr>, snd (now w))"
  using assms by (simp add: appendBatchWithTimeline_def nextStamp_def split_beta Let_def)

lemma append_batch_inv [inv_intros]:
  assumes "timeline_inv s" and "batch \<noteq> []"
  shows "timeline_inv (fst (appendBatchWithTimeline now batch (s, w)))"
proof -
  let ?n = "nextStamp (fst (now w)) s"
  have n: "timelineUs s \<le> ?n" by (simp add: nextStamp_def Let_def)
  then have pos: "0 \<le> ?n" using assms(1) by (simp add: timeline_inv_def)
  have sorted: "sorted_wrt (<) (map ie_us (fst (stampBatch ?n batch)))"
    by (simp add: stampBatch_us [OF pos] sorted_wrt_map sorted_wrt_upt)
  have "sorted_wrt (<) (map ie_us (col_events s @ fst (stampBatch ?n batch)))"
    unfolding map_append sorted_wrt_append
    using assms(1) sorted stampBatch_before [OF pos, of _ batch] n
    by (fastforce simp: timeline_inv_def)
  moreover have "ie_us e < ?n + int (length batch)" if "e \<in> set (col_events s)" for e
    using that assms(1) n by (fastforce simp: timeline_inv_def)
  ultimately show ?thesis
    using assms(1) pos stampBatch_before [OF pos, of _ batch] stampBatch_usec [OF pos, of _ batch]
    by (auto simp: append_batch_eq [OF assms(2)] timeline_inv_def)
qed

lemma div_1000_gap: "(x :: int) \<le> 1000 * (x sdiv 1000) + 999"
proof (cases "0 \<le> x")
  case True
  then have "x sdiv 1000 = x div 1000" by (simp add: sdiv_pos)
  moreover have "x = 1000 * (x div 1000) + x mod 1000" "x mod 1000 \<le> 999" by simp_all
  ultimately show ?thesis by linarith
next
  case False
  then have "x sdiv 1000 = - ((- x) div 1000)" by (simp add: sdiv_neg)
  moreover have "- x = 1000 * ((- x) div 1000) + (- x) mod 1000" "0 \<le> (- x) mod 1000" by simp_all
  ultimately show ?thesis by linarith
qed

lemma nextStamp_pace: "paced w0 s \<Longrightarrow> 1000 * nextStamp wall s \<ge> wall - w0"
  using div_1000_gap [of "wall - lastWall s"] by (simp add: paced_def nextStamp_def Let_def)

lemma append_batch_paced:
  assumes "paced w0 s \<or> \<not> hasWall s \<and> timelineUs s = 0 \<and> w0 = fst (now w)" and "batch \<noteq> []"
  shows "paced w0 (fst (appendBatchWithTimeline now batch (s, w)))"
proof -
  have "length batch \<ge> 1" using assms(2) by (cases batch) simp_all
  then show ?thesis
    using assms(1) nextStamp_pace [of w0 s "fst (now w)"]
    by (auto simp: append_batch_eq [OF assms(2)] paced_def nextStamp_def)
qed

lemma collector_write_append:
  "\<exists>batch. batch \<noteq> [] \<and> snd (collectorWriteRaw now d t c v st) = appendBatchWithTimeline now batch st"
  unfolding collectorWriteRaw_def Let_def snd_conv by (rule exI, rule conjI, rule_tac [2] refl) simp

lemma writeMany_append [simp]: "writeMany wr (xs @ ys) s = writeMany wr ys (writeMany wr xs s)"
  by (induction wr xs s rule: writeMany.induct) simp_all

lemma collector_many_inv:
  "timeline_inv (fst st) \<Longrightarrow> timeline_inv (fst (writeMany (collectorWriteRaw now) ops st))"
proof (induction ops arbitrary: st)
  case (Cons op ops)
  obtain d t c v where op: "op = (d, t, c, v)" by (cases op)
  obtain batch where "batch \<noteq> []" "snd (collectorWriteRaw now d t c v st) = appendBatchWithTimeline now batch st"
    using collector_write_append by blast
  then have "timeline_inv (fst (snd (collectorWriteRaw now d t c v st)))"
    using append_batch_inv Cons.prems by (cases st) simp
  then show ?case using Cons.IH op by simp
qed simp

lemma collector_many_paced:
  "paced w0 (fst st) \<Longrightarrow> paced w0 (fst (writeMany (collectorWriteRaw now) ops st))"
proof (induction ops arbitrary: st)
  case (Cons op ops)
  obtain d t c v where op: "op = (d, t, c, v)" by (cases op)
  obtain batch where "batch \<noteq> []" "snd (collectorWriteRaw now d t c v st) = appendBatchWithTimeline now batch st"
    using collector_write_append by blast
  then have "paced w0 (fst (snd (collectorWriteRaw now d t c v st)))"
    using append_batch_paced [OF disjI1] Cons.prems by (cases st) simp
  then show ?case using Cons.IH op by simp
qed simp

lemma collector_reach_inv: "timeline_inv (fst (writeMany (collectorWriteRaw now) ops (collector_init, w)))"
  by (rule collector_many_inv) (simp add: timeline_inv_def collector_init_def)

lemma collector_first_paced:
  assumes "ops \<noteq> []"
  shows "paced (fst (now w)) (fst (writeMany (collectorWriteRaw now) ops (collector_init, w)))"
proof -
  obtain d t c v rest where ops: "ops = (d, t, c, v) # rest" using assms by (cases ops) auto
  obtain batch where b: "batch \<noteq> []"
    "snd (collectorWriteRaw now d t c v (collector_init, w)) = appendBatchWithTimeline now batch (collector_init, w)"
    using collector_write_append by blast
  have "paced (fst (now w)) (fst (appendBatchWithTimeline now batch (collector_init, w)))"
    using b(1) by (intro append_batch_paced) (simp_all add: collector_init_def)
  then show ?thesis using collector_many_paced b(2) ops by simp
qed

lemma collector_run_ok: "fst (runWrites (collectorWriteRaw now) d ops st)"
proof (induction ops arbitrary: st)
  case (Cons op ops)
  then show ?case by (cases op) (simp add: collectorWriteRaw_def Let_def)
qed simp

section \<open>The descriptors of the writer\<close>

lemma owns_init: "owns opened (opened w) (writer_init, w)"
  by (simp add: owns_def writer_init_def heldFds_def)

lemma openAny_opened:
  assumes "posix_descriptors io opened" and "[] \<notin> set ps"
  shows "fst (openAny io ps w) \<ge> 0 \<Longrightarrow> fst (openAny io ps w) \<notin> opened w
           \<and> opened (snd (openAny io ps w)) = insert (fst (openAny io ps w)) (opened w)"
    and "fst (openAny io ps w) < 0 \<Longrightarrow> opened (snd (openAny io ps w)) = opened w"
proof -
  have "if fst (openAny io ps w) \<ge> 0
        then fst (openAny io ps w) \<notin> opened w
          \<and> opened (snd (openAny io ps w)) = insert (fst (openAny io ps w)) (opened w)
        else opened (snd (openAny io ps w)) = opened w"
    using assms(2)
  proof (induction ps arbitrary: w)
    case (Cons p ps)
    obtain fd w1 where o1: "io_open io p O_RDWR None w = (fd, w1)" by fastforce
    then have "fd < 0 \<Longrightarrow> opened w1 = opened w"
      "fd \<ge> 0 \<Longrightarrow> fd \<notin> opened w \<and> opened w1 = insert fd (opened w)"
      using posix_descriptorsD(6-8) [OF assms(1), of p O_RDWR None w] by simp_all
    then show ?case using Cons.IH [of w1] Cons.prems o1
      by (cases "fd \<ge> 0") (auto simp: openFd_def)
  qed simp
  then show "fst (openAny io ps w) \<ge> 0 \<Longrightarrow> fst (openAny io ps w) \<notin> opened w
           \<and> opened (snd (openAny io ps w)) = insert (fst (openAny io ps w)) (opened w)"
    and "fst (openAny io ps w) < 0 \<Longrightarrow> opened (snd (openAny io ps w)) = opened w"
    by simp_all
qed

lemma heldFds_upd: "kindToFd self d = None \<Longrightarrow>
  heldFds (self\<lparr>kindToFd := (kindToFd self)(d \<mapsto> fd)\<rparr>) = (if fd \<ge> 0 then {fd} else {}) \<union> heldFds self"
  by (auto simp: heldFds_def split: if_splits) (metis option.distinct(1))+

lemma getFd_owns:
  assumes "posix_descriptors io opened" and "owns opened outside (self, w)"
  shows "owns opened outside (snd (getFd io ioctl d (self, w)))"
proof (cases "d = kUnspecified \<or> kindToFd self d \<noteq> None")
  case True
  then show ?thesis using assms(2) by (auto simp: getFd_def)
next
  case False
  obtain ps w1 where f: "findAllDevicePaths io ioctl d w = (ps, w1)" by fastforce
  have w1: "opened w1 = opened w" and ps: "[] \<notin> set ps"
    using findAll_opened [OF assms(1), of ioctl d w] findAll_nonempty_paths [of io ioctl d w] f by auto
  note oa = openAny_opened [OF assms(1) ps, of w1]
  show ?thesis
    using False f assms(2) w1 oa
    by (cases "fst (openAny io ps w1) \<ge> 0")
       (auto simp: getFd_def owns_def heldFds_upd split_beta Let_def)
qed

lemma writeEvent_opened:
  assumes "posix_descriptors io opened"
  shows "opened (snd (writeEvent io tod fd t c v w)) = opened w"
  using posix_descriptorsD(3) [OF assms] by (simp add: writeEvent_def writeFd_def split_beta Let_def)

lemma writeSync_opened:
  assumes "posix_descriptors io opened"
  shows "opened (snd (writeEventWithSync io tod fd t c v w)) = opened w"
  using writeEvent_opened [OF assms] by (simp add: writeEventWithSync_def split_beta Let_def)

lemma writeRaw_owns [inv_intros]:
  assumes "posix_descriptors io opened" and "owns opened outside st"
  shows "owns opened outside (snd (writeRaw io ioctl tod d t c v st))"
proof -
  obtain self w where st: "st = (self, w)" by (cases st)
  obtain fd self1 w1 where g: "getFd io ioctl d st = (fd, self1, w1)" by (cases "getFd io ioctl d st")
  then have "owns opened outside (self1, w1)" using getFd_owns [OF assms(1)] assms(2) st by (metis snd_conv)
  then show ?thesis
    using g writeSync_opened [OF assms(1)] by (simp add: writeRaw_def owns_def split_beta Let_def)
qed

lemma writeMany_owns:
  assumes "posix_descriptors io opened" and "owns opened outside st"
  shows "owns opened outside (writeMany (writeRaw io ioctl tod) ops st)"
  using assms(2)
proof (induction ops arbitrary: st)
  case (Cons op ops)
  then show ?case using writeRaw_owns [OF assms(1)] by (cases op) simp
qed simp

lemma closeKinds_opened:
  assumes "posix_descriptors io opened"
  shows "opened (closeKinds io m ks w) = opened w - {fd. \<exists>k \<in> set ks. m k = Some fd \<and> fd \<ge> 0}"
  using posix_descriptorsD(1) [OF assms]
  by (induction ks arbitrary: w) (auto simp: closeFd_def split: option.split)

lemma destroy_owned:
  assumes "posix_descriptors io opened" and "owns opened outside st"
  shows "opened (destroyWriter io st) = outside"
proof -
  have all: "set [kUnspecified, kTouchpad, kTouchscreen, kMouse, kKeyboard] = UNIV"
    using DeviceKind.exhaust by auto
  show ?thesis using assms(2)
    unfolding destroyWriter_def owns_def
    by (cases st) (auto simp del: closeKinds.simps simp add: closeKinds_opened [OF assms(1)] all [simplified] heldFds_def)
qed

section \<open>Properties\<close>

text \<open>C35. Whatever is written to the collector, and however the clock behaves, the buffered
  events stand on the timeline in strictly increasing order with microseconds below one
  million.\<close>

theorem collector_timeline_increasing:
  "timeline_inv (fst (writeMany (collectorWriteRaw now) ops (collector_init, w)))"
  by (rule collector_reach_inv)

text \<open>C36. The collector keeps the pace of the script: the first event of a write made when the
  clock reads \<open>wall\<close> is not stamped earlier on the timeline than the time since the first
  write, in spite of the truncation to microseconds.\<close>

theorem collector_keeps_pace:
  assumes "ops \<noteq> []" and "writeMany (collectorWriteRaw now) ops (collector_init, w) = (s, w1)"
    and "snd (collectorWriteRaw now d t c v (s, w1)) = (s2, w2)"
  shows "1000 * ie_us (col_events s2 ! length (col_events s)) \<ge> fst (now w1) - fst (now w)"
proof -
  have inv: "timeline_inv s" "paced (fst (now w)) s"
    using collector_reach_inv [of now ops w] collector_first_paced [OF assms(1), of now w] assms(2)
    by simp_all
  obtain batch where b: "batch \<noteq> []"
    "snd (collectorWriteRaw now d t c v (s, w1)) = appendBatchWithTimeline now batch (s, w1)"
    using collector_write_append by blast
  let ?n = "nextStamp (fst (now w1)) s"
  have pos: "0 \<le> ?n" using inv(1) by (simp add: nextStamp_def timeline_inv_def Let_def)
  obtain e es where batch: "batch = e # es" using b(1) by (cases batch) simp_all
  have "ie_us (col_events s2 ! length (col_events s)) = ?n"
    using assms(3) b(2) append_batch_eq [OF b(1), of now s w1] pos
    by (auto simp: batch nth_append split_beta Let_def ie_us_stamp)
  then show ?thesis using nextStamp_pace [OF inv(2)] by simp
qed

theorem collector_keeps_pace_witness:
  "1000 * ie_us (col_events (fst (snd (collectorWriteRaw (\<lambda>w. (w, w + 5500)) kMouse 2 0 1
       (writeMany (collectorWriteRaw (\<lambda>w. (w, w + 5500))) [(kMouse, 2, 0, 1)] (collector_init, 0))))) ! 2)
   \<ge> 5500"
  using collector_keeps_pace [of "[(kMouse, 2, 0, 1)]" "\<lambda>w. (w, w + 5500)" 0 _ _ kMouse 2 0 1, OF _ surjective_pairing surjective_pairing]
  by (simp add: collectorWriteRaw_def appendBatchWithTimeline_def collector_init_def)

text \<open>C14. A script played through the collector and one played straight to the device produce
  the same stream: when a run of raw writes to a device with an open node succeeds, the
  events the kernel accepted are, in type, code and value and with their synchronisation
  reports, those the collector buffers for the same run.\<close>

theorem collector_matches_device:
  assumes "\<forall>(t, c, v) \<in> set ops. in_i32 v"
    and "runWrites (writeRaw (logged io) ioctl tod) d ops st = (True, st')"
    and "dev_route st' d = Some (Some fd)"
  shows "map snd (dev_wire st') = map snd (dev_wire st) @
           map snd (col_wire (snd (runWrites (collectorWriteRaw now) d ops (collector_init, clk))))"
proof -
  let ?pk = "concat (map (\<lambda>(t, c, v). packet t c v) ops)"
  obtain cst where c: "runWrites (collectorWriteRaw now) d ops (collector_init, clk) = (True, cst)"
    using collector_run_ok [of now d ops "(collector_init, clk)"] by (metis prod.collapse)
  have "col_wire cst = map (Pair d) ?pk"
    using col.run_delivered [OF assms(1) c, of d] by (auto simp: col_route_def col_wire_def collector_init_def)
  moreover have "dev_wire st' = dev_wire st @ map (Pair fd) ?pk"
    using dev.run_delivered [OF assms(1,2,3)] by auto
  ultimately show ?thesis using c by (simp add: comp_def)
qed

theorem collector_matches_device_witness:
  "map snd (dev_wire (snd (runWrites (writeRaw (logged desc_io) (\<lambda>w fd. undefined) (\<lambda>w. (0, 0))) kMouse
      [(0, 0, 0), (0, 0, 0)] (\<lparr>kindToFd = [kMouse \<mapsto> 5]\<rparr>, [5], []))))
   = map snd (col_wire (snd (runWrites (collectorWriteRaw (\<lambda>w. (w, w))) kMouse
      [(0, 0, 0), (0, 0, 0)] (collector_init, 0))))"
  (is "_ = map snd (col_wire ?c)")
proof -
  let ?ops = "[(0, 0, 0), (0, 0, 0)] :: (u16 \<times> u16 \<times> int) list"
  let ?run = "runWrites (writeRaw (logged desc_io) (\<lambda>w fd. undefined) (\<lambda>w. (0, 0))) kMouse ?ops
                (\<lparr>kindToFd = [kMouse \<mapsto> 5]\<rparr>, [5], [])"
  have n: "encodeInputEvent e \<noteq> []" for e using length_encode [of e] by (auto simp del: length_encode)
  have run: "fst ?run" "fst (snd ?run) = \<lparr>kindToFd = [kMouse \<mapsto> 5]\<rparr>"
    by (simp_all add: writeRaw_def getFd_def writeEventWithSync_def writeEvent_def writeFd_def logged_def
          desc_io_def n)
  then have r: "?run = (True, snd ?run)" by (simp only: prod_eq_iff fst_conv snd_conv)
  have d: "dev_route (snd ?run) kMouse = Some (Some 5)"
    using run(2) by (simp only: dev_route_def split_beta) simp
  have i: "\<forall>(t, c, v) \<in> set ?ops. in_i32 v" by (simp add: in_i32_def)
  show ?thesis
    using collector_matches_device [OF i r d, of "\<lambda>w. (w, w)" 0] by (simp add: dev_wire_def)
qed

text \<open>C16. A writer releases every descriptor it opened: after any sequence of raw writes to any
  devices, its destructor leaves open exactly the descriptors that were open before the
  writer existed.\<close>

theorem writer_releases_descriptors:
  assumes "posix_descriptors io opened"
  shows "opened (destroyWriter io (writeMany (writeRaw io ioctl tod) ops (writer_init, w))) = opened w"
  using destroy_owned [OF assms writeMany_owns [OF assms owns_init]] by simp

theorem writer_releases_descriptors_witness:
  "set (destroyWriter desc_io (writeMany (writeRaw desc_io (\<lambda>w fd. \<lparr>ioc_name = Some ''mouse'',
      ioc_ev = Some [6], ioc_key = Some [0, 0, 0, 0, 65536], ioc_abs = Some [], ioc_rel = Some [3]\<rparr>)
      (\<lambda>w. (0, 0))) [(kMouse, 2, 0, 1)] (writer_init, [7]))) = {7}"
  by (simp only: writer_releases_descriptors [OF desc_io_descriptors] list.set)

text \<open>Scaling to the absolute axis of a mouse: for a surface of positive size, up to 65537
  units, each coordinate written lies between 0 and 32767 and grows with the input.\<close>

theorem moveToScaled_bounds:
  assumes "0 < width" and "width \<le> 65537" and "x \<le> y"
  shows "0 \<le> scaleAxis x width \<and> scaleAxis x width \<le> 32767 \<and> scaleAxis x width \<le> scaleAxis y width"
proof -
  have mid: "scaleAxis z width = z * 32767 div width" "0 \<le> z * 32767 div width" "z * 32767 div width \<le> 32767"
    if "0 \<le> z" "z \<le> width" for z
  proof -
    have "in_i32 (z * 32767)" using that assms(2) by (simp add: in_i32_def)
    then show "scaleAxis z width = z * 32767 div width"
      using that assms(1) by (simp add: scaleAxis_def sdiv_pos)
    show "0 \<le> z * 32767 div width" using that assms(1) by (simp add: pos_imp_zdiv_nonneg_iff)
    have "z * 32767 div width \<le> width * 32767 div width"
      using that assms(1) by (intro zdiv_mono1) simp_all
    then show "z * 32767 div width \<le> 32767" using assms(1) by simp
  qed
  have mono: "x * 32767 div width \<le> y * 32767 div width"
    using assms by (intro zdiv_mono1) simp_all
  consider "x < 0" | "x > width" | "0 \<le> x" "x \<le> width" by linarith
  then show ?thesis
  proof cases
    case 1
    then show ?thesis using mid [of y] by (cases "y < 0 \<or> y > width") (auto simp: scaleAxis_def)
  next
    case 2
    then show ?thesis using assms by (auto simp: scaleAxis_def)
  next
    case 3
    then show ?thesis using mid [of x] mid [of y] mono assms(3)
      by (cases "y > width") (auto simp: scaleAxis_def)
  qed
qed

theorem moveToScaled_bounds_witness:
  "0 \<le> scaleAxis 960 1920 \<and> scaleAxis 960 1920 \<le> 32767 \<and> scaleAxis 960 1920 \<le> scaleAxis 1900 1920"
  using moveToScaled_bounds [of 1920 960 1900] by simp

text \<open>Beyond 65537 units the product overflows \<open>int\<close>: the last column of a surface of
  65540 units is sent to a negative coordinate.\<close>

theorem moveToScaled_overflows:
  "moveToScaled (collectorWriteRaw (\<lambda>w. (w, w))) 65540 0 65540 100 (collector_init, 0)
   = moveTo (collectorWriteRaw (\<lambda>w. (w, w))) (-32765) 0 (collector_init, 0)"
proof -
  have "wrap_i32 (65540 * 32767) = - 2147418116" by (simp add: wrap_i32_def)
  then have "scaleAxis 65540 65540 = - 32765" by (simp add: scaleAxis_def sdiv_neg)
  moreover have "scaleAxis 0 100 = 0" by (simp add: scaleAxis_def wrap_i32_def sdiv_pos)
  ultimately show ?thesis by (simp add: moveToScaled_def)
qed

end
