(* ===== verification/Lua.thy ===== *)
theory Lua
  imports EventFormat Writers
begin

text \<open>
  \<open>evrp/sdk/luaeventcomposer\<close>: the functions that scripts call (\<open>luabindings.cpp\<close>) and the
  composer that turns a text, a recording mixed with lines of Lua or a whole script,
  into a list of events (\<open>luaeventcomposer.cpp\<close>). The Lua interpreter is a parameter: it
  maps a script to the tree of its calls of these functions, where what follows a call
  may depend on the call's result. Trees are finite: scripts that never end have none.
\<close>

section \<open>The bindings\<close>

abbreviation (input) "LUA_OK \<equiv> (0 :: int)"
abbreviation (input) "LUA_ERRRUN \<equiv> (2 :: int)"
abbreviation (input) "LUA_ERRMEM \<equiv> (4 :: int)"

datatype lua_fn =
    luaPress | luaRelease | luaClick | luaMouseMove | luaMouseMoveToScreen | luaMouseGetPosition
  | luaMouseIsCursorAvailable | luaMouseMoveTo | luaMouseMoveToScaled | luaMouseScrollV
  | luaMouseScrollH | luaMouseButtonDown | luaMouseButtonUp | luaMouseButtonClick

text \<open>What a call gives back to the script: values, or a Lua error (which the script may
  catch).\<close>

datatype lua_ret = LBool bool | LNil | LPos int int | LError string

record 's ICursorPos =
  getPosition :: "'s \<Rightarrow> (int \<times> int) option"
  isAvailable :: "'s \<Rightarrow> bool"

text \<open>The two globals of the bindings.\<close>

record 's lua_env =
  gKeyboard :: "'s raw_write option"
  gMouse :: "('s raw_write \<times> 's ICursorPos option) option"

type_synonym 's lua_binding = "'s lua_env \<Rightarrow> bool \<Rightarrow> int option list \<Rightarrow> 's \<Rightarrow> lua_ret \<times> 's"

text \<open>\<open>luaL_checkinteger\<close> of argument \<open>i\<close> (from 1): an argument is \<open>None\<close> when it has no
  integer representation.\<close>

definition checkInteger :: "int option list \<Rightarrow> nat \<Rightarrow> (int \<Rightarrow> 's \<Rightarrow> lua_ret \<times> 's) \<Rightarrow> 's \<Rightarrow> lua_ret \<times> 's" where
  "checkInteger args i k s =
     (if i \<le> length args then
        (case args ! (i - 1) of Some x \<Rightarrow> k x s | None \<Rightarrow> (LError ''bad argument'', s))
      else (LError ''bad argument'', s))"

definition pushBool :: "bool \<times> 's \<Rightarrow> lua_ret \<times> 's" where
  "pushBool = (\<lambda>(ok, s). (LBool ok, s))"

definition bindPress :: "'s lua_binding" where
  "bindPress env dry args = checkInteger args 1 (\<lambda>code s.
     if code < 0 \<or> code > 0xFFFF then (LError (''invalid key code: '' @ show_int code), s)
     else if dry then (LBool True, s)
     else case gKeyboard env of
            None \<Rightarrow> (LError ''evrp keyboard not initialized'', s)
          | Some kb \<Rightarrow> pushBool (kbPress kb (word_of_int code) s))"

definition bindRelease :: "'s lua_binding" where
  "bindRelease env dry args = checkInteger args 1 (\<lambda>code s.
     if code < 0 \<or> code > 0xFFFF then (LError (''invalid key code: '' @ show_int code), s)
     else if dry then (LBool True, s)
     else case gKeyboard env of
            None \<Rightarrow> (LError ''evrp keyboard not initialized'', s)
          | Some kb \<Rightarrow> pushBool (kbRelease kb (word_of_int code) s))"

definition bindClick :: "'s lua_binding" where
  "bindClick env dry args = checkInteger args 1 (\<lambda>code s.
     if code < 0 \<or> code > 0xFFFF then (LError (''invalid key code: '' @ show_int code), s)
     else if dry then (LBool True, s)
     else case gKeyboard env of
            None \<Rightarrow> (LError ''evrp keyboard not initialized'', s)
          | Some kb \<Rightarrow>
             (let (ok, s1) = kbPress kb (word_of_int code) s in
              if ok then pushBool (kbRelease kb (word_of_int code) s1) else (LBool False, s1)))"

definition bindMouseMove :: "'s lua_binding" where
  "bindMouseMove env dry args = checkInteger args 1 (\<lambda>dx. checkInteger args 2 (\<lambda>dy s.
     if dry then (LBool True, s)
     else case gMouse env of
            None \<Rightarrow> (LError ''evrp mouse not initialized'', s)
          | Some (wr, _) \<Rightarrow> pushBool (mouseMove wr (wrap_i32 dx) (wrap_i32 dy) s)))"

definition bindMouseMoveToScreen :: "'s lua_binding" where
  "bindMouseMoveToScreen env dry args = checkInteger args 1 (\<lambda>x. checkInteger args 2 (\<lambda>y s.
     if dry then (LBool True, s)
     else case gMouse env of
            None \<Rightarrow> (LError ''evrp mouse not initialized'', s)
          | Some (wr, cur) \<Rightarrow>
             pushBool (moveToScreen wr (case cur of None \<Rightarrow> None | Some c \<Rightarrow> getPosition c s)
                         (wrap_i32 x) (wrap_i32 y) s)))"

definition bindMouseGetPosition :: "'s lua_binding" where
  "bindMouseGetPosition env dry args = (\<lambda>s.
     case gMouse env of
       Some (_, Some c) \<Rightarrow> (case getPosition c s of None \<Rightarrow> (LNil, s) | Some (x, y) \<Rightarrow> (LPos x y, s))
     | _ \<Rightarrow> (LNil, s))"

definition bindMouseIsCursorAvailable :: "'s lua_binding" where
  "bindMouseIsCursorAvailable env dry args = (\<lambda>s.
     case gMouse env of
       Some (_, Some c) \<Rightarrow> (LBool (isAvailable c s), s)
     | _ \<Rightarrow> (LBool False, s))"

definition bindMouseMoveTo :: "'s lua_binding" where
  "bindMouseMoveTo env dry args = checkInteger args 1 (\<lambda>x. checkInteger args 2 (\<lambda>y s.
     if dry then (LBool True, s)
     else case gMouse env of
            None \<Rightarrow> (LError ''evrp mouse not initialized'', s)
          | Some (wr, _) \<Rightarrow> pushBool (moveTo wr (wrap_i32 x) (wrap_i32 y) s)))"

definition bindMouseMoveToScaled :: "'s lua_binding" where
  "bindMouseMoveToScaled env dry args = checkInteger args 1 (\<lambda>x. checkInteger args 2 (\<lambda>y.
     checkInteger args 3 (\<lambda>width. checkInteger args 4 (\<lambda>height s.
     if dry then (LBool True, s)
     else case gMouse env of
            None \<Rightarrow> (LError ''evrp mouse not initialized'', s)
          | Some (wr, _) \<Rightarrow>
             pushBool (moveToScaled wr (wrap_i32 x) (wrap_i32 y) (wrap_i32 width) (wrap_i32 height) s)))))"

definition bindMouseScrollV :: "'s lua_binding" where
  "bindMouseScrollV env dry args = checkInteger args 1 (\<lambda>value s.
     if dry then (LBool True, s)
     else case gMouse env of
            None \<Rightarrow> (LError ''evrp mouse not initialized'', s)
          | Some (wr, _) \<Rightarrow> pushBool (scrollV wr (wrap_i32 value) s))"

definition bindMouseScrollH :: "'s lua_binding" where
  "bindMouseScrollH env dry args = checkInteger args 1 (\<lambda>value s.
     if dry then (LBool True, s)
     else case gMouse env of
            None \<Rightarrow> (LError ''evrp mouse not initialized'', s)
          | Some (wr, _) \<Rightarrow> pushBool (scrollH wr (wrap_i32 value) s))"

definition bindMouseButtonDown :: "'s lua_binding" where
  "bindMouseButtonDown env dry args = checkInteger args 1 (\<lambda>btn s.
     if btn < 0 \<or> btn > 0xFFFF then (LError (''invalid button code: '' @ show_int btn), s)
     else if dry then (LBool True, s)
     else case gMouse env of
            None \<Rightarrow> (LError ''evrp mouse not initialized'', s)
          | Some (wr, _) \<Rightarrow> pushBool (buttonDown wr (word_of_int btn) s))"

definition bindMouseButtonUp :: "'s lua_binding" where
  "bindMouseButtonUp env dry args = checkInteger args 1 (\<lambda>btn s.
     if btn < 0 \<or> btn > 0xFFFF then (LError (''invalid button code: '' @ show_int btn), s)
     else if dry then (LBool True, s)
     else case gMouse env of
            None \<Rightarrow> (LError ''evrp mouse not initialized'', s)
          | Some (wr, _) \<Rightarrow> pushBool (buttonUp wr (word_of_int btn) s))"

definition bindMouseButtonClick :: "'s lua_binding" where
  "bindMouseButtonClick env dry args = checkInteger args 1 (\<lambda>btn s.
     if btn < 0 \<or> btn > 0xFFFF then (LError (''invalid button code: '' @ show_int btn), s)
     else if dry then (LBool True, s)
     else case gMouse env of
            None \<Rightarrow> (LError ''evrp mouse not initialized'', s)
          | Some (wr, _) \<Rightarrow> pushBool (buttonClick wr (word_of_int btn) s))"

fun luaCall :: "lua_fn \<Rightarrow> 's lua_binding" where
  "luaCall luaPress = bindPress"
| "luaCall luaRelease = bindRelease"
| "luaCall luaClick = bindClick"
| "luaCall luaMouseMove = bindMouseMove"
| "luaCall luaMouseMoveToScreen = bindMouseMoveToScreen"
| "luaCall luaMouseGetPosition = bindMouseGetPosition"
| "luaCall luaMouseIsCursorAvailable = bindMouseIsCursorAvailable"
| "luaCall luaMouseMoveTo = bindMouseMoveTo"
| "luaCall luaMouseMoveToScaled = bindMouseMoveToScaled"
| "luaCall luaMouseScrollV = bindMouseScrollV"
| "luaCall luaMouseScrollH = bindMouseScrollH"
| "luaCall luaMouseButtonDown = bindMouseButtonDown"
| "luaCall luaMouseButtonUp = bindMouseButtonUp"
| "luaCall luaMouseButtonClick = bindMouseButtonClick"

section \<open>The tables scripts see\<close>

datatype lua_value = VBool bool | VInt int | VFn lua_fn

text \<open>The global tables \<open>evrp\<close>, \<open>keyboard\<close> and \<open>mouse\<close>, with their fields.\<close>

definition registerEvrpTable :: "(string \<times> (string \<times> lua_value) list) list" where
  "registerEvrpTable =
    [(''keyboard'',
      [(''press'', VFn luaPress), (''release'', VFn luaRelease), (''click'', VFn luaClick),
       (''KEY_A'', VInt 30), (''KEY_B'', VInt 48), (''KEY_C'', VInt 46), (''KEY_D'', VInt 32),
       (''KEY_E'', VInt 18), (''KEY_F'', VInt 33), (''KEY_G'', VInt 34), (''KEY_H'', VInt 35),
       (''KEY_I'', VInt 23), (''KEY_J'', VInt 36), (''KEY_K'', VInt 37), (''KEY_L'', VInt 38),
       (''KEY_M'', VInt 50), (''KEY_N'', VInt 49), (''KEY_O'', VInt 24), (''KEY_P'', VInt 25),
       (''KEY_Q'', VInt 16), (''KEY_R'', VInt 19), (''KEY_S'', VInt 31), (''KEY_T'', VInt 20),
       (''KEY_U'', VInt 22), (''KEY_V'', VInt 47), (''KEY_W'', VInt 17), (''KEY_X'', VInt 45),
       (''KEY_Y'', VInt 21), (''KEY_Z'', VInt 44), (''KEY_ENTER'', VInt 28),
       (''KEY_SPACE'', VInt 57), (''KEY_ESC'', VInt 1), (''KEY_LEFTCTRL'', VInt 29),
       (''KEY_RIGHTCTRL'', VInt 97), (''KEY_LEFTSHIFT'', VInt 42), (''KEY_RIGHTSHIFT'', VInt 54)]),
     (''mouse'',
      [(''move'', VFn luaMouseMove), (''move_to_screen'', VFn luaMouseMoveToScreen),
       (''move_to'', VFn luaMouseMoveTo), (''move_to_scaled'', VFn luaMouseMoveToScaled),
       (''get_position'', VFn luaMouseGetPosition),
       (''is_cursor_available'', VFn luaMouseIsCursorAvailable),
       (''scroll_v'', VFn luaMouseScrollV), (''scroll_h'', VFn luaMouseScrollH),
       (''button_down'', VFn luaMouseButtonDown), (''button_up'', VFn luaMouseButtonUp),
       (''button_click'', VFn luaMouseButtonClick),
       (''BTN_LEFT'', VInt 272), (''BTN_RIGHT'', VInt 273), (''BTN_MIDDLE'', VInt 274)]),
     (''evrp'', [(''dry_run'', VBool False)])]"

section \<open>Running a script\<close>

text \<open>\<open>Done err\<close>: the chunk ended with this code (loading errors included); \<open>Call dry f args k\<close>:
  it calls \<open>f\<close> while \<open>evrp.dry_run\<close> is \<open>dry\<close>.\<close>

datatype lua_prog = Done int | Call bool lua_fn "int option list" "lua_ret \<Rightarrow> lua_prog"

primrec runProg :: "'s lua_env \<Rightarrow> lua_prog \<Rightarrow> 's \<Rightarrow> int \<times> 's" where
  "runProg env (Done e) = (\<lambda>s. (e, s))"
| "runProg env (Call dry f args k) =
     (\<lambda>s. let (r, s') = luaCall f env dry args s in (\<lambda>x. runProg env (k x)) r s')"

definition c_str :: "string \<Rightarrow> string" where
  "c_str s = takeWhile (\<lambda>c. c \<noteq> CHR 0x00) s"

text \<open>\<open>lua fromFile src\<close> is the interpreter, \<open>newstate\<close> whether \<open>luaL_newstate\<close> succeeds.
  \<open>luaL_dofile\<close> returns 1 for every error.\<close>

definition runLuaWithBindings ::
  "(bool \<Rightarrow> string \<Rightarrow> lua_prog) \<Rightarrow> bool \<Rightarrow> 's raw_write option \<Rightarrow> ('s raw_write \<times> 's ICursorPos option) option
   \<Rightarrow> bool \<Rightarrow> string option \<Rightarrow> string option \<Rightarrow> 's \<Rightarrow> int \<times> 's" where
  "runLuaWithBindings lua newstate keyboard mouse fromFile path chunk s =
     (if keyboard = None \<or> mouse = None then (LUA_ERRRUN, s)
      else if fromFile \<and> path = None then (LUA_ERRRUN, s)
      else if \<not> fromFile \<and> (chunk = None \<or> c_str (the chunk) = []) then (LUA_ERRRUN, s)
      else if \<not> newstate then (LUA_ERRMEM, s)
      else
        let env = \<lparr>gKeyboard = keyboard, gMouse = mouse\<rparr>;
            (err, s') = runProg env (lua fromFile (if fromFile then the path else c_str (the chunk))) s
        in (if fromFile then (if err = LUA_OK then LUA_OK else 1) else err, s'))"

text \<open>What the program takes from outside: interpreter, allocation, cursor, clock.\<close>

record 'w lua_host =
  lh_lua :: "bool \<Rightarrow> string \<Rightarrow> lua_prog"
  lh_newstate :: bool
  lh_cursor :: "'w ICursorPos option"
  lh_now :: "'w \<Rightarrow> int \<times> 'w"

definition cursorOn :: "'w ICursorPos option \<Rightarrow> ('a \<times> 'w) ICursorPos option" where
  "cursorOn = map_option (\<lambda>c. \<lparr>getPosition = getPosition c \<circ> snd, isAvailable = isAvailable c \<circ> snd\<rparr>)"

definition runScriptWithWriter ::
  "'w lua_host \<Rightarrow> (InputEventWriter \<times> 'w) raw_write \<Rightarrow> string option \<Rightarrow> InputEventWriter \<times> 'w
   \<Rightarrow> int \<times> InputEventWriter \<times> 'w" where
  "runScriptWithWriter h wr path st =
     (if path = None then (LUA_ERRRUN, st)
      else runLuaWithBindings (lh_lua h) (lh_newstate h) (Some wr) (Some (wr, cursorOn (lh_cursor h)))
             True path None st)"

definition runScript ::
  "'w lua_host \<Rightarrow> 'w IFileSystem \<Rightarrow> ('w \<Rightarrow> int \<Rightarrow> evdev_ioctl) \<Rightarrow> ('w \<Rightarrow> int \<times> int) \<Rightarrow> string option \<Rightarrow> 'w
   \<Rightarrow> int \<times> 'w" where
  "runScript h io ioctl tod path w =
     (let (err, st) = runScriptWithWriter h (writeRaw io ioctl tod) path (writer_init, w)
      in (err, destroyWriter io st))"

definition executeChunk ::
  "'w lua_host \<Rightarrow> (InputEventWriter \<times> 'w) raw_write \<Rightarrow> string option \<Rightarrow> InputEventWriter \<times> 'w
   \<Rightarrow> int \<times> InputEventWriter \<times> 'w" where
  "executeChunk h wr chunk st =
     (if chunk = None then (LUA_ERRRUN, st)
      else runLuaWithBindings (lh_lua h) (lh_newstate h) (Some wr) (Some (wr, cursorOn (lh_cursor h)))
             False None chunk st)"

definition playbackLuaFileIntoCollector ::
  "'w lua_host \<Rightarrow> string option \<Rightarrow> PlaybackEventCollector \<times> 'w \<Rightarrow> int \<times> PlaybackEventCollector \<times> 'w" where
  "playbackLuaFileIntoCollector h path = (\<lambda>(col, w).
     if path = None then (LUA_ERRRUN, col, w)
     else let wr = collectorWriteRaw (lh_now h) in
       runLuaWithBindings (lh_lua h) (lh_newstate h) (Some wr) (Some (wr, cursorOn (lh_cursor h)))
         True path None (collectorClear col, w))"

definition playbackLuaChunkIntoCollector ::
  "'w lua_host \<Rightarrow> string option \<Rightarrow> PlaybackEventCollector \<times> 'w \<Rightarrow> int \<times> PlaybackEventCollector \<times> 'w" where
  "playbackLuaChunkIntoCollector h chunk = (\<lambda>(col, w).
     if chunk = None then (LUA_ERRRUN, col, w)
     else let wr = collectorWriteRaw (lh_now h) in
       runLuaWithBindings (lh_lua h) (lh_newstate h) (Some wr) (Some (wr, cursorOn (lh_cursor h)))
         False None chunk (collectorClear col, w))"

section \<open>The composer\<close>

definition eventTimeUs :: "InputEvent \<Rightarrow> int" where
  "eventTimeUs e = ie_timeSec e * 1000000 + ie_timeUsec e"

definition setEventTimeUs :: "InputEvent \<Rightarrow> int \<Rightarrow> InputEvent" where
  "setEventTimeUs e tUs = e\<lparr>ie_timeSec := tUs sdiv 1000000, ie_timeUsec := tUs smod 1000000\<rparr>"

definition recordFieldsToEvent :: "DeviceKind \<Rightarrow> u16 \<Rightarrow> u16 \<Rightarrow> int \<Rightarrow> InputEvent" where
  "recordFieldsToEvent device type code value =
     \<lparr>ie_device = device, ie_timeSec = 0, ie_timeUsec = 0, ie_type = ucast type, ie_code = ucast code,
      ie_value = value\<rparr>"

text \<open>The lines that \<open>std::getline\<close> reads.\<close>

fun getlines :: "string \<Rightarrow> string list" where
  "getlines [] = []"
| "getlines (c # cs) =
     (if c = CHR 0x0A then [] # getlines cs
      else case getlines cs of
             [] \<Rightarrow> [[c]]
           | l # ls \<Rightarrow> (c # l) # ls)"

definition lineLooksRecorded :: "string \<Rightarrow> bool" where
  "lineLooksRecorded line =
     (if line = [] then False
      else let label = parseEventLabel line in
        if label = ''leading'' \<and> parseLeadingLine line \<noteq> None then True
        else if label = ''trailing'' \<and> parseTrailingLine line \<noteq> None then True
        else toKind label \<noteq> kUnspecified \<and> parseEventLine line \<noteq> None)"

definition textLooksLikeRecordingFormat :: "string \<Rightarrow> bool" where
  "textLooksLikeRecordingFormat text = list_ex lineLooksRecorded (getlines text)"

fun minTime :: "int \<Rightarrow> InputEvent list \<Rightarrow> int" where
  "minTime m [] = m"
| "minTime m (e # es) = minTime (min m (eventTimeUs e)) es"

definition appendShiftedLuaBatch :: "InputEvent list \<Rightarrow> InputEvent list \<Rightarrow> int \<Rightarrow> InputEvent list" where
  "appendShiftedLuaBatch out batch placementUs =
     (if batch = [] then out
      else let tMin = minTime (eventTimeUs (batch ! 0)) batch;
               shift = placementUs - tMin
           in out @ map (\<lambda>e. setEventTimeUs e (eventTimeUs e + shift)) batch)"

definition vectorMaxTimeUs :: "InputEvent list \<Rightarrow> int" where
  "vectorMaxTimeUs v = foldl (\<lambda>m e. max m (eventTimeUs e)) 0 v"

definition vectorMinTimeUs :: "InputEvent list \<Rightarrow> int" where
  "vectorMinTimeUs v = (if v = [] then 0 else minTime (eventTimeUs (v ! 0)) v)"

definition normalizeTimelineToZero :: "InputEvent list \<Rightarrow> InputEvent list" where
  "normalizeTimelineToZero events =
     (if events = [] then events
      else let tMin = vectorMinTimeUs events
           in map (\<lambda>e. setEventTimeUs e (eventTimeUs e - tMin)) events)"

record compose_state =
  cs_events :: "InputEvent list"
  leadingDeltaUs :: int
  fileAnchorUs :: int
  streamMaxUs :: int
  recordedTimeAdjustUs :: int
  hadLua :: bool
  sawFirstRecorded :: bool

definition compose_init :: compose_state where
  "compose_init = \<lparr>cs_events = [], leadingDeltaUs = -1, fileAnchorUs = 0, streamMaxUs = 0,
     recordedTimeAdjustUs = 0, hadLua = False, sawFirstRecorded = False\<rparr>"

text \<open>One line; \<open>Some err\<close> ends the loop with this code.\<close>

definition composeLine ::
  "'w lua_host \<Rightarrow> string \<Rightarrow> compose_state \<times> 'w \<Rightarrow> int option \<times> compose_state \<times> 'w" where
  "composeLine h line = (\<lambda>(cs, w).
     if line = [] then (None, cs, w)
     else let label = parseEventLabel line in
     if label = ''leading'' then
       (case parseLeadingLine line of Some tmp \<Rightarrow> (None, cs\<lparr>leadingDeltaUs := tmp\<rparr>, w) | None \<Rightarrow> (None, cs, w))
     else if label = ''trailing'' then (None, cs, w)
     else
       let device = toKind label in
       case (if device \<noteq> kUnspecified then parseEventLine line else None) of
         None \<Rightarrow>
           (let (err, col, w') = playbackLuaChunkIntoCollector h (Some line) (collector_init, w) in
            if err \<noteq> LUA_OK then (Some err, cs, w')
            else let batch = fst (takeEvents col);
                     placementUs = max (streamMaxUs cs) (fileAnchorUs cs);
                     evs = appendShiftedLuaBatch (cs_events cs) batch placementUs
                 in (None, cs\<lparr>cs_events := evs, streamMaxUs := vectorMaxTimeUs evs, hadLua := True\<rparr>, w'))
       | Some (deltaUs, type, code, value) \<Rightarrow>
           (let adjust = (if \<not> sawFirstRecorded cs \<and> hadLua cs \<and> leadingDeltaUs cs > 0
                          then leadingDeltaUs cs else recordedTimeAdjustUs cs);
                e = setEventTimeUs (recordFieldsToEvent device type code value) (deltaUs + adjust)
            in (None, cs\<lparr>cs_events := cs_events cs @ [e], recordedTimeAdjustUs := adjust,
                         sawFirstRecorded := True, fileAnchorUs := eventTimeUs e,
                         streamMaxUs := max (streamMaxUs cs) (eventTimeUs e)\<rparr>, w)))"

fun composeLines ::
  "'w lua_host \<Rightarrow> string list \<Rightarrow> compose_state \<times> 'w \<Rightarrow> int \<times> compose_state \<times> 'w" where
  "composeLines h [] st = (0, st)"
| "composeLines h (l # ls) st =
     (let (r, st') = composeLine h l st in
      case r of Some err \<Rightarrow> (err, st') | None \<Rightarrow> composeLines h ls st')"

definition toEvents :: "'w lua_host \<Rightarrow> string \<Rightarrow> 'w \<Rightarrow> (int \<times> InputEvent list) \<times> 'w" where
  "toEvents h text w =
     (if \<not> textLooksLikeRecordingFormat text then
        (let (err, col, w') = playbackLuaChunkIntoCollector h (Some text) (collector_init, w) in
         if err \<noteq> LUA_OK then ((err, []), w')
         else ((0, normalizeTimelineToZero (fst (takeEvents col))), w'))
      else
        (let (err, cs, w') = composeLines h (getlines text) (compose_init, w) in
         if err \<noteq> 0 then ((err, cs_events cs), w')
         else ((0, if cs_events cs = [] then [] else normalizeTimelineToZero (cs_events cs)), w')))"

section \<open>Recordings\<close>

text \<open>The lines a recording consists of, and its text.\<close>

datatype rec_line = RLeading int | RTrailing int | REvent DeviceKind Event int

fun lineOf :: "rec_line \<Rightarrow> string" where
  "lineOf (RLeading d) = formatLeadingLine d"
| "lineOf (RTrailing d) = formatTrailingLine d"
| "lineOf (REvent k ev d) = formatEventLine k ev d"

fun line_ok :: "rec_line \<Rightarrow> bool" where
  "line_ok (RLeading d) \<longleftrightarrow> ts_ok d"
| "line_ok (RTrailing d) \<longleftrightarrow> ts_ok d"
| "line_ok (REvent k ev d) \<longleftrightarrow> k \<noteq> kUnspecified \<and> ts_ok d \<and> in_i32 (ev_value ev)"

definition recordText :: "rec_line list \<Rightarrow> string" where
  "recordText ls = concat (map (\<lambda>l. lineOf l @ [CHR 0x0A]) ls)"

fun eventsOf :: "rec_line list \<Rightarrow> InputEvent list" where
  "eventsOf [] = []"
| "eventsOf (REvent k ev d # ls) =
     setEventTimeUs (recordFieldsToEvent k (ev_type ev) (ev_code ev) (ev_value ev)) d # eventsOf ls"
| "eventsOf (_ # ls) = eventsOf ls"

text \<open>Both globals write to the same sink.\<close>

definition env_over :: "'s raw_write \<Rightarrow> 's lua_env \<Rightarrow> bool" where
  "env_over wr env \<longleftrightarrow> (\<forall>kb. gKeyboard env = Some kb \<longrightarrow> kb = wr) \<and> (\<forall>m c. gMouse env = Some (m, c) \<longrightarrow> m = wr)"

section \<open>Lemmas on times\<close>

lemma sdiv_smod_million: "t sdiv 1000000 * 1000000 + t smod 1000000 = (t :: int)"
proof (cases "t < 0")
  case True
  have "- t = (- t) div 1000000 * 1000000 + (- t) mod 1000000" by simp
  moreover have "t sdiv 1000000 = - ((- t) div 1000000)" "t smod 1000000 = - ((- t) mod 1000000)"
    using True by (simp_all add: sdiv_neg smod_neg)
  ultimately show ?thesis by linarith
qed (simp add: sdiv_pos smod_pos)

lemma eventTimeUs_set [simp]: "eventTimeUs (setEventTimeUs e t) = t"
  by (simp add: eventTimeUs_def setEventTimeUs_def sdiv_smod_million)

lemma set_set [simp]: "setEventTimeUs (setEventTimeUs e t) t' = setEventTimeUs e t'"
  by (simp add: setEventTimeUs_def)

lemma set_keeps [simp]:
  "ie_device (setEventTimeUs e t) = ie_device e" "ie_type (setEventTimeUs e t) = ie_type e"
  "ie_code (setEventTimeUs e t) = ie_code e" "ie_value (setEventTimeUs e t) = ie_value e"
  by (simp_all add: setEventTimeUs_def)

lemma minTime_Min: "minTime m es = Min (insert m (eventTimeUs ` set es))"
proof (induction es arbitrary: m)
  case (Cons e es)
  then show ?case by (cases "es = []") (simp_all add: min.assoc)
qed simp

lemma vectorMin_Min: "v \<noteq> [] \<Longrightarrow> vectorMinTimeUs v = Min (eventTimeUs ` set v)"
proof -
  assume v: "v \<noteq> []"
  then have "insert (eventTimeUs (v ! 0)) (eventTimeUs ` set v) = eventTimeUs ` set v"
    by (cases v) auto
  then show ?thesis using v by (simp add: vectorMinTimeUs_def minTime_Min)
qed

lemma normalize_times: "v \<noteq> [] \<Longrightarrow>
  map eventTimeUs (normalizeTimelineToZero v) = map (\<lambda>t. t - Min (set (map eventTimeUs v))) (map eventTimeUs v)"
  by (simp add: normalizeTimelineToZero_def vectorMin_Min Let_def)

lemma normalize_keeps:
  assumes "\<And>e t. f (setEventTimeUs e t) = f e"
  shows "map f (normalizeTimelineToZero v) = map f v"
  by (simp add: normalizeTimelineToZero_def Let_def assms)

lemma normalize_Min: "v \<noteq> [] \<Longrightarrow> Min (set (map eventTimeUs (normalizeTimelineToZero v))) = 0"
proof -
  assume v: "v \<noteq> []"
  let ?T = "set (map eventTimeUs v)"
  have "set (map eventTimeUs (normalizeTimelineToZero v)) = (\<lambda>t. t - Min ?T) ` ?T"
    by (simp add: normalize_times [OF v] image_image)
  also have "Min \<dots> = Min ?T - Min ?T"
    using v by (subst mono_Min_commute [symmetric]) (auto simp: mono_def)
  finally show ?thesis by simp
qed

section \<open>Lemmas on lines\<close>

lemma getlines_append: "CHR 0x0A \<notin> set l \<Longrightarrow> getlines (l @ CHR 0x0A # rest) = l # getlines rest"
  by (induction l) auto

lemma lineOf_one_line: "CHR 0x0A \<notin> set (lineOf l)"
  by (cases l) (simp_all add: format_one_line formatLeadingLine_def formatTrailingLine_def)

lemma getlines_recordText: "getlines (recordText ls) = map lineOf ls"
proof (induction ls)
  case (Cons l ls)
  have "recordText (l # ls) = lineOf l @ CHR 0x0A # recordText ls" by (simp add: recordText_def)
  then show ?case using Cons getlines_append [OF lineOf_one_line] by simp
qed (simp add: recordText_def)

lemma lineOf_nonempty [simp]: "lineOf l \<noteq> []"
  by (cases l) (simp_all add: formatEventLine_def formatLeadingLine_def formatTrailingLine_def
      formatDurationLine_def Let_def)

lemmas duration_labels =
  label_format_duration [of "''leading''", folded formatLeadingLine_def, simplified]
  label_format_duration [of "''trailing''", folded formatTrailingLine_def, simplified]

lemmas duration_parses =
  parse_duration_line [of "''leading''" _ "''leading''", folded formatLeadingLine_def parseLeadingLine_def, simplified]
  parse_duration_line [of "''trailing''" _ "''trailing''", folded formatTrailingLine_def parseTrailingLine_def, simplified]

lemma lineOf_looks_recorded: "line_ok l \<Longrightarrow> lineLooksRecorded (lineOf l)"
  using lineOf_nonempty [of l]
  by (cases l) (auto simp: lineLooksRecorded_def duration_labels duration_parses label_format_event
      parse_format_event Let_def)

text \<open>A line of a recording without Lua: what the composer does with it.\<close>

lemma composeLine_rec:
  assumes "line_ok l" and "\<not> hadLua cs" and "recordedTimeAdjustUs cs = 0"
  shows "\<exists>cs'. composeLine h (lineOf l) (cs, w) = (None, cs', w) \<and> \<not> hadLua cs'
           \<and> recordedTimeAdjustUs cs' = 0 \<and> cs_events cs' = cs_events cs @ eventsOf [l]"
proof (cases l)
  case (REvent k ev d)
  moreover have "kindToString k \<noteq> ''leading''" "kindToString k \<noteq> ''trailing''" by (cases k; simp)+
  ultimately show ?thesis using assms lineOf_nonempty [of l]
    by (simp add: composeLine_def label_format_event parse_format_event Let_def)
qed (use assms lineOf_nonempty [of l] in
      \<open>simp_all add: composeLine_def duration_labels duration_parses Let_def split: option.split\<close>)

lemma eventsOf_append: "eventsOf (xs @ ys) = eventsOf xs @ eventsOf ys"
  by (induction xs rule: eventsOf.induct) simp_all

lemma composeLines_rec:
  assumes "list_all line_ok ls" and "\<not> hadLua cs" and "recordedTimeAdjustUs cs = 0"
  shows "\<exists>cs'. composeLines h (map lineOf ls) (cs, w) = (0, cs', w) \<and> cs_events cs' = cs_events cs @ eventsOf ls"
  using assms
proof (induction ls arbitrary: cs)
  case (Cons l ls)
  obtain cs1 where c1: "composeLine h (lineOf l) (cs, w) = (None, cs1, w)" "\<not> hadLua cs1"
    "recordedTimeAdjustUs cs1 = 0" "cs_events cs1 = cs_events cs @ eventsOf [l]"
    using composeLine_rec [of l cs h w] Cons.prems by auto
  then obtain cs' where "composeLines h (map lineOf ls) (cs1, w) = (0, cs', w)"
    "cs_events cs' = cs_events cs1 @ eventsOf ls"
    using Cons.IH [of cs1] Cons.prems by auto
  then show ?case using c1 eventsOf_append [of "[l]" ls] by simp
qed simp

lemma toEvents_recording:
  assumes "list_all line_ok ls" and "ls \<noteq> []"
  shows "toEvents h (recordText ls) w = ((0, normalizeTimelineToZero (eventsOf ls)), w)"
proof -
  have "textLooksLikeRecordingFormat (recordText ls)"
    using assms by (cases ls) (simp_all add: textLooksLikeRecordingFormat_def getlines_recordText lineOf_looks_recorded)
  then show ?thesis
    using composeLines_rec [OF assms(1), of compose_init h w]
    by (auto simp: toEvents_def getlines_recordText compose_init_def normalizeTimelineToZero_def)
qed

section \<open>Lemmas on scripts\<close>

lemma checkInteger_inv:
  assumes "P s" and "\<And>x s. P s \<Longrightarrow> P (snd (k x s))"
  shows "P (snd (checkInteger args i k s))"
  using assms by (simp add: checkInteger_def split: option.split)

lemma pushBool_snd [simp]: "snd (pushBool r) = snd r"
  by (simp add: pushBool_def split_beta)

text \<open>The writes that bindings make: to the keyboard or the mouse, with a value that fits an \<open>int\<close>.\<close>

definition bound_write :: "DeviceKind \<Rightarrow> int \<Rightarrow> bool" where
  "bound_write d v \<longleftrightarrow> (d = kKeyboard \<or> d = kMouse) \<and> in_i32 v"

lemma in_i32_small [simp]: "in_i32 0" "in_i32 1" "in_i32 2" "in_i32 32767"
  by (simp_all add: in_i32_def)

lemma scaleAxis_i32: "0 < width \<Longrightarrow> in_i32 (scaleAxis x width)"
proof -
  assume w: "0 < width"
  have "in_i32 (z sdiv width)" if "in_i32 z" for z
  proof (cases "0 \<le> z")
    case True
    then have "0 \<le> z div width" "z div width \<le> z"
      using w zdiv_mono2 [of z 1 width] by (simp_all add: pos_imp_zdiv_nonneg_iff)
    then show ?thesis using that True w by (simp add: in_i32_def sdiv_pos)
  next
    case False
    then have "0 \<le> (- z) div width" "(- z) div width \<le> - z"
      using w zdiv_mono2 [of "- z" 1 width] by (simp_all add: pos_imp_zdiv_nonneg_iff)
    then show ?thesis using that False w by (simp add: in_i32_def sdiv_neg)
  qed
  then show ?thesis by (simp add: scaleAxis_def)
qed

text \<open>What every such write keeps, every call of a binding and every script keeps.\<close>

lemma writers_inv:
  assumes "\<And>d t c v s. bound_write d v \<Longrightarrow> P s \<Longrightarrow> P (snd (wr d t c v s))" and "P s"
  shows "P (snd (kbPress wr c s))" "P (snd (kbRelease wr c s))" "in_i32 x \<Longrightarrow> in_i32 y \<Longrightarrow> P (snd (mouseMove wr x y s))"
    "P (snd (moveToScreen wr cur x y s))" "in_i32 x \<Longrightarrow> in_i32 y \<Longrightarrow> P (snd (moveTo wr x y s))"
    "P (snd (moveToScaled wr x y a b s))"
    "in_i32 x \<Longrightarrow> P (snd (scrollV wr x s))" "in_i32 x \<Longrightarrow> P (snd (scrollH wr x s))" "P (snd (buttonDown wr c s))"
    "P (snd (buttonUp wr c s))" "P (snd (buttonClick wr c s))"
proof -
  have mm: "in_i32 x \<Longrightarrow> in_i32 y \<Longrightarrow> P (snd (mouseMove wr x y s))" for x y
    using assms by (simp add: mouseMove_def bound_write_def split_beta Let_def)
  have mt: "in_i32 x \<Longrightarrow> in_i32 y \<Longrightarrow> P (snd (moveTo wr x y s))" for x y
    using assms by (simp add: moveTo_def bound_write_def split_beta Let_def)
  show "in_i32 x \<Longrightarrow> in_i32 y \<Longrightarrow> P (snd (mouseMove wr x y s))" "in_i32 x \<Longrightarrow> in_i32 y \<Longrightarrow> P (snd (moveTo wr x y s))"
    by (rule mm mt; assumption)+
  show "P (snd (moveToScreen wr cur x y s))"
    using mm assms(2) by (simp add: moveToScreen_def split: option.split prod.split)
  show "P (snd (moveToScaled wr x y a b s))"
    using mt assms(2) by (simp add: moveToScaled_def scaleAxis_i32)
qed (use assms in \<open>simp_all add: kbPress_def kbRelease_def scrollV_def scrollH_def buttonDown_def
      buttonUp_def buttonClick_def bound_write_def split_beta Let_def\<close>)

lemmas bind_defs = bindPress_def bindRelease_def bindClick_def bindMouseMove_def bindMouseMoveToScreen_def
  bindMouseGetPosition_def bindMouseIsCursorAvailable_def bindMouseMoveTo_def bindMouseMoveToScaled_def
  bindMouseScrollV_def bindMouseScrollH_def bindMouseButtonDown_def bindMouseButtonUp_def
  bindMouseButtonClick_def

lemma luaCall_inv:
  assumes wr: "\<And>d t c v s. bound_write d v \<Longrightarrow> P s \<Longrightarrow> P (snd (wr d t c v s))" and "env_over wr env" and "P s"
  shows "P (snd (luaCall f env dry args s))"
proof -
  note ws = writers_inv [of P wr, OF wr]
  show ?thesis
    using assms(2,3)
    by (cases f) (auto simp: bind_defs env_over_def split_beta Let_def
        intro!: checkInteger_inv [of P] ws split: option.split)
qed

lemma runProg_inv:
  assumes "\<And>d t c v s. bound_write d v \<Longrightarrow> P s \<Longrightarrow> P (snd (wr d t c v s))" and "env_over wr env" and "P s"
  shows "P (snd (runProg env prog s))"
  using assms(3)
proof (induction prog arbitrary: s)
  case (Call dry f args k)
  have "P (snd (luaCall f env dry args s))" using luaCall_inv [of P wr, OF assms(1,2) Call.prems] by simp
  then show ?case using Call.IH by (simp add: split_beta Let_def)
qed simp

lemma runLua_inv:
  assumes "\<And>d t c v s. bound_write d v \<Longrightarrow> P s \<Longrightarrow> P (snd (wr d t c v s))" and "P s"
  shows "P (snd (runLuaWithBindings lua ns (Some wr) (Some (wr, cur)) ff path chunk s))"
  using runProg_inv [of P wr, OF assms(1)] assms(2)
  by (simp add: runLuaWithBindings_def env_over_def split_beta Let_def)

lemma luaCall_dry: "snd (luaCall f env True args s) = s"
  by (cases f) (auto simp: bind_defs checkInteger_def split: option.split)

lemma collector_write_inv:
  "timeline_inv (fst st) \<Longrightarrow> timeline_inv (fst (snd (collectorWriteRaw now d t c v st)))"
  using collector_many_inv [of st now "[(d, t, c, v)]"] by simp

lemma chunk_timeline:
  assumes "playbackLuaChunkIntoCollector h chunk (collector_init, w) = (err, col, w')"
  shows "timeline_inv col"
proof -
  have "timeline_inv (fst (snd (playbackLuaChunkIntoCollector h chunk (collector_init, w))))"
  proof -
    let ?wr = "collectorWriteRaw (lh_now h)"
    have init: "timeline_inv (fst (collectorClear collector_init, w))" "timeline_inv collector_init"
      by (simp_all add: timeline_inv_def collector_init_def collectorClear_def)
    have "timeline_inv (fst (snd (runLuaWithBindings (lh_lua h) (lh_newstate h) (Some ?wr)
        (Some (?wr, cursorOn (lh_cursor h))) False None chunk (collectorClear collector_init, w))))"
      by (rule runLua_inv [of "\<lambda>st. timeline_inv (fst st)"]) (use collector_write_inv init(1) in auto)
    then show ?thesis using init(2)
      by (simp only: playbackLuaChunkIntoCollector_def Let_def prod.case split: if_split) simp
  qed
  then show ?thesis using assms by simp
qed

lemma eventTimeUs_ie_us: "eventTimeUs = ie_us"
  by (rule ext) (simp add: eventTimeUs_def ie_us_def)

lemma Min_sorted_hd: "sorted_wrt (<) (x # xs) \<Longrightarrow> Min (set (x # xs)) = (x :: int)"
  by (rule Min_eqI) (auto intro: less_imp_le)

section \<open>Properties\<close>



text \<open>C23. A text that is a Lua script gives events in strictly increasing time that start at
  zero, whatever the script does and whatever the clock shows.\<close>

theorem script_events_increasing:
  assumes "\<not> textLooksLikeRecordingFormat text" and "evs = snd (fst (toEvents h text w))"
  shows "sorted_wrt (<) (map eventTimeUs evs) \<and> (evs = [] \<or> eventTimeUs (hd evs) = 0)"
proof -
  obtain e col w1 where r: "playbackLuaChunkIntoCollector h (Some text) (collector_init, w) = (e, col, w1)"
    by (cases "playbackLuaChunkIntoCollector h (Some text) (collector_init, w)")
  show ?thesis
  proof (cases "e = 0 \<and> col_events col \<noteq> []")
    case True
    let ?v = "col_events col"
    have evs: "evs = normalizeTimelineToZero ?v"
      using assms r True by (simp add: toEvents_def takeEvents_def)
    have sorted: "sorted_wrt (<) (map eventTimeUs ?v)"
      using chunk_timeline [OF r] by (simp add: timeline_inv_def eventTimeUs_ie_us)
    obtain x xs where v: "?v = x # xs" using True by (cases ?v) auto
    have "Min (set (map eventTimeUs ?v)) = eventTimeUs x"
      using Min_sorted_hd sorted v by (metis list.simps(9))
    then have t: "map eventTimeUs evs = map (\<lambda>t. t - eventTimeUs x) (map eventTimeUs ?v)"
      using normalize_times True evs by metis
    then have "sorted_wrt (<) (map eventTimeUs evs)" using sorted by (simp add: sorted_wrt_map)
    moreover have "eventTimeUs (hd evs) = 0"
      using t v by (cases evs) simp_all
    ultimately show ?thesis by blast
  next
    case False
    then show ?thesis using assms r
      by (auto simp: toEvents_def takeEvents_def normalizeTimelineToZero_def split: if_splits)
  qed
qed

theorem script_events_increasing_witness:
  "sorted_wrt (<) (map eventTimeUs (snd (fst (toEvents \<lparr>lh_lua = (\<lambda>f s. Call False luaClick [Some 30] (\<lambda>r. Done 0)),
     lh_newstate = True, lh_cursor = None, lh_now = (\<lambda>w. (w, w + 1000))\<rparr> ''go()'' (0 :: int)))))"
proof -
  have "\<not> textLooksLikeRecordingFormat ''go()''" by code_simp
  from script_events_increasing [OF this refl] show ?thesis by (rule conjunct1)
qed

text \<open>While \<open>evrp.dry_run\<close> is set, no function a script can call writes an event or
  touches any state.\<close>

theorem dry_run_writes_nothing: "snd (luaCall f env True args s) = s"
  by (rule luaCall_dry)

text \<open>A script run on the devices leaves no descriptor open, whatever it calls and however
  it ends.\<close>

theorem runScript_releases_descriptors:
  assumes "posix_descriptors io opened"
  shows "opened (snd (runScript h io ioctl tod path w)) = opened w"
proof -
  have "owns opened (opened w) (snd (runScriptWithWriter h (writeRaw io ioctl tod) path (writer_init, w)))"
    unfolding runScriptWithWriter_def
    using runLua_inv [of "owns opened (opened w)" "writeRaw io ioctl tod", OF writeRaw_owns [OF assms]]
      owns_init [of opened w] by simp
  then show ?thesis using destroy_owned [OF assms] by (simp add: runScript_def split_beta Let_def)
qed

theorem runScript_releases_descriptors_witness:
  "set (snd (runScript \<lparr>lh_lua = (\<lambda>f s. Call False luaClick [Some 30] (\<lambda>r. Done 0)), lh_newstate = True,
     lh_cursor = None, lh_now = (\<lambda>w. (0, w))\<rparr> desc_io (\<lambda>w fd. undefined) (\<lambda>w. (0, 0)) (Some ''a.lua'') [7])) = {7}"
  by (simp only: runScript_releases_descriptors [OF desc_io_descriptors] list.set)

end
