(* ===== verification/ComposerTypes.thy ===== *)
theory ComposerTypes
  imports Lua
begin

text \<open>
  The types of composed events. Whatever a file holds, a recording, a recording with lines of Lua or a
  whole script, the events \<open>toEvents\<close> (\<open>evrp/sdk/luaeventcomposer/luaeventcomposer.cpp\<close>) returns with success are
  well formed: the rest of the program (the translation to protocol buffers, the conversions to
  \<open>unsigned short\<close> and \<open>int\<close> in \<open>LocalPlayback\<close>) loses nothing of them.
\<close>

section \<open>Well-formed events\<close>

text \<open>The fields that do not depend on time, and the whole event.\<close>

definition fields_typed :: "InputEvent \<Rightarrow> bool" where
  "fields_typed e \<longleftrightarrow> ie_device e \<noteq> kUnspecified \<and> ie_type e < 2 ^ 16 \<and> ie_code e < 2 ^ 16 \<and> in_i32 (ie_value e)"

definition event_typed :: "InputEvent \<Rightarrow> bool" where
  "event_typed e \<longleftrightarrow> fields_typed e \<and> 0 \<le> ie_timeSec e \<and> 0 \<le> ie_timeUsec e \<and> ie_timeUsec e < 1000000"

lemma u16_below: "(ucast (x :: u16) :: u32) < 2 ^ 16"
  by transfer (simp add: take_bit_eq_mod mod_mod_cancel)

lemma fields_typed_set [simp]: "fields_typed (setEventTimeUs e t) = fields_typed e"
  by (simp add: fields_typed_def)

lemma fields_typed_stamp: "fields_typed (e\<lparr>ie_timeSec := a, ie_timeUsec := b\<rparr>) = fields_typed e"
  by (simp add: fields_typed_def)

lemma fields_typed_push: "d \<noteq> kUnspecified \<Longrightarrow> in_i32 v \<Longrightarrow> fields_typed (pushEvent d t c v)"
  by (simp add: fields_typed_def pushEvent_def u16_below [simplified])

lemma fields_typed_record: "d \<noteq> kUnspecified \<Longrightarrow> in_i32 v \<Longrightarrow> fields_typed (recordFieldsToEvent d t c v)"
  by (simp add: fields_typed_def recordFieldsToEvent_def u16_below [simplified])

lemma event_typed_set: "fields_typed e \<Longrightarrow> 0 \<le> t \<Longrightarrow> event_typed (setEventTimeUs e t)"
  by (simp add: event_typed_def setEventTimeUs_def fields_typed_stamp sdiv_pos smod_pos)

section \<open>The sources of events\<close>

lemma stampBatch_typed: "list_all fields_typed (fst (stampBatch tml es)) = list_all fields_typed es"
  by (induction es arbitrary: tml) (simp_all add: split_beta Let_def fields_typed_stamp)

lemma collector_typed:
  assumes "bound_write d v" and "list_all fields_typed (col_events (fst st))"
  shows "list_all fields_typed (col_events (fst (snd (collectorWriteRaw now d t c v st))))"
proof -
  have d: "d \<noteq> kUnspecified" "in_i32 v" using assms(1) by (auto simp: bound_write_def)
  have b: "list_all fields_typed batch \<Longrightarrow>
      list_all fields_typed (col_events (fst (appendBatchWithTimeline now batch st)))" for batch
    using assms(2) by (cases st) (simp add: appendBatchWithTimeline_def split_beta Let_def stampBatch_typed)
  show ?thesis unfolding collectorWriteRaw_def Let_def snd_conv
    by (rule b) (use d in \<open>simp add: fields_typed_push\<close>)
qed

lemma chunk_typed:
  assumes "playbackLuaChunkIntoCollector h chunk (collector_init, w) = (err, col, w')"
  shows "list_all fields_typed (col_events col)"
proof -
  let ?wr = "collectorWriteRaw (lh_now h)" and ?P = "\<lambda>st. list_all fields_typed (col_events (fst st))"
  have "?P (snd (runLuaWithBindings (lh_lua h) (lh_newstate h) (Some ?wr)
      (Some (?wr, cursorOn (lh_cursor h))) False None chunk (collectorClear collector_init, w)))"
    by (rule runLua_inv [of ?P]) (simp_all add: collector_typed collectorClear_def)
  then show ?thesis using assms
    by (cases chunk) (auto simp: playbackLuaChunkIntoCollector_def collector_init_def Let_def)
qed

lemma parseEventLine_i32: "parseEventLine line = Some (d, t, c, v) \<Longrightarrow> in_i32 v"
  by (auto simp: parseEventLine_def stoi_def Let_def split: option.splits sum.splits if_splits prod.splits)

lemma shifted_typed:
  "list_all fields_typed out \<Longrightarrow> list_all fields_typed batch \<Longrightarrow> list_all fields_typed (appendShiftedLuaBatch out batch us)"
  by (simp add: appendShiftedLuaBatch_def Let_def list.pred_map comp_def)

lemma composeLine_typed:
  assumes "composeLine h line (cs, w) = (r, cs', w')" and "list_all fields_typed (cs_events cs)"
  shows "list_all fields_typed (cs_events cs')"
proof (cases "line = [] \<or> parseEventLabel line = ''leading'' \<or> parseEventLabel line = ''trailing''")
  case True
  then show ?thesis using assms by (auto simp: composeLine_def Let_def split: option.splits if_splits)
next
  case False
  let ?k = "toKind (parseEventLabel line)"
  show ?thesis
  proof (cases "if ?k \<noteq> kUnspecified then parseEventLine line else None")
    case None
    obtain err col w1 where c: "playbackLuaChunkIntoCollector h (Some line) (collector_init, w) = (err, col, w1)"
      by (cases "playbackLuaChunkIntoCollector h (Some line) (collector_init, w)")
    then show ?thesis using False None assms chunk_typed [OF c]
      by (auto simp: composeLine_def Let_def takeEvents_def shifted_typed split: if_splits)
  next
    case (Some p)
    then obtain d t c v where p: "p = (d, t, c, v)" "?k \<noteq> kUnspecified" "parseEventLine line = Some (d, t, c, v)"
      by (cases p) (auto split: if_splits)
    then show ?thesis using False assms parseEventLine_i32 [OF p(3)]
      by (auto simp: composeLine_def Let_def fields_typed_record)
  qed
qed

lemma composeLines_typed:
  "composeLines h ls (cs, w) = (err, cs', w') \<Longrightarrow> list_all fields_typed (cs_events cs) \<Longrightarrow> list_all fields_typed (cs_events cs')"
proof (induction ls arbitrary: cs w)
  case (Cons l ls)
  obtain r cs1 w1 where l: "composeLine h l (cs, w) = (r, cs1, w1)" by (cases "composeLine h l (cs, w)")
  then have "list_all fields_typed (cs_events cs1)" using Cons.prems(2) by (rule composeLine_typed)
  then show ?case using Cons l by (auto split: option.splits)
qed simp

lemma normalize_typed:
  assumes "list_all fields_typed v"
  shows "list_all event_typed (normalizeTimelineToZero v)"
proof (cases "v = []")
  case False
  have "0 \<le> eventTimeUs e - vectorMinTimeUs v" if "e \<in> set v" for e
    using that False by (simp add: vectorMin_Min)
  then show ?thesis using assms False by (auto simp: normalizeTimelineToZero_def Let_def list_all_iff intro: event_typed_set)
qed (simp add: normalizeTimelineToZero_def)

lemma toEvents_typed:
  assumes "toEvents h text w = ((0, out), w')"
  shows "list_all event_typed out"
proof (cases "textLooksLikeRecordingFormat text")
  case True
  obtain err cs w1 where c: "composeLines h (getlines text) (compose_init, w) = (err, cs, w1)"
    by (cases "composeLines h (getlines text) (compose_init, w)")
  then have "list_all fields_typed (cs_events cs)" by (rule composeLines_typed) (simp add: compose_init_def)
  then show ?thesis using assms True c normalize_typed [of "cs_events cs"] by (auto simp: toEvents_def split: if_splits)
next
  case False
  obtain err col w1 where c: "playbackLuaChunkIntoCollector h (Some text) (collector_init, w) = (err, col, w1)"
    by (cases "playbackLuaChunkIntoCollector h (Some text) (collector_init, w)")
  then show ?thesis using assms False chunk_typed [OF c] normalize_typed [of "col_events col"]
    by (auto simp: toEvents_def takeEvents_def split: if_splits)
qed

lemma toEvents_normalized: "toEvents h text w = ((0, out), w') \<Longrightarrow> \<exists>v. out = normalizeTimelineToZero v"
  by (auto simp: toEvents_def split_beta Let_def normalizeTimelineToZero_def split: if_splits)

section \<open>The property\<close>



end
