(* ===== verification/Settings.thy ===== *)
theory Settings
  imports KeyboardDevice "HOL-Library.List_Lexorder" "HOL-Library.Char_ord"
begin

text \<open>
  The settings that travel from the command line to the server: \<open>ISetting\<close> and its two
  implementations (\<open>evrp/sdk/setting\<close>), the log levels (\<open>evrp/sdk/log/logger.cpp\<close>) and the
  translation to and from protocol buffers (\<open>evrp/sdk/tofromproto.cpp\<close>). The locale
  \<open>setting\<close> is the contract of the interface; \<open>MemorySetting\<close> and \<open>OverlaySetting\<close> are
  its interpretations. A double is an integral value or one of the others (fractions,
  infinities, NaNs), which only pass through.
\<close>

section \<open>Values\<close>

datatype LogLevel = Off | Error | Warning | Info | Debug | Trace

definition logLevelFromString :: "string \<Rightarrow> LogLevel" where
  "logLevelFromString s =
     (let l = lower s in
      if l = ''error'' then Error
      else if l = ''warn'' \<or> l = ''warning'' then Warning
      else if l = ''info'' then Info
      else if l = ''debug'' then Debug
      else if l = ''trace'' then Trace
      else if l = ''off'' then Off
      else Info)"

fun logLevelName :: "LogLevel \<Rightarrow> string" where
  "logLevelName Off = ''OFF''"
| "logLevelName Error = ''ERROR''"
| "logLevelName Warning = ''WARN''"
| "logLevelName Info = ''INFO''"
| "logLevelName Debug = ''DEBUG''"
| "logLevelName Trace = ''TRACE''"

datatype double = DIntegral int | DOther nat

text \<open>\<open>std::any\<close>: empty, one of the types the translation knows, or any other.\<close>

datatype any =
    AEmpty | AString string | ABool bool | AInt32 int | AInt64 int | ADouble double | AFloat double
  | ALogLevel LogLevel | AKinds "DeviceKind list" | AStrings "string list" | AUnknown nat

definition has_value :: "any \<Rightarrow> bool" where
  "has_value a \<longleftrightarrow> a \<noteq> AEmpty"

text \<open>\<open>get<std::string>\<close> and \<open>get<bool>\<close> with a default.\<close>

definition getString :: "any \<Rightarrow> string \<Rightarrow> string" where
  "getString a defaultValue = (case a of AString s \<Rightarrow> s | _ \<Rightarrow> defaultValue)"

definition getBool :: "any \<Rightarrow> bool \<Rightarrow> bool" where
  "getBool a defaultValue = (case a of ABool b \<Rightarrow> b | _ \<Rightarrow> defaultValue)"

section \<open>MemorySetting\<close>

text \<open>\<open>std::map\<close>: the entries in the order of the keys.\<close>

type_synonym MemorySetting = "(string \<times> any) list"

fun memInsert :: "MemorySetting \<Rightarrow> string \<Rightarrow> any \<Rightarrow> MemorySetting" where
  "memInsert [] k v = [(k, v)]"
| "memInsert ((k', v') # es) k v =
     (if k = k' then (k, v) # es
      else if k < k' then (k, v) # (k', v') # es
      else (k', v') # memInsert es k v)"

definition memContains :: "MemorySetting \<Rightarrow> string \<Rightarrow> bool" where
  "memContains s k = (map_of s k \<noteq> None)"

definition memGet :: "MemorySetting \<Rightarrow> string \<Rightarrow> any" where
  "memGet s k = (case map_of s k of None \<Rightarrow> AEmpty | Some v \<Rightarrow> v)"

definition memKeys :: "MemorySetting \<Rightarrow> string list" where
  "memKeys s = map fst s"

definition memSnapshot :: "MemorySetting \<Rightarrow> (string \<rightharpoonup> any)" where
  "memSnapshot s = map_of s"

definition mem_wf :: "MemorySetting \<Rightarrow> bool" where
  "mem_wf s \<longleftrightarrow> sorted_wrt (<) (map fst s)"

section \<open>OverlaySetting\<close>

text \<open>The operations take those of the layers as arguments.\<close>

record 's OverlaySetting =
  ov_top :: 's
  ov_below :: "'s list"

definition overlayNew :: "'s \<Rightarrow> 's option \<Rightarrow> 's OverlaySetting" where
  "overlayNew fresh topl = \<lparr>ov_top = (case topl of Some t \<Rightarrow> t | None \<Rightarrow> fresh), ov_below = []\<rparr>"

definition addLower :: "'s OverlaySetting \<Rightarrow> 's option \<Rightarrow> 's OverlaySetting" where
  "addLower ov layer =
     (case layer of None \<Rightarrow> ov | Some l \<Rightarrow> ov\<lparr>ov_below := ov_below ov @ [l]\<rparr>)"

definition addLowers :: "'s OverlaySetting \<Rightarrow> 's option list \<Rightarrow> 's OverlaySetting" where
  "addLowers ov layers = ov\<lparr>ov_below := ov_below ov @ List.map_filter id layers\<rparr>"

definition overlayNewWith :: "'s \<Rightarrow> 's option \<Rightarrow> 's option list \<Rightarrow> 's OverlaySetting" where
  "overlayNewWith fresh topl lowers = addLowers (overlayNew fresh topl) lowers"

definition ovContains :: "('s \<Rightarrow> string \<Rightarrow> bool) \<Rightarrow> 's OverlaySetting \<Rightarrow> string \<Rightarrow> bool" where
  "ovContains contains ov k =
     (if contains (ov_top ov) k then True else list_ex (\<lambda>l. contains l k) (ov_below ov))"

fun firstLayer :: "('s \<Rightarrow> string \<Rightarrow> bool) \<Rightarrow> ('s \<Rightarrow> string \<Rightarrow> any) \<Rightarrow> 's list \<Rightarrow> string \<Rightarrow> any" where
  "firstLayer contains get [] k = AEmpty"
| "firstLayer contains get (l # ls) k = (if contains l k then get l k else firstLayer contains get ls k)"

definition ovGet :: "('s \<Rightarrow> string \<Rightarrow> bool) \<Rightarrow> ('s \<Rightarrow> string \<Rightarrow> any) \<Rightarrow> 's OverlaySetting \<Rightarrow> string \<Rightarrow> any" where
  "ovGet contains get ov k =
     (if contains (ov_top ov) k then get (ov_top ov) k else firstLayer contains get (ov_below ov) k)"

definition ovInsert :: "('s \<Rightarrow> string \<Rightarrow> any \<Rightarrow> 's) \<Rightarrow> 's OverlaySetting \<Rightarrow> string \<Rightarrow> any \<Rightarrow> 's OverlaySetting" where
  "ovInsert ins ov k v = ov\<lparr>ov_top := ins (ov_top ov) k v\<rparr>"

text \<open>\<open>seen\<close> and \<open>result\<close> hold the same keys.\<close>

fun addUnseen :: "string list \<Rightarrow> string list \<Rightarrow> string list" where
  "addUnseen result [] = result"
| "addUnseen result (k # ks) =
     (if k \<in> set result then addUnseen result ks else addUnseen (result @ [k]) ks)"

definition ovKeys :: "('s \<Rightarrow> string list) \<Rightarrow> 's OverlaySetting \<Rightarrow> string list" where
  "ovKeys keys ov = foldl (\<lambda>result l. addUnseen result (keys l)) (keys (ov_top ov)) (ov_below ov)"

definition ovSnapshot ::
  "('s \<Rightarrow> string \<Rightarrow> bool) \<Rightarrow> ('s \<Rightarrow> string \<Rightarrow> any) \<Rightarrow> ('s \<Rightarrow> string list) \<Rightarrow> 's OverlaySetting \<Rightarrow> (string \<rightharpoonup> any)" where
  "ovSnapshot contains get keys ov =
     foldl (\<lambda>out k. if out k = None then out(k \<mapsto> ovGet contains get ov k) else out) Map.empty (ovKeys keys ov)"

definition ov_wf :: "('s \<Rightarrow> bool) \<Rightarrow> 's OverlaySetting \<Rightarrow> bool" where
  "ov_wf lwf ov \<longleftrightarrow> lwf (ov_top ov) \<and> list_all lwf (ov_below ov)"

section \<open>Protocol buffers\<close>

text \<open>\<open>google.protobuf.Value\<close>, as the translation looks at it.\<close>

datatype pvalue =
    PNull | PNumber double | PString string | PBool bool | PStruct | PList "pvalue list" | PNotSet

definition valueFromProto :: "pvalue \<Rightarrow> any option" where
  "valueFromProto v =
     (case v of
        PNumber n \<Rightarrow>
          (case n of
             DIntegral i \<Rightarrow> if - (2 ^ 31) \<le> i \<and> i \<le> 2 ^ 31 - 1 then Some (AInt32 i) else Some (ADouble n)
           | DOther _ \<Rightarrow> Some (ADouble n))
      | PString s \<Rightarrow> Some (AString s)
      | PBool b \<Rightarrow> Some (ABool b)
      | _ \<Rightarrow> None)"

fun kindsOfList :: "pvalue list \<Rightarrow> DeviceKind list" where
  "kindsOfList [] = []"
| "kindsOfList (v # vs) =
     (case v of
        PString s \<Rightarrow> (if toKind s \<noteq> kUnspecified then toKind s # kindsOfList vs else kindsOfList vs)
      | _ \<Rightarrow> kindsOfList vs)"

definition appendKindsFromList :: "(string \<rightharpoonup> any) \<Rightarrow> pvalue list \<Rightarrow> (string \<rightharpoonup> any) \<times> bool" where
  "appendKindsFromList out list =
     (let kinds = kindsOfList list in
      if kinds = [] then (out, False) else (out(''kinds'' \<mapsto> AKinds kinds), True))"

text \<open>Conversion of a 64-bit integer to double: exact up to \<open>2 ^ 53\<close>, then to the nearest
  multiple of the spacing, ties to even.\<close>

fun bit_len :: "nat \<Rightarrow> nat" where
  "bit_len n = (if n = 0 then 0 else Suc (bit_len (n div 2)))"

definition round53 :: "nat \<Rightarrow> nat" where
  "round53 n =
     (if n \<le> 2 ^ 53 then n
      else let sh = bit_len n - 53; q = n div 2 ^ sh; r = n mod 2 ^ sh;
               q' = (if r > 2 ^ (sh - 1) \<or> r = 2 ^ (sh - 1) \<and> odd q then q + 1 else q)
           in q' * 2 ^ sh)"

definition double_of_int :: "int \<Rightarrow> double" where
  "double_of_int i = DIntegral (if i < 0 then - int (round53 (nat (- i))) else int (round53 (nat i)))"

definition anyToProtoValue :: "any \<Rightarrow> pvalue option" where
  "anyToProtoValue a =
     (case a of
        AString s \<Rightarrow> Some (PString s)
      | ABool b \<Rightarrow> Some (PBool b)
      | AInt32 i \<Rightarrow> Some (PNumber (DIntegral i))
      | AInt64 i \<Rightarrow> Some (PNumber (double_of_int i))
      | ADouble d \<Rightarrow> Some (PNumber d)
      | AFloat f \<Rightarrow> Some (PNumber f)
      | ALogLevel l \<Rightarrow> Some (PString (logLevelName l))
      | AKinds ks \<Rightarrow> Some (PList (map (PString \<circ> kindToString) ks))
      | AStrings ss \<Rightarrow> Some (PList (map PString ss))
      | AEmpty \<Rightarrow> None
      | AUnknown _ \<Rightarrow> None)"

text \<open>The loops of \<open>fromProto\<close> and \<open>toProto\<close> over a map write each key from its own entry,
  so that the result is given key by key.\<close>

definition settingsFromProto :: "(string \<rightharpoonup> any) \<Rightarrow> (string \<rightharpoonup> pvalue) \<Rightarrow> (string \<rightharpoonup> any)" where
  "settingsFromProto out s = (\<lambda>key.
     case s key of
       None \<Rightarrow> out key
     | Some val \<Rightarrow>
        (case val of
           PList vs \<Rightarrow> (if key = ''kinds'' then fst (appendKindsFromList out vs) key else out key)
         | PString str \<Rightarrow>
             (if key = ''logLevel'' then Some (ALogLevel (logLevelFromString str))
              else valueFromProto val)
         | _ \<Rightarrow> (case valueFromProto val of None \<Rightarrow> out key | Some a \<Rightarrow> Some a)))"

definition settingsToProto :: "(string \<rightharpoonup> any) \<Rightarrow> (string \<rightharpoonup> pvalue)" where
  "settingsToProto snap = (\<lambda>key.
     case snap key of
       None \<Rightarrow> None
     | Some a \<Rightarrow> if \<not> has_value a then None else anyToProtoValue a)"

text \<open>The enumeration of \<open>common.proto\<close>.\<close>

fun kindToProto :: "DeviceKind \<Rightarrow> int" where
  "kindToProto kTouchpad = 1"
| "kindToProto kTouchscreen = 2"
| "kindToProto kMouse = 3"
| "kindToProto kKeyboard = 4"
| "kindToProto kUnspecified = 0"

definition kindFromProto :: "int \<Rightarrow> DeviceKind" where
  "kindFromProto k =
     (if k = 1 then kTouchpad else if k = 2 then kTouchscreen else if k = 3 then kMouse
      else if k = 4 then kKeyboard else kUnspecified)"

definition kindsFromProto :: "int list \<Rightarrow> DeviceKind list" where
  "kindsFromProto protoKinds = map kindFromProto protoKinds"

definition kindsToProto :: "DeviceKind list \<Rightarrow> int list" where
  "kindsToProto kinds = map kindToProto kinds"

record proto_InputEvent =
  p_device :: int
  p_time_sec :: int
  p_time_usec :: int
  p_type :: u32
  p_code :: u32
  p_value :: int

definition eventToProto :: "InputEvent \<Rightarrow> proto_InputEvent" where
  "eventToProto e =
     \<lparr>p_device = kindToProto (ie_device e), p_time_sec = ie_timeSec e, p_time_usec = ie_timeUsec e,
      p_type = ie_type e, p_code = ie_code e, p_value = ie_value e\<rparr>"

definition eventFromProto :: "proto_InputEvent \<Rightarrow> InputEvent" where
  "eventFromProto p =
     \<lparr>ie_device = kindFromProto (p_device p), ie_timeSec = p_time_sec p, ie_timeUsec = p_time_usec p,
      ie_type = p_type p, ie_code = p_code p, ie_value = p_value p\<rparr>"

definition eventsToProto :: "InputEvent list \<Rightarrow> proto_InputEvent list" where
  "eventsToProto events = map eventToProto events"

definition eventsFromProto :: "proto_InputEvent list \<Rightarrow> InputEvent list" where
  "eventsFromProto ps = map eventFromProto ps"

record proto_StatusCode =
  p_code_status :: int
  p_message :: string

definition statusToProto :: "StatusCode \<Rightarrow> proto_StatusCode" where
  "statusToProto r = \<lparr>p_code_status = sc_code r, p_message = sc_message r\<rparr>"

text \<open>The entries that survive the trip: what the command line produces.\<close>

fun portable :: "string \<Rightarrow> any \<Rightarrow> bool" where
  "portable k (AString s) \<longleftrightarrow> k \<noteq> ''logLevel''"
| "portable k (ABool b) \<longleftrightarrow> True"
| "portable k (AInt32 i) \<longleftrightarrow> in_i32 i"
| "portable k (ALogLevel l) \<longleftrightarrow> k = ''logLevel''"
| "portable k (AKinds ks) \<longleftrightarrow> k = ''kinds'' \<and> ks \<noteq> [] \<and> kUnspecified \<notin> set ks"
| "portable k _ \<longleftrightarrow> False"

text \<open>A run of inserts, as the parsers of the command line make them.\<close>

definition insertAll :: "('s \<Rightarrow> string \<Rightarrow> any \<Rightarrow> 's) \<Rightarrow> 's \<Rightarrow> (string \<times> any) list \<Rightarrow> 's" where
  "insertAll ins s es = foldl (\<lambda>s (k, v). ins s k v) s es"

section \<open>The contract of a setting\<close>

locale setting =
  fixes contains :: "'s \<Rightarrow> string \<Rightarrow> bool"
    and get :: "'s \<Rightarrow> string \<Rightarrow> any"
    and ins :: "'s \<Rightarrow> string \<Rightarrow> any \<Rightarrow> 's"
    and keys :: "'s \<Rightarrow> string list"
    and snapshot :: "'s \<Rightarrow> (string \<rightharpoonup> any)"
    and wf :: "'s \<Rightarrow> bool"
  assumes wf_ins: "wf s \<Longrightarrow> wf (ins s k v)"
    and get_ins: "wf s \<Longrightarrow> get (ins s k v) k' = (if k' = k then v else get s k')"
    and contains_ins: "wf s \<Longrightarrow> contains (ins s k v) k' \<longleftrightarrow> k' = k \<or> contains s k'"
    and get_absent: "\<not> contains s k \<Longrightarrow> get s k = AEmpty"
    and set_keys: "wf s \<Longrightarrow> set (keys s) = {k. contains s k}"
    and distinct_keys: "wf s \<Longrightarrow> distinct (keys s)"
    and snapshot_get: "wf s \<Longrightarrow> snapshot s k = (if contains s k then Some (get s k) else None)"
begin

lemma wf_insAll: "wf s \<Longrightarrow> wf (insertAll ins s es)"
  unfolding insertAll_def by (induction es arbitrary: s) (auto intro: wf_ins)

lemma snapshot_ins: "wf s \<Longrightarrow> snapshot (ins s k v) = (snapshot s)(k \<mapsto> v)"
  by (rule ext) (simp add: snapshot_get wf_ins contains_ins get_ins)

lemma snapshot_insAll: "wf s \<Longrightarrow> snapshot (insertAll ins s es) = snapshot s ++ map_of (rev es)"
proof -
  have "wf s \<Longrightarrow> snapshot (foldl (\<lambda>s (k, v). ins s k v) s es) = foldl (\<lambda>m (k, v). m(k \<mapsto> v)) (snapshot s) es"
    by (induction es arbitrary: s) (auto simp: snapshot_ins wf_ins)
  moreover have "foldl (\<lambda>m (k, v). m(k \<mapsto> v)) m es = m ++ map_of (rev es)" for m :: "string \<rightharpoonup> any"
    by (induction es arbitrary: m) (auto simp: map_add_def fun_eq_iff split: option.splits)
  ultimately show "wf s \<Longrightarrow> ?thesis" by (simp add: insertAll_def)
qed

end

text \<open>A stack of settings is a setting.\<close>

context setting
begin

lemma firstLayer_absent: "\<not> list_ex (\<lambda>l. contains l k) ls \<Longrightarrow> firstLayer contains get ls k = AEmpty"
  by (induction ls) auto

lemma addUnseen_set [simp]: "set (addUnseen r ks) = set r \<union> set ks"
  by (induction r ks rule: addUnseen.induct) auto

lemma addUnseen_distinct: "distinct r \<Longrightarrow> distinct (addUnseen r ks)"
  by (induction r ks rule: addUnseen.induct) auto

lemma ovKeys_set: "ov_wf wf ov \<Longrightarrow> set (ovKeys keys ov) = {k. ovContains contains ov k}"
proof -
  assume "ov_wf wf ov"
  then have "wf (ov_top ov)" "list_all wf (ov_below ov)" by (simp_all add: ov_wf_def)
  moreover have "list_all wf ls \<Longrightarrow>
      set (foldl (\<lambda>r l. addUnseen r (keys l)) r ls) = set r \<union> {k. list_ex (\<lambda>l. contains l k) ls}" for r ls
    by (induction ls arbitrary: r) (auto simp: set_keys)
  ultimately show ?thesis by (auto simp: ovKeys_def ovContains_def set_keys)
qed

lemma ovKeys_distinct: "ov_wf wf ov \<Longrightarrow> distinct (ovKeys keys ov)"
proof -
  assume "ov_wf wf ov"
  then have "distinct (keys (ov_top ov))" by (simp add: ov_wf_def distinct_keys)
  moreover have "distinct r \<Longrightarrow> distinct (foldl (\<lambda>r l. addUnseen r (keys l)) r ls)" for r ls
    by (induction ls arbitrary: r) (auto intro: addUnseen_distinct)
  ultimately show ?thesis by (simp add: ovKeys_def)
qed

lemma emplace_all:
  "foldl (\<lambda>out k. if out k = None then out(k \<mapsto> f k) else out) m ks k
   = (if m k = None \<and> k \<in> set ks then Some (f k) else m k)"
  by (induction ks arbitrary: m) auto

lemma overlay_is_setting:
  "setting (ovContains contains) (ovGet contains get) (ovInsert ins) (ovKeys keys)
     (ovSnapshot contains get keys) (ov_wf wf)"
proof
  fix s :: "'s OverlaySetting" and k k' v
  show "ov_wf wf s \<Longrightarrow> ov_wf wf (ovInsert ins s k v)"
    by (simp add: ov_wf_def ovInsert_def wf_ins)
  show "ov_wf wf s \<Longrightarrow> ovGet contains get (ovInsert ins s k v) k' = (if k' = k then v else ovGet contains get s k')"
    by (auto simp: ov_wf_def ovGet_def ovInsert_def contains_ins get_ins)
  show "ov_wf wf s \<Longrightarrow> ovContains contains (ovInsert ins s k v) k' = (k' = k \<or> ovContains contains s k')"
    by (auto simp: ov_wf_def ovContains_def ovInsert_def contains_ins)
  show "\<not> ovContains contains s k \<Longrightarrow> ovGet contains get s k = AEmpty"
    by (simp add: ovContains_def ovGet_def firstLayer_absent split: if_splits)
  show "ov_wf wf s \<Longrightarrow> ovSnapshot contains get keys s k
      = (if ovContains contains s k then Some (ovGet contains get s k) else None)"
    by (simp add: ovSnapshot_def emplace_all ovKeys_set)
qed (simp_all add: ovKeys_set ovKeys_distinct)

end

section \<open>The implementations keep the contract\<close>

lemma memInsert_keys: "set (map fst (memInsert s k v)) = insert k (set (map fst s))"
  by (induction s k v rule: memInsert.induct) auto

lemma mem_wf_insert [inv_intros]: "mem_wf s \<Longrightarrow> mem_wf (memInsert s k v)"
proof (induction s k v rule: memInsert.induct)
  case (2 k' v' es k v)
  then show ?case using memInsert_keys [of es k v]
    by (auto simp: mem_wf_def not_less order.strict_iff_order)
qed (simp add: mem_wf_def)

lemma map_of_memInsert: "mem_wf s \<Longrightarrow> map_of (memInsert s k v) = (map_of s)(k \<mapsto> v)"
proof (induction s k v rule: memInsert.induct)
  case (2 k' v' es k v)
  then show ?case by (auto simp: mem_wf_def fun_eq_iff)
qed simp

interpretation mem: setting memContains memGet memInsert memKeys memSnapshot mem_wf
proof
  fix s k k' v
  show "mem_wf s \<Longrightarrow> set (memKeys s) = {k. memContains s k}"
    by (auto simp: memKeys_def memContains_def map_of_eq_None_iff)
  show "mem_wf s \<Longrightarrow> distinct (memKeys s)"
    by (auto simp: memKeys_def mem_wf_def strict_sorted_iff)
qed (auto simp: mem_wf_insert memGet_def memContains_def map_of_memInsert memSnapshot_def)

interpretation ov: setting "ovContains memContains" "ovGet memContains memGet" "ovInsert memInsert"
  "ovKeys memKeys" "ovSnapshot memContains memGet memKeys" "ov_wf mem_wf"
  by (rule mem.overlay_is_setting)

section \<open>Lemmas on the translation\<close>

lemma logLevel_roundtrip [simp]: "logLevelFromString (logLevelName l) = l"
proof -
  have "list_all (\<lambda>l. logLevelFromString (logLevelName l) = l) [Off, Error, Warning, Info, Debug, Trace]"
    by code_simp
  then show ?thesis by (cases l) (auto simp only: list.pred_inject)
qed

lemma kindsOfList_strings [simp]:
  "kUnspecified \<notin> set ks \<Longrightarrow> kindsOfList (map (PString \<circ> kindToString) ks) = ks"
  by (induction ks) auto

lemma kind_proto_roundtrip [simp]: "kindFromProto (kindToProto k) = k"
  by (cases k) (simp_all add: kindFromProto_def)

lemma event_proto_roundtrip [simp]: "eventFromProto (eventToProto e) = e"
  by (simp add: eventFromProto_def eventToProto_def)

lemma events_roundtrip: "eventsFromProto (eventsToProto evs) = evs"
  by (simp add: eventsFromProto_def eventsToProto_def comp_def)

lemma portable_entry:
  assumes "snap k = Some a" and "portable k a"
  shows "settingsFromProto Map.empty (settingsToProto snap) k = Some a"
  using assms
  by (cases a) (auto simp: settingsFromProto_def settingsToProto_def has_value_def anyToProtoValue_def
      valueFromProto_def appendKindsFromList_def in_i32_def)

section \<open>Properties\<close>



text \<open>C40. A stack of settings behaves as one: after any run of inserts its snapshot is the
  earlier one overridden by the inserted values (the last for each key), its keys are
  distinct and are exactly those of the snapshot, and the layers below are never changed.\<close>

theorem overlay_snapshot:
  assumes "ov_wf mem_wf ov"
  shows "ovSnapshot memContains memGet memKeys (insertAll (ovInsert memInsert) ov es)
      = ovSnapshot memContains memGet memKeys ov ++ map_of (rev es)
    \<and> distinct (ovKeys memKeys (insertAll (ovInsert memInsert) ov es))
    \<and> set (ovKeys memKeys (insertAll (ovInsert memInsert) ov es))
      = dom (ovSnapshot memContains memGet memKeys ov) \<union> fst ` set es
    \<and> ov_below (insertAll (ovInsert memInsert) ov es) = ov_below ov"
proof -
  let ?ov = "insertAll (ovInsert memInsert) ov es"
  have wf: "ov_wf mem_wf ?ov" by (rule ov.wf_insAll [OF assms])
  have snap: "ovSnapshot memContains memGet memKeys ?ov = ovSnapshot memContains memGet memKeys ov ++ map_of (rev es)"
    by (rule ov.snapshot_insAll [OF assms])
  have "set (ovKeys memKeys ?ov) = dom (ovSnapshot memContains memGet memKeys ?ov)"
    by (auto simp: ov.set_keys [OF wf] ov.snapshot_get [OF wf] split: if_splits)
  also have "\<dots> = dom (ovSnapshot memContains memGet memKeys ov) \<union> fst ` set es"
    by (simp add: snap dom_map_of_conv_image_fst Un_commute)
  finally have ks: "set (ovKeys memKeys ?ov) = dom (ovSnapshot memContains memGet memKeys ov) \<union> fst ` set es" .
  have "ov_below (foldl (\<lambda>s (k, v). ovInsert memInsert s k v) ov es) = ov_below ov"
    by (induction es arbitrary: ov) (auto simp: ovInsert_def)
  then show ?thesis using snap ks ov.distinct_keys [OF wf] by (simp add: insertAll_def)
qed

theorem overlay_snapshot_witness:
  "ovSnapshot memContains memGet memKeys (insertAll (ovInsert memInsert)
      \<lparr>ov_top = [], ov_below = [[(''device'', AString ''low'')]]\<rparr> [(''device'', AString ''cli'')])
   = ovSnapshot memContains memGet memKeys \<lparr>ov_top = [], ov_below = [[(''device'', AString ''low'')]]\<rparr>
     ++ [''device'' \<mapsto> AString ''cli'']"
  using overlay_snapshot [of "\<lparr>ov_top = [], ov_below = [[(''device'', AString ''low'')]]\<rparr>" "[(''device'', AString ''cli'')]"]
  by (simp add: ov_wf_def mem_wf_def)

end
