(* ===== verification/RecordReplay.thy ===== *)
theory RecordReplay
  imports Lua Settings
begin

text \<open>
  Recording and replaying on the server side: \<open>Record::run\<close>
  (\<open>evrp/server/impl/server/record.cpp\<close>) reads events from a listener and writes lines;
  \<open>Playback::run\<close> (\<open>evrp/server/impl/server/playback.cpp\<close>) reads a file, composes events and
  plays them. The listener, the player, the clock (\<open>gettimeofday\<close>) and the stop requests
  (signal, cancel flag, cancelled call) are parameters on one world. The recording loop may
  run for ever and the writes may be retried for ever, so both are options.
\<close>

section \<open>Record\<close>

record 'w IInputListener =
  il_start :: "DeviceKind list \<Rightarrow> 'w \<Rightarrow> bool \<times> 'w"
  il_wait :: "int \<Rightarrow> 'w \<Rightarrow> bool \<times> 'w"
  il_read :: "'w \<Rightarrow> InputEvent list \<times> 'w"
  il_cancel :: "'w \<Rightarrow> 'w"

text \<open>\<open>re_stop\<close>: \<open>sigint.stopRequested() || externalStopRequested() || cancelWhen_()\<close>.\<close>

record 'w record_env =
  re_io :: "'w IFileSystem"
  re_listener :: "'w IInputListener"
  re_tod :: "'w \<Rightarrow> int \<times> int"
  re_stop :: "'w \<Rightarrow> bool"

record Record =
  rc_listener :: bool
  rc_fs :: bool
  rc_kinds :: "DeviceKind list"
  rc_outputPath :: string
  rc_mode :: KeyboardCtrlCFilterMode

text \<open>The constructor; \<open>get\<close> looks a setting up, \<open>None\<close> is a null setting.\<close>

definition newRecord :: "(string \<Rightarrow> any) option \<Rightarrow> bool \<Rightarrow> bool \<Rightarrow> Record" where
  "newRecord cfg listener fs =
     (case cfg of
        None \<Rightarrow> \<lparr>rc_listener = listener, rc_fs = fs, rc_kinds = [], rc_outputPath = [], rc_mode = kEndingOnly\<rparr>
      | Some get \<Rightarrow>
          \<lparr>rc_listener = listener, rc_fs = fs,
           rc_kinds = (case get ''kinds'' of AKinds ks \<Rightarrow> ks | _ \<Rightarrow> []),
           rc_outputPath = getString (get ''outputPath'') [],
           rc_mode = keyboardCtrlCFilterModeFromLabel (getString (get ''keyboardCtrlCFilter'') ''ending'')\<rparr>)"

text \<open>The variables of a run; \<open>keyboardFilter\<close> is the member \<open>keyboardFilterState_\<close>, in its initial
  value on the first run of an object.\<close>

record rec_state =
  baselineUs :: int
  lastClientEventUs :: int
  writeOk :: bool
  keyboardFilter :: keyboard_filter_state

definition rec_init :: rec_state where
  "rec_init = \<lparr>baselineUs = -1, lastClientEventUs = -1, writeOk = True, keyboardFilter = filter_init\<rparr>"

definition todUs :: "'w record_env \<Rightarrow> 'w \<Rightarrow> int" where
  "todUs env w = fst (re_tod env w) * 1000000 + snd (re_tod env w)"

definition writeLine ::
  "'w record_env \<Rightarrow> int \<Rightarrow> string \<Rightarrow> rec_state \<times> 'w \<Rightarrow> (rec_state \<times> 'w) option" where
  "writeLine env outFd line = (\<lambda>(rs, w).
     if \<not> writeOk rs then Some (rs, w)
     else case writeOutput (re_io env) outFd line w of
       None \<Rightarrow> None
     | Some (ok, w1) \<Rightarrow>
        if \<not> ok then Some (rs\<lparr>writeOk := False\<rparr>, w1)
        else (case writeOutput (re_io env) outFd [CHR 0x0A] w1 of
                None \<Rightarrow> None
              | Some (ok2, w2) \<Rightarrow> Some (if ok2 then rs else rs\<lparr>writeOk := False\<rparr>, w2)))"

definition inputUs :: "InputEvent \<Rightarrow> int" where
  "inputUs ine = ie_timeSec ine * 1000000 + ie_timeUsec ine"

definition toEvent :: "InputEvent \<Rightarrow> Event" where
  "toEvent ine =
     \<lparr>ev_sec = ie_timeSec ine, ev_usec = ie_timeUsec ine, ev_type = ucast (ie_type ine),
      ev_code = ucast (ie_code ine), ev_value = ie_value ine\<rparr>"

definition fromEvent :: "Event \<Rightarrow> InputEvent" where
  "fromEvent e =
     \<lparr>ie_device = kKeyboard, ie_timeSec = ev_sec e, ie_timeUsec = ev_usec e, ie_type = ucast (ev_type e),
      ie_code = ucast (ev_code e), ie_value = ev_value e\<rparr>"

text \<open>\<open>start\<close> is \<open>sessionStart\<close> in microseconds.\<close>

definition writeEventLine ::
  "'w record_env \<Rightarrow> int \<Rightarrow> int \<Rightarrow> InputEvent \<Rightarrow> rec_state \<times> 'w \<Rightarrow> (rec_state \<times> 'w) option" where
  "writeEventLine env start outFd ine = (\<lambda>(rs, w).
     if \<not> writeOk rs then Some (rs, w)
     else
       let currentUs = inputUs ine;
           leadingUs = todUs env w - start;
           lead = (if baselineUs rs < 0 then
                     (if leadingUs > 0
                      then writeLine env outFd (formatLeadingLine leadingUs) (rs\<lparr>baselineUs := currentUs\<rparr>, w)
                      else Some (rs\<lparr>baselineUs := currentUs\<rparr>, w))
                   else Some (rs, w))
       in case lead of
            None \<Rightarrow> None
          | Some (rs1, w1) \<Rightarrow>
              if \<not> writeOk rs1 then Some (rs1, w1)
              else (case writeLine env outFd
                           (formatEventLine (ie_device ine) (toEvent ine) (currentUs - baselineUs rs1)) (rs1, w1) of
                      None \<Rightarrow> None
                    | Some (rs2, w2) \<Rightarrow> Some (rs2\<lparr>lastClientEventUs := todUs env w2\<rparr>, w2)))"

fun writeEvents ::
  "'w record_env \<Rightarrow> int \<Rightarrow> int \<Rightarrow> InputEvent list \<Rightarrow> rec_state \<times> 'w \<Rightarrow> (rec_state \<times> 'w) option" where
  "writeEvents env start outFd [] st = Some st"
| "writeEvents env start outFd (e # es) st =
     (case writeEventLine env start outFd e st of
        None \<Rightarrow> None
      | Some (rs, w) \<Rightarrow> if \<not> writeOk rs then Some (rs, w) else writeEvents env start outFd es (rs, w))"

text \<open>One event of a batch: keyboard events go through the filter.\<close>

definition recordOne ::
  "'w record_env \<Rightarrow> KeyboardCtrlCFilterMode \<Rightarrow> int \<Rightarrow> int \<Rightarrow> InputEvent \<Rightarrow> rec_state \<times> 'w \<Rightarrow> (rec_state \<times> 'w) option" where
  "recordOne env mode start outFd ine = (\<lambda>(rs, w).
     if ie_device ine = kKeyboard \<and> mode \<noteq> kOff then
       (let (fs, emitted) = processKeyboardEventWithCtrlFilter (toEvent ine) mode (keyboardFilter rs) []
        in writeEvents env start outFd (map fromEvent emitted) (rs\<lparr>keyboardFilter := fs\<rparr>, w))
     else writeEventLine env start outFd ine (rs, w))"

fun recordBatch ::
  "'w record_env \<Rightarrow> KeyboardCtrlCFilterMode \<Rightarrow> int \<Rightarrow> int \<Rightarrow> InputEvent list \<Rightarrow> rec_state \<times> 'w
   \<Rightarrow> (rec_state \<times> 'w) option" where
  "recordBatch env mode start outFd [] st = Some st"
| "recordBatch env mode start outFd (e # es) st =
     (case recordOne env mode start outFd e st of
        None \<Rightarrow> None
      | Some (rs, w) \<Rightarrow> if \<not> writeOk rs then Some (rs, w) else recordBatch env mode start outFd es (rs, w))"

partial_function (option) recordLoop ::
  "'w record_env \<Rightarrow> KeyboardCtrlCFilterMode \<Rightarrow> int \<Rightarrow> int \<Rightarrow> rec_state \<Rightarrow> 'w \<Rightarrow> (rec_state \<times> 'w) option" where
  "recordLoop env mode start outFd rs w =
     (if re_stop env w \<or> \<not> writeOk rs then Some (rs, w)
      else
        let r1 = il_wait (re_listener env) 500 w in
        if \<not> fst r1 then recordLoop env mode start outFd rs (snd r1)
        else
          let r2 = il_read (re_listener env) (snd r1) in
          case recordBatch env mode start outFd (fst r2) (rs, snd r2) of
            None \<Rightarrow> None
          | Some st \<Rightarrow> recordLoop env mode start outFd (fst st) (snd st))"

text \<open>After the loop: what the filter still holds, then the trailing line.\<close>

definition recordFinish ::
  "'w record_env \<Rightarrow> KeyboardCtrlCFilterMode \<Rightarrow> int \<Rightarrow> int \<Rightarrow> rec_state \<times> 'w \<Rightarrow> (rec_state \<times> 'w) option" where
  "recordFinish env mode start outFd = (\<lambda>(rs, w).
     case (if writeOk rs \<and> mode \<noteq> kOff then
             (let (fs, flushed) = flushKeyboardEventFilter mode (keyboardFilter rs) []
              in writeEvents env start outFd (map fromEvent flushed) (rs\<lparr>keyboardFilter := fs\<rparr>, w))
           else Some (rs, w)) of
       None \<Rightarrow> None
     | Some (rs1, w1) \<Rightarrow>
        if writeOk rs1 \<and> lastClientEventUs rs1 \<ge> 0 then
          (let trailingUs = todUs env w1 - lastClientEventUs rs1 in
           if trailingUs > 0 then writeLine env outFd (formatTrailingLine trailingUs) (rs1, w1) else Some (rs1, w1))
        else Some (rs1, w1))"

definition recordBody ::
  "'w record_env \<Rightarrow> KeyboardCtrlCFilterMode \<Rightarrow> int \<Rightarrow> int \<Rightarrow> 'w \<Rightarrow> (rec_state \<times> 'w) option" where
  "recordBody env mode start outFd w =
     (case recordLoop env mode start outFd rec_init w of
        None \<Rightarrow> None
      | Some st \<Rightarrow> recordFinish env mode start outFd st)"

abbreviation (input) "O_RECORD \<equiv> (O_WRONLY OR O_CREAT OR O_TRUNC)"

definition recordRun :: "'w record_env \<Rightarrow> Record \<Rightarrow> 'w \<Rightarrow> (int \<times> 'w) option" where
  "recordRun env self w =
     (if \<not> rc_listener self then Some (1, w)
      else if \<not> rc_fs self then Some (1, w)
      else
        let (started, w1) = il_start (re_listener env) (rc_kinds self) w in
        if \<not> started then Some (1, w1)
        else
          let (outFd, w2) = openFd (re_io env) (rc_outputPath self) O_RECORD 420 w1 in
          if outFd < 0 then Some (1, il_cancel (re_listener env) w2)
          else
            let closing = (\<lambda>w. il_cancel (re_listener env)
                    (if rc_outputPath self \<noteq> [] then closeFd (re_io env) outFd w else w))
            in case recordBody env (rc_mode self) (todUs env w2) outFd w2 of
                 None \<Rightarrow> None
               | Some (rs, w3) \<Rightarrow>
                   if \<not> writeOk rs then Some (1, closing w3)
                   else let (ok, w4) = flushFd (re_io env) outFd w3
                        in Some (if ok then 0 else 1, closing w4))"

section \<open>Playback\<close>

text \<open>What the constructor reads: the path of the recording.\<close>

definition playbackPathOf :: "(string \<Rightarrow> any) option \<Rightarrow> string" where
  "playbackPathOf cfg = (case cfg of None \<Rightarrow> [] | Some get \<Rightarrow> getString (get ''playbackPath'') [])"

definition deviceUploadAndPlay :: "'w IPlayback \<Rightarrow> InputEvent list \<Rightarrow> 'w \<Rightarrow> bool \<times> 'w" where
  "deviceUploadAndPlay remote events w =
     (if events = [] then (True, w)
      else
        let ((ok, up), w1) = pb_upload remote events w in
        if \<not> ok \<or> sc_code up \<noteq> 0 then (False, w1)
        else let ((ok2, play), w2) = pb_playback remote w1 in
             if \<not> ok2 \<or> sc_code play \<noteq> 0 then (False, w2) else (True, w2))"

definition playbackRun ::
  "'w IFileSystem \<Rightarrow> 'w lua_host \<Rightarrow> ('w \<Rightarrow> bool) \<Rightarrow> 'w IPlayback option \<Rightarrow> bool \<Rightarrow> string \<Rightarrow> 'w \<Rightarrow> (int \<times> 'w) option" where
  "playbackRun io h sigint remote fs playbackPath w =
     (if playbackPath = [] then Some (1, w)
      else if remote = None then Some (1, w)
      else if \<not> fs then Some (1, w)
      else
        let (inFd, w1) = openFd io playbackPath O_RDONLY 0 w in
        if inFd < 0 then Some (1, w1)
        else case readInputAll io inFd w1 of
          None \<Rightarrow> None
        | Some (ok, content, w2) \<Rightarrow>
            if \<not> ok then Some (1, closeFd io inFd w2)
            else
              let ((composeErr, events), w3) = toEvents h content w2 in
              if composeErr \<noteq> 0 then Some (1, closeFd io inFd w3)
              else if events = [] then Some (1, closeFd io inFd w3)
              else if sigint w3 then Some (1, closeFd io inFd w3)
              else let (played, w4) = deviceUploadAndPlay (the remote) events w3
                   in Some (if played then 0 else 1, closeFd io inFd w4))"

section \<open>What a recording says\<close>

text \<open>The events of a run, after the keyboard filter.\<close>

fun recFilter ::
  "KeyboardCtrlCFilterMode \<Rightarrow> keyboard_filter_state \<Rightarrow> InputEvent list \<Rightarrow> keyboard_filter_state \<times> InputEvent list" where
  "recFilter mode s [] = (s, [])"
| "recFilter mode s (e # es) =
     (if ie_device e = kKeyboard \<and> mode \<noteq> kOff then
        (let (s1, out) = processKeyboardEventWithCtrlFilter (toEvent e) mode s [];
             (s2, rest) = recFilter mode s1 es
         in (s2, map fromEvent out @ rest))
      else let (s2, rest) = recFilter mode s es in (s2, e # rest))"

definition recFlush :: "KeyboardCtrlCFilterMode \<Rightarrow> keyboard_filter_state \<Rightarrow> InputEvent list" where
  "recFlush mode s = (if mode = kOff then [] else map fromEvent (snd (flushKeyboardEventFilter mode s [])))"

definition recordedEvents :: "KeyboardCtrlCFilterMode \<Rightarrow> InputEvent list \<Rightarrow> InputEvent list" where
  "recordedEvents mode ins =
     (let (s, out) = recFilter mode filter_init ins in out @ recFlush mode s)"

text \<open>An event as the file has it: relative to the baseline.\<close>

definition relEvent :: "int \<Rightarrow> InputEvent \<Rightarrow> InputEvent" where
  "relEvent base e =
     setEventTimeUs (recordFieldsToEvent (ie_device e) (ucast (ie_type e)) (ucast (ie_code e)) (ie_value e))
       (inputUs e - base)"

text \<open>What the events satisfy: a known device, a time from the epoch on, fields of the kernel's widths.\<close>

definition input_ok :: "InputEvent \<Rightarrow> bool" where
  "input_ok e \<longleftrightarrow> ie_device e \<noteq> kUnspecified \<and> 0 \<le> inputUs e \<and> inputUs e < 2 ^ 62 \<and> in_i32 (ie_value e)
     \<and> ie_type e < 2 ^ 16 \<and> ie_code e < 2 ^ 16"

text \<open>\<open>content w\<close>: the bytes written to the output; \<open>history w\<close>: the events read so far.
  Reading and waiting do not write the file, writing the file reads no events.\<close>

definition record_world ::
  "'w record_env \<Rightarrow> ('w \<Rightarrow> int \<Rightarrow> string) \<Rightarrow> ('w \<Rightarrow> InputEvent list) \<Rightarrow> bool" where
  "record_world env content history \<longleftrightarrow>
     posix_write (re_io env) content
     \<and> (\<forall>fd d w. history (snd (io_write (re_io env) fd d w)) = history w)
     \<and> (\<forall>t w. content (snd (il_wait (re_listener env) t w)) = content w
              \<and> history (snd (il_wait (re_listener env) t w)) = history w)
     \<and> (\<forall>w. content (snd (il_read (re_listener env) w)) = content w
            \<and> history (snd (il_read (re_listener env) w)) = history w @ fst (il_read (re_listener env) w)
            \<and> list_all input_ok (fst (il_read (re_listener env) w)))
     \<and> (\<forall>w. 0 \<le> todUs env w \<and> todUs env w < 2 ^ 62)"

text \<open>The calls around the loop: \<open>O_TRUNC\<close> opens an empty file, flushing and closing write
  nothing more to it.\<close>

definition record_files ::
  "'w record_env \<Rightarrow> ('w \<Rightarrow> int \<Rightarrow> string) \<Rightarrow> ('w \<Rightarrow> InputEvent list) \<Rightarrow> bool" where
  "record_files env content history \<longleftrightarrow>
     (\<forall>ks w. history (snd (il_start (re_listener env) ks w)) = history w)
     \<and> (\<forall>w. content (il_cancel (re_listener env) w) = content w \<and> history (il_cancel (re_listener env) w) = history w)
     \<and> (\<forall>p m w. history (snd (io_open (re_io env) p O_RECORD m w)) = history w
          \<and> (fst (io_open (re_io env) p O_RECORD m w) < 0
             \<or> content (snd (io_open (re_io env) p O_RECORD m w)) (fst (io_open (re_io env) p O_RECORD m w)) = []))
     \<and> (\<forall>fd w. content (snd (io_close (re_io env) fd w)) = content w \<and> history (snd (io_close (re_io env) fd w)) = history w)
     \<and> (\<forall>fd w. content (snd (io_fsync (re_io env) fd w)) = content w \<and> history (snd (io_fsync (re_io env) fd w)) = history w)
     \<and> (\<forall>w. content (snd (io_fflushStdout (re_io env) w)) = content w
          \<and> history (snd (io_fflushStdout (re_io env) w)) = history w)"

text \<open>What a step of the recording added to the file, the lines of the events \<open>out\<close>: the baseline
  is the time of the first event ever written.\<close>

definition base_ok :: "rec_state \<Rightarrow> bool" where
  "base_ok rs \<longleftrightarrow> baselineUs rs = -1 \<or> 0 \<le> baselineUs rs \<and> baselineUs rs < 2 ^ 62"

definition wrote ::
  "('w \<Rightarrow> int \<Rightarrow> string) \<Rightarrow> int \<Rightarrow> rec_state \<times> 'w \<Rightarrow> rec_state \<times> 'w \<Rightarrow> InputEvent list \<Rightarrow> bool" where
  "wrote content fd = (\<lambda>(rs, w) (rs', w') out.
     base_ok rs'
     \<and> baselineUs rs' = (if baselineUs rs < 0 \<and> out \<noteq> [] then inputUs (hd out) else baselineUs rs)
     \<and> (\<exists>ls. list_all line_ok ls \<and> content w' fd = content w fd @ recordText ls
            \<and> eventsOf ls = map (relEvent (baselineUs rs')) out))"

section \<open>Lemmas\<close>

lemma recordText_append: "recordText (xs @ ys) = recordText xs @ recordText ys"
  by (simp add: recordText_def)

lemma recordText_one: "recordText [l] = lineOf l @ [CHR 0x0A]"
  by (simp add: recordText_def)

lemma wrote_refl: "base_ok rs \<Longrightarrow> content w' fd = content w fd \<Longrightarrow> wrote content fd (rs, w) (rs, w') []"
  by (auto simp: wrote_def recordText_def intro: exI [of _ "[]"])

lemma wrote_trans:
  assumes "wrote content fd st st1 xs" and "wrote content fd st1 st2 ys" and "list_all input_ok xs"
  shows "wrote content fd st st2 (xs @ ys)"
proof -
  obtain rs w where st: "st = (rs, w)" by (cases st)
  obtain rs1 w1 where st1: "st1 = (rs1, w1)" by (cases st1)
  obtain rs2 w2 where st2: "st2 = (rs2, w2)" by (cases st2)
  obtain ls1 where l1: "list_all line_ok ls1" "content w1 fd = content w fd @ recordText ls1"
    "eventsOf ls1 = map (relEvent (baselineUs rs1)) xs"
    using assms(1) by (auto simp: wrote_def st st1)
  obtain ls2 where l2: "list_all line_ok ls2" "content w2 fd = content w1 fd @ recordText ls2"
    "eventsOf ls2 = map (relEvent (baselineUs rs2)) ys"
    using assms(2) by (auto simp: wrote_def st1 st2)
  have b: "xs \<noteq> [] \<Longrightarrow> baselineUs rs1 \<ge> 0"
    using assms(1,3) by (cases xs) (auto simp: wrote_def st st1 input_ok_def split: if_splits)
  then have same: "xs \<noteq> [] \<Longrightarrow> baselineUs rs2 = baselineUs rs1"
    using assms(2) by (auto simp: wrote_def st1 st2)
  have "eventsOf (ls1 @ ls2) = map (relEvent (baselineUs rs2)) (xs @ ys)"
    using l1(3) l2(3) same by (cases "xs = []") (simp_all add: eventsOf_append)
  moreover have "baselineUs rs2 = (if baselineUs rs < 0 \<and> xs @ ys \<noteq> [] then inputUs (hd (xs @ ys)) else baselineUs rs)"
    using assms(1,2) same by (cases "xs = []") (auto simp: wrote_def st st1 st2)
  ultimately show ?thesis using assms(2) l1 l2
    by (auto simp: wrote_def st st1 st2 recordText_append intro!: exI [of _ "ls1 @ ls2"])
qed

lemma wrote_filter [simp]:
  "wrote content fd (rs\<lparr>keyboardFilter := f\<rparr>, w) st = wrote content fd (rs, w) st"
  by (auto simp: wrote_def fun_eq_iff split: prod.split)

text \<open>The parts of \<open>record_world\<close> that the steps use.\<close>

lemma rw_write: "record_world env content history \<Longrightarrow> posix_write (re_io env) content"
  and rw_history: "record_world env content history \<Longrightarrow> history (snd (io_write (re_io env) fd' d w)) = history w"
  and rw_wait: "record_world env content history \<Longrightarrow> content (snd (il_wait (re_listener env) t w)) = content w"
    "record_world env content history \<Longrightarrow> history (snd (il_wait (re_listener env) t w)) = history w"
  and rw_read: "record_world env content history \<Longrightarrow> content (snd (il_read (re_listener env) w)) = content w"
    "record_world env content history \<Longrightarrow>
       history (snd (il_read (re_listener env) w)) = history w @ fst (il_read (re_listener env) w)"
    "record_world env content history \<Longrightarrow> list_all input_ok (fst (il_read (re_listener env) w))"
  and rw_tod: "record_world env content history \<Longrightarrow> 0 \<le> todUs env w \<and> todUs env w < 2 ^ 62"
  by (simp_all add: record_world_def)

lemma writeLine_result:
  assumes rw: "record_world env content history" and "writeLine env fd line (rs, w) = Some (rs', w')"
    and "writeOk rs"
  shows "history w' = history w"
    and "writeOk rs' \<Longrightarrow> rs' = rs \<and> content w' fd = content w fd @ line @ [CHR 0x0A]"
proof -
  note wo = writeOutput_result [of "re_io env" content history, OF rw_write [OF rw] rw_history [OF rw]]
  obtain ok w1 where 1: "writeOutput (re_io env) fd line w = Some (ok, w1)"
    using assms(2,3) by (auto simp: writeLine_def split: option.splits)
  have "history w' = history w \<and> (writeOk rs' \<longrightarrow> rs' = rs \<and> content w' fd = content w fd @ line @ [CHR 0x0A])"
  proof (cases ok)
    case True
    obtain ok2 w2 where 2: "writeOutput (re_io env) fd [CHR 0x0A] w1 = Some (ok2, w2)"
      using assms(2,3) 1 True by (auto simp: writeLine_def split: option.splits)
    then have "w' = w2" "rs' = (if ok2 then rs else rs\<lparr>writeOk := False\<rparr>)"
      using assms(2,3) 1 True by (simp_all add: writeLine_def)
    then show ?thesis using wo [OF 1] wo [OF 2] True by auto
  next
    case False
    then show ?thesis using assms(2,3) 1 wo(2) [OF 1] by (auto simp: writeLine_def)
  qed
  then show "history w' = history w"
    and "writeOk rs' \<Longrightarrow> rs' = rs \<and> content w' fd = content w fd @ line @ [CHR 0x0A]" by auto
qed

lemma ts_ok_diff: "0 \<le> a \<Longrightarrow> a < 2 ^ 62 \<Longrightarrow> 0 \<le> b \<Longrightarrow> b < 2 ^ 62 \<Longrightarrow> ts_ok (a - b)"
  by (simp add: ts_ok_def)

lemma eventsOf_one: "eventsOf [REvent (ie_device e) (toEvent e) (inputUs e - b)] = [relEvent b e]"
  by (simp add: relEvent_def toEvent_def)

lemma line_ok_event: "input_ok e \<Longrightarrow> 0 \<le> b \<Longrightarrow> b < 2 ^ 62 \<Longrightarrow> line_ok (REvent (ie_device e) (toEvent e) (inputUs e - b))"
  by (simp add: input_ok_def toEvent_def ts_ok_diff)

text \<open>The event's own line, once there is a baseline.\<close>

lemma eventLine_wrote:
  assumes rw: "record_world env content history" and "input_ok e" and "0 \<le> baselineUs rs" and "base_ok rs"
    and "writeLine env fd (formatEventLine (ie_device e) (toEvent e) (inputUs e - baselineUs rs)) (rs, w) = Some (rs', w')"
    and "writeOk rs" and "writeOk rs'"
  shows "wrote content fd (rs, w) (rs'\<lparr>lastClientEventUs := t\<rparr>, w') [e]" and "rs' = rs" and "history w' = history w"
proof -
  let ?l = "REvent (ie_device e) (toEvent e) (inputUs e - baselineUs rs)"
  have b: "baselineUs rs < 2 ^ 62" using assms(3,4) by (auto simp: base_ok_def)
  note r = writeLine_result [OF rw assms(5,6)]
  show "rs' = rs" "history w' = history w" using r assms(7) by simp_all
  then show "wrote content fd (rs, w) (rs'\<lparr>lastClientEventUs := t\<rparr>, w') [e]"
    using r(2) [OF assms(7)] assms(3,4) eventsOf_one [of e "baselineUs rs"] line_ok_event [OF assms(2,3) b]
    by (auto simp: wrote_def base_ok_def recordText_one intro!: exI [of _ "[?l]"] simp del: eventsOf.simps line_ok.simps)
qed

lemma writeEventLine_wrote:
  assumes rw: "record_world env content history" and e: "input_ok e" and bo: "base_ok rs" and ok: "writeOk rs"
    and start: "0 \<le> start" "start < 2 ^ 62"
    and run: "writeEventLine env start fd e (rs, w) = Some (rs', w')" and ok': "writeOk rs'"
  shows "wrote content fd (rs, w) (rs', w') [e] \<and> history w' = history w \<and> keyboardFilter rs' = keyboardFilter rs"
proof (cases "baselineUs rs < 0")
  case False
  then obtain rs2 where wl: "writeLine env fd (formatEventLine (ie_device e) (toEvent e) (inputUs e - baselineUs rs)) (rs, w) = Some (rs2, w')"
    and rs': "rs' = rs2\<lparr>lastClientEventUs := todUs env w'\<rparr>"
    using run ok by (auto simp: writeEventLine_def split: option.splits)
  have "0 \<le> baselineUs rs" "writeOk rs2" using False ok' rs' by simp_all
  note el = eventLine_wrote [OF rw e this(1) bo wl ok this(2)]
  have "keyboardFilter rs' = keyboardFilter rs" using el(2) rs' by simp
  then show ?thesis using el(1) [of "todUs env w'"] el(3) unfolding rs' by blast
next
  case True
  let ?rs = "rs\<lparr>baselineUs := inputUs e\<rparr>"
  let ?lead = "if todUs env w - start > 0 then writeLine env fd (formatLeadingLine (todUs env w - start)) (?rs, w) else Some (?rs, w)"
  have base: "base_ok ?rs" "0 \<le> baselineUs ?rs" using e by (simp_all add: base_ok_def input_ok_def)
  obtain rs1 w1 where l: "?lead = Some (rs1, w1)"
    using run ok True by (auto simp: writeEventLine_def Let_def split: option.splits if_splits)
  have ok1: "writeOk rs1" using run ok True l ok' by (auto simp: writeEventLine_def Let_def split: option.splits if_splits)
  have lead: "rs1 = ?rs \<and> history w1 = history w \<and>
      (\<exists>ls. list_all line_ok ls \<and> content w1 fd = content w fd @ recordText ls \<and> eventsOf ls = [])"
  proof (cases "todUs env w - start > 0")
    case True
    have "ts_ok (todUs env w - start)" using rw_tod [OF rw, of w] start by (intro ts_ok_diff) auto
    moreover have wl: "writeLine env fd (formatLeadingLine (todUs env w - start)) (?rs, w) = Some (rs1, w1)"
      using l True by simp
    ultimately show ?thesis
      using writeLine_result [OF rw wl] ok ok1
      by (auto simp: recordText_one intro!: exI [of _ "[RLeading (todUs env w - start)]"])
  next
    case False
    then show ?thesis using l by (auto simp: recordText_def intro!: exI [of _ "[]"])
  qed
  obtain rs2 where wl: "writeLine env fd (formatEventLine (ie_device e) (toEvent e) (inputUs e - baselineUs ?rs)) (?rs, w1) = Some (rs2, w')"
    "rs' = rs2\<lparr>lastClientEventUs := todUs env w'\<rparr>"
    using run ok True l ok1 lead by (auto simp: writeEventLine_def Let_def split: option.splits if_splits)
  have ev: "wrote content fd (?rs, w1) (rs', w') [e]" "rs2 = ?rs" "history w' = history w1"
    using eventLine_wrote [OF rw e base(2,1) wl(1)] ok ok' wl(2) by auto
  obtain ls where ls: "list_all line_ok ls" "content w1 fd = content w fd @ recordText ls" "eventsOf ls = []"
    using lead by blast
  obtain ls2 where "list_all line_ok ls2" "content w' fd = content w1 fd @ recordText ls2"
    "eventsOf ls2 = map (relEvent (baselineUs rs')) [e]" "base_ok rs'" "baselineUs rs' = inputUs e"
    using ev(1) base by (auto simp: wrote_def)
  then have "wrote content fd (rs, w) (rs', w') [e]"
    using ls True by (auto simp: wrote_def recordText_append eventsOf_append intro!: exI [of _ "ls @ ls2"])
  then show ?thesis using lead ev wl(2) by simp
qed

lemma wrote_base: "wrote content fd st (rs', w') out \<Longrightarrow> base_ok rs'"
  by (cases st) (simp add: wrote_def)

lemma writeEvents_wrote:
  assumes rw: "record_world env content history" and "list_all input_ok es" and "base_ok rs" and "writeOk rs"
    and start: "0 \<le> start" "start < 2 ^ 62"
    and "writeEvents env start fd es (rs, w) = Some (rs', w')" and "writeOk rs'"
  shows "wrote content fd (rs, w) (rs', w') es \<and> history w' = history w \<and> keyboardFilter rs' = keyboardFilter rs"
  using assms(2-4,7)
proof (induction es arbitrary: rs w)
  case Nil
  then show ?case by (auto intro: wrote_refl)
next
  case (Cons e es)
  obtain rs1 w1 where 1: "writeEventLine env start fd e (rs, w) = Some (rs1, w1)"
    using Cons.prems(4) by (auto split: option.splits)
  have ok1: "writeOk rs1" using Cons.prems(4) 1 assms(8) by (auto split: if_splits)
  have w1: "wrote content fd (rs, w) (rs1, w1) [e]" "history w1 = history w" "keyboardFilter rs1 = keyboardFilter rs"
    using writeEventLine_wrote [OF rw _ Cons.prems(2,3) start 1 ok1] Cons.prems(1) by auto
  have "writeEvents env start fd es (rs1, w1) = Some (rs', w')" using Cons.prems(4) 1 ok1 by simp
  then have "wrote content fd (rs1, w1) (rs', w') es" "history w' = history w1" "keyboardFilter rs' = keyboardFilter rs1"
    using Cons.IH [OF _ wrote_base [OF w1(1)] ok1] Cons.prems(1) by auto
  then show ?case using wrote_trans [OF w1(1), of "(rs', w')" es] w1 Cons.prems(1) by simp
qed

text \<open>The filter's pending events are events that were read.\<close>

definition pend_ok :: "keyboard_filter_state \<Rightarrow> bool" where
  "pend_ok s \<longleftrightarrow> filter_inv s \<and> (\<forall>e \<in> set (pending_events s). input_ok (fromEvent e))"

lemma pend_ok_init: "pend_ok filter_init"
  by (simp add: pend_ok_def filter_inv_init) (simp add: filter_init_def)

lemma ucast_u16 [simp]: "x < 0x10000 \<Longrightarrow> ucast (ucast (x :: u32) :: u16) = x"
  by transfer (simp add: take_bit_eq_mod)

lemma input_ok_round: "input_ok e \<Longrightarrow> input_ok (fromEvent (toEvent e))"
  by (simp add: input_ok_def fromEvent_def toEvent_def inputUs_def)

lemma process_pend_ok:
  assumes "pend_ok s" and "mode \<noteq> kOff" and "input_ok (fromEvent e)"
    and "processKeyboardEventWithCtrlFilter e mode s [] = (s1, out)"
  shows "pend_ok s1" and "list_all input_ok (map fromEvent out)"
proof -
  have "filter_inv s" using assms(1) by (simp add: pend_ok_def)
  moreover from process_subseq [OF this assms(2), of e]
  have "set out \<union> set (pending_events s1) \<subseteq> insert e (set (pending_events s))"
    using assms(4) by (auto dest: list_emb_set)
  ultimately show "pend_ok s1" "list_all input_ok (map fromEvent out)"
    using assms process_inv [of s mode e "[]"] by (auto simp: pend_ok_def list_all_iff)
qed

lemma recFilter_append:
  "recFilter mode s (xs @ ys) =
     (fst (recFilter mode (fst (recFilter mode s xs)) ys),
      snd (recFilter mode s xs) @ snd (recFilter mode (fst (recFilter mode s xs)) ys))"
  by (induction xs arbitrary: s) (simp_all add: split_beta Let_def)

lemma recFilter_ok:
  assumes "pend_ok s" and "list_all input_ok es"
  shows "pend_ok (fst (recFilter mode s es)) \<and> list_all input_ok (snd (recFilter mode s es))"
  using assms
proof (induction es arbitrary: s)
  case (Cons e es)
  show ?case
  proof (cases "ie_device e = kKeyboard \<and> mode \<noteq> kOff")
    case True
    obtain s1 out where p: "processKeyboardEventWithCtrlFilter (toEvent e) mode s [] = (s1, out)" by fastforce
    have "input_ok (fromEvent (toEvent e))" "mode \<noteq> kOff" using Cons.prems(2) True by (simp_all add: input_ok_round)
    note q = process_pend_ok [OF Cons.prems(1) this(2,1) p]
    then show ?thesis using Cons.IH [OF q(1)] Cons.prems(2) True p by (simp add: split_beta Let_def)
  next
    case False
    then show ?thesis using Cons.IH [OF Cons.prems(1)] Cons.prems(2) by (auto simp: split_beta Let_def)
  qed
qed simp

text \<open>One event, a batch, the loop: each adds the lines of what the filter lets through.\<close>

definition rec_ok :: "rec_state \<Rightarrow> bool" where
  "rec_ok rs \<longleftrightarrow> base_ok rs \<and> pend_ok (keyboardFilter rs) \<and> writeOk rs"

definition rec_adds ::
  "('w \<Rightarrow> int \<Rightarrow> string) \<Rightarrow> int \<Rightarrow> KeyboardCtrlCFilterMode \<Rightarrow> rec_state \<times> 'w \<Rightarrow> rec_state \<times> 'w \<Rightarrow> InputEvent list \<Rightarrow> bool" where
  "rec_adds content fd mode st st' ins \<longleftrightarrow>
     (let r = recFilter mode (keyboardFilter (fst st)) ins in
      rec_ok (fst st') \<and> list_all input_ok ins \<and> wrote content fd st st' (snd r) \<and> keyboardFilter (fst st') = fst r)"

lemma rec_adds_trans:
  assumes "rec_adds content fd mode st st1 xs" and "rec_adds content fd mode st1 st2 ys" and "rec_ok (fst st)"
  shows "rec_adds content fd mode st st2 (xs @ ys)"
proof -
  have "list_all input_ok (snd (recFilter mode (keyboardFilter (fst st)) xs))"
    using recFilter_ok assms(1,3) by (auto simp: rec_adds_def rec_ok_def Let_def)
  then show ?thesis using assms(1,2) wrote_trans [of content fd st st1 _ st2]
    by (simp add: rec_adds_def Let_def recFilter_append)
qed

lemma rec_adds_refl: "rec_ok rs \<Longrightarrow> content w' = content w \<Longrightarrow> rec_adds content fd mode (rs, w) (rs, w') []"
  by (simp add: rec_adds_def rec_ok_def wrote_refl)

lemma recordOne_adds:
  assumes rw: "record_world env content history" and e: "input_ok e" and rs: "rec_ok rs"
    and start: "0 \<le> start" "start < 2 ^ 62"
    and run: "recordOne env mode start fd e (rs, w) = Some (rs', w')" and ok': "writeOk rs'"
  shows "rec_adds content fd mode (rs, w) (rs', w') [e] \<and> history w' = history w"
proof (cases "ie_device e = kKeyboard \<and> mode \<noteq> kOff")
  case True
  obtain s1 out where p: "processKeyboardEventWithCtrlFilter (toEvent e) mode (keyboardFilter rs) [] = (s1, out)" by fastforce
  have po: "pend_ok (keyboardFilter rs)" using rs by (simp add: rec_ok_def)
  have "mode \<noteq> kOff" using True by simp
  note q = process_pend_ok [OF po this input_ok_round [OF e] p]
  have run': "writeEvents env start fd (map fromEvent out) (rs\<lparr>keyboardFilter := s1\<rparr>, w) = Some (rs', w')"
    using run True p by (simp add: recordOne_def)
  have "base_ok (rs\<lparr>keyboardFilter := s1\<rparr>)" "writeOk (rs\<lparr>keyboardFilter := s1\<rparr>)"
    using rs by (simp_all add: rec_ok_def base_ok_def)
  from writeEvents_wrote [OF rw q(2) this start run' ok'] show ?thesis
    using True p q(1) e ok' by (auto simp: rec_adds_def rec_ok_def dest: wrote_base)
next
  case False
  then have run': "writeEventLine env start fd e (rs, w) = Some (rs', w')" using run by (auto simp: recordOne_def)
  have rec: "recFilter mode (keyboardFilter rs) [e] = (keyboardFilter rs, [e])" using False by auto
  have "base_ok rs" "writeOk rs" using rs by (simp_all add: rec_ok_def)
  from writeEventLine_wrote [OF rw e this start run' ok'] show ?thesis
    using rs e ok' by (auto simp only: rec_adds_def rec_ok_def rec Let_def fst_conv snd_conv list.pred_inject dest: wrote_base)
qed

lemma recordBatch_adds:
  assumes rw: "record_world env content history" and "list_all input_ok es" and "rec_ok rs"
    and start: "0 \<le> start" "start < 2 ^ 62"
    and "recordBatch env mode start fd es (rs, w) = Some (rs', w')" and ok': "writeOk rs'"
  shows "rec_adds content fd mode (rs, w) (rs', w') es \<and> history w' = history w"
  using assms(2,3,6)
proof (induction es arbitrary: rs w)
  case Nil
  then show ?case by (auto intro: rec_adds_refl)
next
  case (Cons e es)
  obtain rs1 w1 where 1: "recordOne env mode start fd e (rs, w) = Some (rs1, w1)"
    using Cons.prems(3) by (auto split: option.splits)
  have ok1: "writeOk rs1" using Cons.prems(3) 1 ok' by (auto split: if_splits)
  have e: "input_ok e" using Cons.prems(1) by simp
  have a: "rec_adds content fd mode (rs, w) (rs1, w1) [e]" "history w1 = history w"
    using recordOne_adds [OF rw e Cons.prems(2) start 1 ok1] by auto
  have "recordBatch env mode start fd es (rs1, w1) = Some (rs', w')" using Cons.prems(3) 1 ok1 by simp
  moreover have "rec_ok rs1" using a(1) by (simp add: rec_adds_def Let_def)
  ultimately have b: "rec_adds content fd mode (rs1, w1) (rs', w') es" "history w' = history w1"
    using Cons.IH Cons.prems(1) by auto
  show ?case using rec_adds_trans [OF a(1) b(1)] Cons.prems(2) a(2) b(2) by simp
qed

lemma recordLoop_step:
  assumes rw: "record_world env content history" and start: "0 \<le> start" "start < 2 ^ 62"
    and rs: "rec_ok rs" and batch: "recordBatch env mode start fd (fst (il_read (re_listener env) w)) (rs, snd (il_read (re_listener env) w)) = Some st"
    and ok': "writeOk (fst st)"
  shows "rec_adds content fd mode (rs, w) st (fst (il_read (re_listener env) w))
    \<and> history (snd st) = history w @ fst (il_read (re_listener env) w)"
proof -
  let ?r = "il_read (re_listener env) w"
  obtain rs' w' where st: "st = (rs', w')" by (cases st)
  have "rec_adds content fd mode (rs, snd ?r) (rs', w') (fst ?r) \<and> history w' = history (snd ?r)"
    using recordBatch_adds [OF rw rw_read(3) [OF rw] rs start] batch ok' unfolding st by simp
  moreover have "wrote content fd (rs, snd ?r) = wrote content fd (rs, w)"
    using rw_read(1) [OF rw, of w] by (simp add: wrote_def fun_eq_iff)
  ultimately show ?thesis using rw_read(2) [OF rw, of w] by (simp add: rec_adds_def st)
qed

lemma recordLoop_adds_aux:
  assumes rw: "record_world env content history" and start: "0 \<le> start" "start < 2 ^ 62"
    and "recordLoop env mode start fd rs w = Some r"
  shows "env = env \<longrightarrow> start = start \<longrightarrow> writeOk (fst r) \<longrightarrow> writeOk rs \<and>
    (rec_ok rs \<longrightarrow> (\<exists>ins. rec_adds content fd mode (rs, w) r ins \<and> history (snd r) = history w @ ins))"
proof (rule recordLoop.raw_induct [where P = "\<lambda>env' mode start' fd rs w r. env' = env \<longrightarrow> start' = start \<longrightarrow>
     writeOk (fst r) \<longrightarrow> writeOk rs \<and> (rec_ok rs \<longrightarrow>
       (\<exists>ins. rec_adds content fd mode (rs, w) r ins \<and> history (snd r) = history w @ ins))", OF _ assms(4)], intro impI)
  fix f env' mode start' and fd :: int and rs w r
  assume ih: "\<And>env' mode start' fd rs w r. f env' mode start' fd rs w = Some r \<Longrightarrow> env' = env \<longrightarrow> start' = start \<longrightarrow>
     writeOk (fst r) \<longrightarrow> writeOk rs \<and> (rec_ok rs \<longrightarrow>
       (\<exists>ins. rec_adds content fd mode (rs, w) r ins \<and> history (snd r) = history w @ ins))"
    and body: "(if re_stop env' w \<or> \<not> writeOk rs then Some (rs, w)
      else let r1 = il_wait (re_listener env') 500 w in
        if \<not> fst r1 then f env' mode start' fd rs (snd r1)
        else let r2 = il_read (re_listener env') (snd r1) in
          case recordBatch env' mode start' fd (fst r2) (rs, snd r2) of
            None \<Rightarrow> None | Some st \<Rightarrow> f env' mode start' fd (fst st) (snd st)) = Some r"
    and eqs: "env' = env" "start' = start" and ok': "writeOk (fst r)"
  let ?w1 = "snd (il_wait (re_listener env) 500 w)"
  note wait = rw_wait [OF rw, of 500 w]
  have moved: "rec_adds content fd mode (rs, ?w1) r = rec_adds content fd mode (rs, w) r"
    using wait by (simp add: rec_adds_def wrote_def fun_eq_iff split_beta)
  consider "re_stop env w \<or> \<not> writeOk rs" | "writeOk rs" "\<not> re_stop env w" "\<not> fst (il_wait (re_listener env) 500 w)"
    | "writeOk rs" "\<not> re_stop env w" "fst (il_wait (re_listener env) 500 w)" by blast
  then show "writeOk rs \<and> (rec_ok rs \<longrightarrow> (\<exists>ins. rec_adds content fd mode (rs, w) r ins \<and> history (snd r) = history w @ ins))"
  proof cases
    case 1
    then have "r = (rs, w)" using body eqs by auto
    then show ?thesis using ok' rec_adds_refl [of rs content w w fd mode] by auto
  next
    case 2
    then have "f env mode start fd rs ?w1 = Some r" using body eqs by (simp add: Let_def)
    from ih [OF this] show ?thesis using ok' wait moved by simp
  next
    case 3
    let ?r2 = "il_read (re_listener env) ?w1"
    obtain st where b: "recordBatch env mode start fd (fst ?r2) (rs, snd ?r2) = Some st"
      and f: "f env mode start fd (fst st) (snd st) = Some r"
      using body eqs 3 by (auto simp: Let_def split: option.splits)
    have okst: "writeOk (fst st)" and tail: "rec_ok (fst st) \<Longrightarrow>
        \<exists>ins. rec_adds content fd mode st r ins \<and> history (snd r) = history (snd st) @ ins"
      using ih [OF f] ok' by auto
    show ?thesis
    proof (intro conjI impI)
      assume rs: "rec_ok rs"
      note h = recordLoop_step [OF rw start rs b okst]
      then have "rec_ok (fst st)" by (simp add: rec_adds_def Let_def)
      then obtain ins where "rec_adds content fd mode st r ins" "history (snd r) = history (snd st) @ ins"
        using tail by blast
      then show "\<exists>ins. rec_adds content fd mode (rs, w) r ins \<and> history (snd r) = history w @ ins"
        using h rec_adds_trans [of content fd mode "(rs, ?w1)" st "fst ?r2" r ins] rs wait moved
        by (auto intro!: exI [of _ "fst ?r2 @ ins"])
    qed (rule 3)
  qed
qed

lemma recordLoop_adds:
  assumes "record_world env content history" and "0 \<le> start" "start < 2 ^ 62"
    and "recordLoop env mode start fd rs w = Some r" and "writeOk (fst r)" and "rec_ok rs"
  shows "\<exists>ins. rec_adds content fd mode (rs, w) r ins \<and> history (snd r) = history w @ ins"
  using recordLoop_adds_aux [OF assms(1-4)] assms(5,6) by blast

lemma wrote_nil:
  assumes "base_ok rs" and "list_all line_ok ls" and "eventsOf ls = []" and "content w' fd = content w fd @ recordText ls"
  shows "wrote content fd (rs, w) (rs, w') []"
  using assms by (auto simp: wrote_def)

text \<open>The trailing line is no event.\<close>

lemma trailing_wrote:
  assumes rw: "record_world env content history" and ok: "writeOk rs" "base_ok rs" and d: "ts_ok d"
    and run: "writeLine env fd (formatTrailingLine d) (rs, w) = Some (rs', w')" and ok': "writeOk rs'"
  shows "wrote content fd (rs, w) (rs', w') [] \<and> history w' = history w"
proof -
  have r: "history w' = history w" "rs' = rs" "content w' fd = content w fd @ formatTrailingLine d @ [CHR 0x0A]"
    using writeLine_result [OF rw run ok(1)] ok' by auto
  then have "content w' fd = content w fd @ recordText [RTrailing d]" by (simp add: recordText_one)
  then show ?thesis using wrote_nil [OF ok(2), of "[RTrailing d]" content w' fd w] d r by simp
qed

lemma flush_ok:
  assumes "pend_ok s" and "mode \<noteq> kOff" and "flushKeyboardEventFilter mode s [] = (s1, out)"
  shows "list_all input_ok (map fromEvent out)"
proof -
  have "set out \<subseteq> set (pending_events s)"
    using assms(2,3) closeWindow_subseq [of mode s]
    by (auto simp: flushKeyboardEventFilter_def Let_def split: if_splits dest: list_emb_set)
  then show ?thesis using assms(1) by (auto simp: pend_ok_def list_all_iff)
qed

lemma flushed_wrote:
  assumes rw: "record_world env content history" and rs: "rec_ok rs" and start: "0 \<le> start" "start < 2 ^ 62"
    and run: "(if writeOk rs \<and> mode \<noteq> kOff then
             (let (fs, flushed) = flushKeyboardEventFilter mode (keyboardFilter rs) []
              in writeEvents env start fd (map fromEvent flushed) (rs\<lparr>keyboardFilter := fs\<rparr>, w))
           else Some (rs, w)) = Some (rs', w')" and ok': "writeOk rs'"
  shows "wrote content fd (rs, w) (rs', w') (recFlush mode (keyboardFilter rs)) \<and> history w' = history w"
proof (cases "mode = kOff")
  case True
  then show ?thesis using run rs by (auto simp: recFlush_def rec_ok_def intro: wrote_refl)
next
  case False
  obtain fs fl where f: "flushKeyboardEventFilter mode (keyboardFilter rs) [] = (fs, fl)" by fastforce
  have po: "pend_ok (keyboardFilter rs)" and ok: "writeOk rs" using rs by (simp_all add: rec_ok_def)
  have run': "writeEvents env start fd (map fromEvent fl) (rs\<lparr>keyboardFilter := fs\<rparr>, w) = Some (rs', w')"
    using run f ok False by simp
  have "base_ok (rs\<lparr>keyboardFilter := fs\<rparr>)" "writeOk (rs\<lparr>keyboardFilter := fs\<rparr>)"
    using rs by (simp_all add: rec_ok_def base_ok_def)
  from writeEvents_wrote [OF rw flush_ok [OF po False f] this start run' ok'] show ?thesis
    using False f by (simp add: recFlush_def)
qed

lemma recFlush_ok: "pend_ok s \<Longrightarrow> list_all input_ok (recFlush mode s)"
  using flush_ok [of s mode "fst (flushKeyboardEventFilter mode s [])" "snd (flushKeyboardEventFilter mode s [])"]
  by (simp add: recFlush_def)

lemma recordFinish_wrote:
  assumes rw: "record_world env content history" and rs: "rec_ok rs" and start: "0 \<le> start" "start < 2 ^ 62"
    and run: "recordFinish env mode start fd (rs, w) = Some (rs', w')" and ok': "writeOk rs'"
  shows "wrote content fd (rs, w) (rs', w') (recFlush mode (keyboardFilter rs)) \<and> history w' = history w"
proof -
  let ?fl = "if writeOk rs \<and> mode \<noteq> kOff then
             (let (fs, flushed) = flushKeyboardEventFilter mode (keyboardFilter rs) []
              in writeEvents env start fd (map fromEvent flushed) (rs\<lparr>keyboardFilter := fs\<rparr>, w))
           else Some (rs, w)"
  obtain rs1 w1 where fl: "?fl = Some (rs1, w1)" using run by (auto simp: recordFinish_def split: option.splits)
  let ?d = "todUs env w1 - lastClientEventUs rs1"
  let ?trail = "writeOk rs1 \<and> lastClientEventUs rs1 \<ge> 0 \<and> ?d > 0"
  have rest: "(if ?trail then writeLine env fd (formatTrailingLine ?d) (rs1, w1) else Some (rs1, w1)) = Some (rs', w')"
    using run unfolding recordFinish_def by (auto simp: fl Let_def split: if_splits)
  have ok1: "writeOk rs1" using rest ok' by (auto split: if_splits)
  note a = flushed_wrote [OF rw rs start fl ok1]
  have b: "wrote content fd (rs1, w1) (rs', w') [] \<and> history w' = history w1"
  proof (cases ?trail)
    case True
    then have "ts_ok ?d" using rw_tod [OF rw, of w1] by (simp add: ts_ok_def)
    then show ?thesis using trailing_wrote [OF rw ok1 wrote_base, of content fd "(rs, w)" w1] a rest ok' True by auto
  next
    case False
    then have "rs' = rs1" "w' = w1" using rest by auto
    then show ?thesis using a by (auto intro: wrote_refl dest: wrote_base)
  qed
  have "pend_ok (keyboardFilter rs)" using rs by (simp add: rec_ok_def)
  then show ?thesis using wrote_trans [OF conjunct1 [OF a] conjunct1 [OF b] recFlush_ok] a b by simp
qed

text \<open>A whole recording: the file has the lines of the recorded events, relative to a baseline.\<close>

lemma recordBody_wrote:
  assumes rw: "record_world env content history" and start: "0 \<le> start" "start < 2 ^ 62"
    and run: "recordBody env mode start fd w = Some (rs', w')" and ok': "writeOk rs'"
  shows "\<exists>ins. history w' = history w @ ins \<and> list_all input_ok ins
    \<and> wrote content fd (rec_init, w) (rs', w') (recordedEvents mode ins)"
proof -
  obtain rs1 w1 where l: "recordLoop env mode start fd rec_init w = Some (rs1, w1)"
    and f: "recordFinish env mode start fd (rs1, w1) = Some (rs', w')"
    using run by (auto simp: recordBody_def split: option.splits)
  have init: "rec_ok rec_init" by (simp add: rec_ok_def rec_init_def base_ok_def pend_ok_init)
  have ok1: "writeOk rs1"
    using f ok' by (auto simp: recordFinish_def split: option.splits if_splits)
  obtain ins where ins: "rec_adds content fd mode (rec_init, w) (rs1, w1) ins" "history w1 = history w @ ins"
    using recordLoop_adds [OF rw start l _ init] ok1 by auto
  have kf: "keyboardFilter rec_init = filter_init" by (simp add: rec_init_def)
  let ?r = "recFilter mode filter_init ins"
  have a: "rec_ok rs1" "list_all input_ok ins" "wrote content fd (rec_init, w) (rs1, w1) (snd ?r)" "keyboardFilter rs1 = fst ?r"
    using ins(1) by (simp_all add: rec_adds_def Let_def kf)
  note b = recordFinish_wrote [OF rw a(1) start f ok']
  have "list_all input_ok (snd ?r)" using recFilter_ok [OF pend_ok_init a(2)] by simp
  from wrote_trans [OF a(3) conjunct1 [OF b] this] show ?thesis
    using a b ins(2) by (auto simp: recordedEvents_def split_beta)
qed

section \<open>A device and a disk for the examples\<close>

text \<open>A world that delivers batches of events, takes every byte and is stopped after \<open>dw_left\<close> waits.\<close>

record demo_world =
  dw_left :: nat
  dw_batches :: "InputEvent list list"
  dw_history :: "InputEvent list"
  dw_file :: string

definition demo_io :: "demo_world IFileSystem" where
  "demo_io =
     \<lparr>io_open = (\<lambda>p f m w. (3, w\<lparr>dw_file := []\<rparr>)), io_close = (\<lambda>fd w. (0, w)),
      io_read = (\<lambda>fd k w. ((0, []), w)), io_write = (\<lambda>fd d w. (int (length d), w\<lparr>dw_file := dw_file w @ d\<rparr>)),
      io_poll = (\<lambda>fds t w. ((0, []), w)), io_fsync = (\<lambda>fd w. (0, w)),
      io_fflushStdout = (\<lambda>w. (0, w)), io_errno = (\<lambda>w. 0), io_set_errno = (\<lambda>e w. w)\<rparr>"

definition demo_ev :: "DeviceKind \<Rightarrow> int \<Rightarrow> u32 \<Rightarrow> u32 \<Rightarrow> int \<Rightarrow> InputEvent" where
  "demo_ev k us ty co va = \<lparr>ie_device = k, ie_timeSec = 100, ie_timeUsec = us, ie_type = ty, ie_code = co, ie_value = va\<rparr>"

text \<open>The listener hands out only what a device can deliver.\<close>

definition demo_env :: "demo_world record_env" where
  "demo_env =
     \<lparr>re_io = demo_io,
      re_listener =
        \<lparr>il_start = (\<lambda>ks w. (True, w)),
         il_wait = (\<lambda>t w. (dw_batches w \<noteq> [], w\<lparr>dw_left := dw_left w - 1\<rparr>)),
         il_read = (\<lambda>w. case dw_batches w of [] \<Rightarrow> ([], w)
                       | b # bs \<Rightarrow> let ok = filter input_ok b
                                 in (ok, w\<lparr>dw_batches := bs, dw_history := dw_history w @ ok\<rparr>)),
         il_cancel = (\<lambda>w. w)\<rparr>,
      re_tod = (\<lambda>w. (100, if dw_left w < 1000000 then 1000000 - int (dw_left w) else 0)),
      re_stop = (\<lambda>w. dw_left w = 0)\<rparr>"

section \<open>The recording ends\<close>

text \<open>A stop request comes: \<open>budget w\<close> bounds the waits before it; reading and writing do not
  put it off.\<close>

definition stop_comes :: "'w record_env \<Rightarrow> ('w \<Rightarrow> nat) \<Rightarrow> bool" where
  "stop_comes env budget \<longleftrightarrow>
     (\<forall>w. re_stop env w \<or> budget (snd (il_wait (re_listener env) 500 w)) < budget w)
     \<and> (\<forall>w. budget (snd (il_read (re_listener env) w)) \<le> budget w)
     \<and> (\<forall>fd d w. budget (snd (io_write (re_io env) fd d w)) = budget w)"

text \<open>Total on every argument and leaving the budget alone.\<close>

definition steady :: "('w \<Rightarrow> nat) \<Rightarrow> (rec_state \<times> 'w \<Rightarrow> (rec_state \<times> 'w) option) \<Rightarrow> bool" where
  "steady budget f \<longleftrightarrow> (\<forall>rs w. \<exists>rs' w'. f (rs, w) = Some (rs', w') \<and> budget w' = budget w)"

lemma steadyE:
  assumes "steady budget f" obtains rs' w' where "f (rs, w) = Some (rs', w')" "budget w' = budget w"
  using assms unfolding steady_def by blast

lemma writeLine_steady:
  assumes "posix_write (re_io env) content" and "eintr_progress (re_io env) sig" and "stop_comes env budget"
  shows "steady budget (writeLine env fd line)"
  unfolding steady_def
proof (intro allI)
  fix rs w
  have b: "budget (snd (io_write (re_io env) fd' d w)) = budget w" for fd' d w
    using assms(3) by (simp add: stop_comes_def)
  have wo: "\<exists>ok w'. writeOutput (re_io env) fd d w = Some (ok, w') \<and> budget w' = budget w" for d w
  proof -
    obtain ok w' where o: "writeOutput (re_io env) fd d w = Some (ok, w')"
      using writeLoop_total [OF assms(1,2), of fd d w] unfolding writeOutput_def by (cases "fd < 0"; cases "length d = 0") auto
    then show ?thesis using writeOutput_result(2) [of "re_io env" content budget, OF assms(1) b o] by simp
  qed
  obtain ok w1 where 1: "writeOutput (re_io env) fd line w = Some (ok, w1)" "budget w1 = budget w" using wo by blast
  obtain ok2 w2 where 2: "writeOutput (re_io env) fd [CHR 0x0A] w1 = Some (ok2, w2)" "budget w2 = budget w1" using wo by blast
  show "\<exists>rs' w'. writeLine env fd line (rs, w) = Some (rs', w') \<and> budget w' = budget w"
    using 1 2 by (simp add: writeLine_def)
qed

lemma writeEventLine_steady:
  assumes "\<And>line. steady budget (writeLine env fd line)"
  shows "steady budget (writeEventLine env start fd e)"
  unfolding steady_def
proof (intro allI)
  fix rs :: rec_state and w
  let ?rs = "rs\<lparr>baselineUs := inputUs e\<rparr>"
  let ?lead = "if baselineUs rs < 0 then (if todUs env w - start > 0
      then writeLine env fd (formatLeadingLine (todUs env w - start)) (?rs, w) else Some (?rs, w)) else Some (rs, w)"
  have "\<exists>rs1 w1. ?lead = Some (rs1, w1) \<and> budget w1 = budget w"
    using assms [unfolded steady_def, rule_format, of "formatLeadingLine (todUs env w - start)" ?rs w] by simp
  then obtain rs1 w1 where 1: "?lead = Some (rs1, w1)" "budget w1 = budget w" by blast
  obtain rs2 w2 where "writeLine env fd (formatEventLine (ie_device e) (toEvent e) (inputUs e - baselineUs rs1)) (rs1, w1)
      = Some (rs2, w2)" "budget w2 = budget w1" using steadyE [OF assms] by blast
  then show "\<exists>rs' w'. writeEventLine env start fd e (rs, w) = Some (rs', w') \<and> budget w' = budget w"
    using 1 unfolding writeEventLine_def Let_def by simp
qed

lemma writeEvents_steady:
  assumes "\<And>e. steady budget (writeEventLine env start fd e)"
  shows "steady budget (writeEvents env start fd es)"
proof (induction es)
  case Nil
  then show ?case by (simp add: steady_def)
next
  case (Cons e es)
  show ?case unfolding steady_def
  proof (intro allI)
    fix rs w
    obtain rs1 w1 where 1: "writeEventLine env start fd e (rs, w) = Some (rs1, w1)" "budget w1 = budget w"
      using steadyE [OF assms] by blast
    obtain rs2 w2 where "writeEvents env start fd es (rs1, w1) = Some (rs2, w2)" "budget w2 = budget w1"
      using steadyE [OF Cons.IH] by blast
    then show "\<exists>rs' w'. writeEvents env start fd (e # es) (rs, w) = Some (rs', w') \<and> budget w' = budget w"
      using 1 by auto
  qed
qed

lemma recordOne_steady:
  assumes "\<And>e. steady budget (writeEventLine env start fd e)"
  shows "steady budget (recordOne env mode start fd e)"
  unfolding steady_def
proof (intro allI)
  fix rs w
  note ws = writeEvents_steady [of budget env start fd, OF assms, unfolded steady_def, rule_format]
  show "\<exists>rs' w'. recordOne env mode start fd e (rs, w) = Some (rs', w') \<and> budget w' = budget w"
    using ws assms [unfolded steady_def, rule_format, of e rs w] by (simp add: recordOne_def split_beta Let_def)
qed

lemma recordBatch_steady:
  assumes "\<And>e. steady budget (recordOne env mode start fd e)"
  shows "steady budget (recordBatch env mode start fd es)"
proof (induction es)
  case Nil
  then show ?case by (simp add: steady_def)
next
  case (Cons e es)
  show ?case unfolding steady_def
  proof (intro allI)
    fix rs w
    obtain rs1 w1 where 1: "recordOne env mode start fd e (rs, w) = Some (rs1, w1)" "budget w1 = budget w"
      using steadyE [OF assms] by blast
    obtain rs2 w2 where "recordBatch env mode start fd es (rs1, w1) = Some (rs2, w2)" "budget w2 = budget w1"
      using steadyE [OF Cons.IH] by blast
    then show "\<exists>rs' w'. recordBatch env mode start fd (e # es) (rs, w) = Some (rs', w') \<and> budget w' = budget w"
      using 1 by auto
  qed
qed

lemma recordLoop_returns:
  assumes stop: "stop_comes env budget" and batch: "\<And>es. steady budget (recordBatch env mode start fd es)"
  shows "\<exists>r. recordLoop env mode start fd rs w = Some r"
proof (induction "budget w" arbitrary: rs w rule: less_induct)
  case less
  show ?case
  proof (cases "re_stop env w \<or> \<not> writeOk rs")
    case True
    then show ?thesis by (subst recordLoop.simps) simp
  next
    case False
    let ?w1 = "snd (il_wait (re_listener env) 500 w)"
    let ?r2 = "il_read (re_listener env) ?w1"
    have b: "budget ?w1 < budget w" "budget (snd ?r2) \<le> budget ?w1" using stop False by (auto simp: stop_comes_def)
    obtain rs3 w3 where 3: "recordBatch env mode start fd (fst ?r2) (rs, snd ?r2) = Some (rs3, w3)"
      "budget w3 = budget (snd ?r2)" using steadyE [OF batch] by blast
    then show ?thesis
      using less [of ?w1 rs] less [of w3 rs3] b False by (subst recordLoop.simps) (auto simp: Let_def)
  qed
qed

lemma recordFinish_returns:
  assumes "\<And>line. steady budget (writeLine env fd line)" and "\<And>es. steady budget (writeEvents env start fd es)"
  shows "\<exists>r. recordFinish env mode start fd (rs, w) = Some r"
proof -
  note wl = assms(1) [unfolded steady_def, rule_format] and ws = assms(2) [unfolded steady_def, rule_format]
  let ?fl = "flushKeyboardEventFilter mode (keyboardFilter rs) []"
  have "\<exists>rs1 w1. (if writeOk rs \<and> mode \<noteq> kOff
      then writeEvents env start fd (map fromEvent (snd ?fl)) (rs\<lparr>keyboardFilter := fst ?fl\<rparr>, w) else Some (rs, w)) = Some (rs1, w1)"
    using ws [of "map fromEvent (snd ?fl)" "rs\<lparr>keyboardFilter := fst ?fl\<rparr>" w] by auto
  then obtain rs1 w1 where "(if writeOk rs \<and> mode \<noteq> kOff
      then writeEvents env start fd (map fromEvent (snd ?fl)) (rs\<lparr>keyboardFilter := fst ?fl\<rparr>, w) else Some (rs, w)) = Some (rs1, w1)"
    by blast
  then show ?thesis
    using wl [of "formatTrailingLine (todUs env w1 - lastClientEventUs rs1)" rs1 w1]
    by (auto simp: recordFinish_def split_beta Let_def)
qed

lemma recordRun_returns:
  assumes "posix_write (re_io env) content" and "eintr_progress (re_io env) sig" and "stop_comes env budget"
  shows "\<exists>r. recordRun env self w = Some r"
proof -
  note wl = writeLine_steady [OF assms] and we = writeEventLine_steady [OF writeLine_steady [OF assms]]
  have body: "\<exists>rs w'. recordBody env mode start fd w = Some (rs, w')" for mode start fd w
  proof -
    obtain st where st: "recordLoop env mode start fd rec_init w = Some st"
      using recordLoop_returns [OF assms(3) recordBatch_steady [OF recordOne_steady [OF we]]] by blast
    obtain r where "recordFinish env mode start fd (fst st, snd st) = Some r"
      using recordFinish_returns [OF wl writeEvents_steady [OF we], where mode = mode and rs = "fst st" and w = "snd st"] by blast
    then show ?thesis using st by (cases r) (simp add: recordBody_def)
  qed
  let ?w1 = "snd (il_start (re_listener env) (rc_kinds self) w)"
  let ?o = "openFd (re_io env) (rc_outputPath self) O_RECORD 420 ?w1"
  obtain rs w' where "recordBody env (rc_mode self) (todUs env (snd ?o)) (fst ?o) (snd ?o) = Some (rs, w')"
    using body by blast
  then show ?thesis by (simp add: recordRun_def split_beta Let_def)
qed

text \<open>A successful run: its body has written the file.\<close>

lemma recordRun_success:
  assumes rf: "record_files env content history"
    and run: "recordRun env self w = Some (0, w')" and path: "rc_outputPath self \<noteq> []"
  obtains fd w2 rs w3 where "content w2 fd = []" "history w2 = history w" "writeOk rs"
    "recordBody env (rc_mode self) (todUs env w2) fd w2 = Some (rs, w3)" "content w' = content w3" "history w' = history w3"
proof -
  obtain st w1 where 1: "il_start (re_listener env) (rc_kinds self) w = (st, w1)" by fastforce
  obtain fd w2 where 2: "io_open (re_io env) (rc_outputPath self) O_RECORD (Some 420) w1 = (fd, w2)" by fastforce
  have o: "openFd (re_io env) (rc_outputPath self) O_RECORD 420 w1 = (fd, w2)"
    using path 2 by (simp add: openFd_def)
  have fd: "st" "0 \<le> fd" using run 1 o by (auto simp: recordRun_def split: if_splits)
  obtain rs w3 where b: "recordBody env (rc_mode self) (todUs env w2) fd w2 = Some (rs, w3)"
    using run 1 o fd by (auto simp: recordRun_def split: if_splits option.splits)
  let ?f = "flushFd (re_io env) fd w3"
  let ?closing = "\<lambda>w. il_cancel (re_listener env) (closeFd (re_io env) fd w)"
  have r: "writeOk rs" "w' = ?closing (snd ?f)"
    using run 1 o fd b path by (auto simp: recordRun_def split_beta Let_def split: if_splits)
  have keep: "content w' = content w3 \<and> history w' = history w3"
    unfolding r(2) using rf fd(2) by (simp add: record_files_def flushFd_def closeFd_def split_beta Let_def)
  have "history w1 = history w" using rf 1 by (metis record_files_def snd_conv)
  moreover have "history w2 = history w1 \<and> content w2 fd = []"
  proof -
    from rf have "history (snd (io_open (re_io env) (rc_outputPath self) O_RECORD (Some 420) w1)) = history w1
      \<and> (fst (io_open (re_io env) (rc_outputPath self) O_RECORD (Some 420) w1) < 0
         \<or> content (snd (io_open (re_io env) (rc_outputPath self) O_RECORD (Some 420) w1))
             (fst (io_open (re_io env) (rc_outputPath self) O_RECORD (Some 420) w1)) = [])"
      unfolding record_files_def by blast
    then show ?thesis using fd(2) unfolding 2 by simp
  qed
  ultimately show ?thesis using that b keep r(1) by auto
qed

lemma Min_minus: "v \<noteq> [] \<Longrightarrow> Min (set (map (\<lambda>x. f x - (b :: int)) v)) = Min (set (map f v)) - b"
proof -
  assume v: "v \<noteq> []"
  have "Min ((\<lambda>t. t - b) ` set (map f v)) = Min (set (map f v)) - b"
    using v by (subst mono_Min_commute [symmetric]) (auto simp: mono_def)
  then show ?thesis by (simp add: image_image)
qed

lemma relEvent_fields:
  "input_ok e \<Longrightarrow> (ie_device (relEvent b e), ie_type (relEvent b e), ie_code (relEvent b e), ie_value (relEvent b e))
     = (ie_device e, ie_type e, ie_code e, ie_value e)"
  "eventTimeUs (relEvent b e) = inputUs e - b"
  by (simp_all add: relEvent_def recordFieldsToEvent_def input_ok_def)

text \<open>The composer reads back what \<open>wrote\<close> says of a file that was empty.\<close>

lemma wrote_reads_back:
  assumes wr: "wrote content fd (rec_init, w) (rs', w') evs" and "content w fd = []" and ne: "evs \<noteq> []"
    and "list_all input_ok evs"
  shows "\<exists>out. toEvents h (content w' fd) v = ((0, out), v)
    \<and> map (\<lambda>e. (ie_device e, ie_type e, ie_code e, ie_value e)) out = map (\<lambda>e. (ie_device e, ie_type e, ie_code e, ie_value e)) evs
    \<and> map eventTimeUs out = map (\<lambda>e. inputUs e - Min (set (map inputUs evs))) evs"
proof -
  let ?b = "baselineUs rs'" and ?fields = "\<lambda>e. (ie_device e, ie_type e, ie_code e, ie_value e)"
  obtain ls where ls: "list_all line_ok ls" "content w' fd = recordText ls" "eventsOf ls = map (relEvent ?b) evs"
    using wr assms(2) by (auto simp: wrote_def)
  then have "ls \<noteq> []" using ne by auto
  have "map ?fields (normalizeTimelineToZero v) = map ?fields v" for v
    by (rule normalize_keeps) simp
  moreover have "map ?fields (map (relEvent ?b) evs) = map ?fields evs"
    using assms(4) relEvent_fields(1) [of _ ?b] by (simp add: list_all_iff)
  moreover have "map eventTimeUs (normalizeTimelineToZero (map (relEvent ?b) evs)) =
      map (\<lambda>e. inputUs e - Min (set (map inputUs evs))) evs"
    using normalize_times [of "map (relEvent ?b) evs"] ne Min_minus [of evs inputUs ?b]
    by (simp add: relEvent_fields(2) comp_def)
  ultimately show ?thesis
    using toEvents_recording [OF ls(1) \<open>ls \<noteq> []\<close>, of h v] ls by simp
qed

lemma recordedEvents_ok: "list_all input_ok ins \<Longrightarrow> list_all input_ok (recordedEvents mode ins)"
  using recFilter_ok [OF pend_ok_init, of ins mode] recFlush_ok [of "fst (recFilter mode filter_init ins)" mode]
  by (simp add: recordedEvents_def split_beta)

text \<open>What a successful recording has written.\<close>

lemma record_wrote:
  assumes rw: "record_world env content history" and rf: "record_files env content history"
    and run: "recordRun env self w = Some (0, w')" and path: "rc_outputPath self \<noteq> []"
    and fresh: "history w = []" and evs: "evs = recordedEvents (rc_mode self) (history w')"
  obtains fd w2 rs w3 where "wrote content fd (rec_init, w2) (rs, w3) evs" "content w2 fd = []" "content w' = content w3"
    "list_all input_ok evs"
proof -
  obtain fd w2 rs w3 where r: "content w2 fd = []" "history w2 = history w" "writeOk rs"
    "recordBody env (rc_mode self) (todUs env w2) fd w2 = Some (rs, w3)" "content w' = content w3" "history w' = history w3"
    using recordRun_success [OF rf run path] .
  obtain ins where i: "history w3 = ins" "list_all input_ok ins"
    and wr: "wrote content fd (rec_init, w2) (rs, w3) (recordedEvents (rc_mode self) ins)"
    using recordBody_wrote [OF rw _ _ r(4,3)] rw_tod [OF rw, of w2] r(2) fresh by auto
  have e: "evs = recordedEvents (rc_mode self) ins" using evs r(6) i(1) by simp
  show thesis by (rule that [OF wr [folded e] r(1,5) recordedEvents_ok [OF i(2), of "rc_mode self", folded e]])
qed

section \<open>Properties\<close>

text \<open>C2. Record, then replay. When \<open>Record::run\<close> has returned 0 on a named file, composing that
  file for playback gives exactly the events that were read from the devices and passed the
  Ctrl-C filter, in order, with their device, type, code and value, at their recorded distances
  from the earliest of them.\<close>

theorem record_replay_faithful:
  assumes rw: "record_world env content history" and rf: "record_files env content history"
    and run: "recordRun env self w = Some (0, w')" and path: "rc_outputPath self \<noteq> []"
    and fresh: "history w = []" and evs: "evs = recordedEvents (rc_mode self) (history w')" and ne: "evs \<noteq> []"
  shows "\<exists>fd out. toEvents h (content w' fd) v = ((0, out), v)
    \<and> map (\<lambda>e. (ie_device e, ie_type e, ie_code e, ie_value e)) out = map (\<lambda>e. (ie_device e, ie_type e, ie_code e, ie_value e)) evs
    \<and> map eventTimeUs out = map (\<lambda>e. inputUs e - Min (set (map inputUs evs))) evs"
proof -
  obtain fd w2 rs w3 where r: "wrote content fd (rec_init, w2) (rs, w3) evs" "content w2 fd = []" "content w' = content w3"
    "list_all input_ok evs" using record_wrote [OF rw rf run path fresh evs] .
  from wrote_reads_back [OF r(1,2) ne r(4), of h v] show ?thesis unfolding r(3) by blast
qed

lemma demo_env_ok:
  "record_world demo_env (\<lambda>w fd. dw_file w) dw_history" "record_files demo_env (\<lambda>w fd. dw_file w) dw_history"
  "posix_write (re_io demo_env) (\<lambda>w fd. dw_file w)" "eintr_progress (re_io demo_env) (\<lambda>w. 0)" "stop_comes demo_env dw_left"
proof -
  show pw: "posix_write (re_io demo_env) (\<lambda>w fd. dw_file w)"
    by (simp add: demo_env_def demo_io_def posix_write_def)
  have read: "let r = il_read (re_listener demo_env) w in dw_file (snd r) = dw_file w \<and> dw_left (snd r) = dw_left w
      \<and> dw_history (snd r) = dw_history w @ fst r \<and> list_all input_ok (fst r)" for w
    by (cases "dw_batches w") (simp_all add: demo_env_def Let_def list_all_iff)
  have tod: "0 \<le> todUs demo_env w \<and> todUs demo_env w < 2 ^ 62" for w
    by (simp add: todUs_def demo_env_def)
  show "record_world demo_env (\<lambda>w fd. dw_file w) dw_history"
    unfolding record_world_def using pw read tod by (simp add: Let_def) (simp add: demo_env_def demo_io_def)
  show "stop_comes demo_env dw_left"
    unfolding stop_comes_def using read by (simp add: Let_def) (auto simp: demo_env_def demo_io_def)
qed (simp_all add: demo_env_def demo_io_def record_files_def eintr_progress_def)

lemma demo_write: "0 \<le> fd \<Longrightarrow> writeOutput (re_io demo_env) fd d w = Some (True, w\<lparr>dw_file := dw_file w @ d\<rparr>)"
  by (cases "d = []") (simp_all add: writeOutput_def demo_env_def demo_io_def writeLoop.simps)

lemma demo_writeLine:
  "0 \<le> fd \<Longrightarrow> writeOk rs \<Longrightarrow> writeLine demo_env fd line (rs, w) = Some (rs, w\<lparr>dw_file := dw_file w @ line @ [CHR 0x0A]\<rparr>)"
  by (simp add: writeLine_def demo_write)

lemma demo_loop:
  "dw_left w = 0 \<Longrightarrow> recordLoop demo_env mode start fd rs w = Some (rs, w)"
  "dw_left w > 0 \<Longrightarrow> writeOk rs \<Longrightarrow> dw_batches w = [] \<Longrightarrow>
     recordLoop demo_env mode start fd rs w = recordLoop demo_env mode start fd rs (w\<lparr>dw_left := dw_left w - 1\<rparr>)"
  "dw_left w > 0 \<Longrightarrow> writeOk rs \<Longrightarrow> dw_batches w = b # bs \<Longrightarrow> list_all input_ok b \<Longrightarrow>
     recordBatch demo_env mode start fd b (rs, w\<lparr>dw_left := dw_left w - 1, dw_batches := bs, dw_history := dw_history w @ b\<rparr>)
       = Some st \<Longrightarrow>
     recordLoop demo_env mode start fd rs w = recordLoop demo_env mode start fd (fst st) (snd st)"
proof -
  show "dw_left w > 0 \<Longrightarrow> writeOk rs \<Longrightarrow> dw_batches w = b # bs \<Longrightarrow> list_all input_ok b \<Longrightarrow>
     recordBatch demo_env mode start fd b (rs, w\<lparr>dw_left := dw_left w - 1, dw_batches := bs, dw_history := dw_history w @ b\<rparr>)
       = Some st \<Longrightarrow> recordLoop demo_env mode start fd rs w = recordLoop demo_env mode start fd (fst st) (snd st)"
    by (subst recordLoop.simps) (simp add: demo_env_def list_all_iff Let_def cong: if_cong)
qed (subst recordLoop.simps, simp add: demo_env_def)+

lemma demo_run:
  assumes "evs = [demo_ev kKeyboard 700 1 30 1, demo_ev kMouse 900 2 0 (-4)]"
   and "self = newRecord (Some (\<lambda>k. if k = ''outputPath'' then AString ''out.txt'' else AKinds [])) True True"
  shows "\<exists>w'. recordRun demo_env self \<lparr>dw_left = 1, dw_batches = [evs], dw_history = [], dw_file = ''x''\<rparr> = Some (0, w') \<and> dw_history w' = evs"
proof -
  have self: "self = \<lparr>rc_listener = True, rc_fs = True, rc_kinds = [], rc_outputPath = ''out.txt'', rc_mode = kEndingOnly\<rparr>"
    unfolding assms(2) by code_simp
  have ok: "list_all input_ok evs" unfolding assms(1)
    by (simp add: input_ok_def demo_ev_def inputUs_def in_i32_def)
  let ?w = "\<lparr>dw_left = 0, dw_batches = [], dw_history = evs, dw_file = []\<rparr>"
  have b: "\<exists>rs w. recordBatch demo_env kEndingOnly start 3 evs (rec_init, ?w) = Some (rs, w) \<and> writeOk rs
      \<and> keyboardFilter rs = filter_init \<and> dw_left w = 0 \<and> dw_history w = evs" for start
    unfolding assms(1)
    by (simp add: recordOne_def rec_init_def process_init is_ctrl_def toEvent_def demo_ev_def
        writeEventLine_def demo_writeLine fromEvent_def Let_def cong: if_cong)
  let ?v = "\<lparr>dw_left = 1, dw_batches = [evs], dw_history = [], dw_file = []\<rparr> :: demo_world"
  let ?start = "todUs demo_env ?v"
  obtain rs1 w1 where 1: "recordBatch demo_env kEndingOnly ?start 3 evs (rec_init, ?w) = Some (rs1, w1)" "writeOk rs1"
    "keyboardFilter rs1 = filter_init" "dw_left w1 = 0" "dw_history w1 = evs" using b by blast
  have loop: "recordLoop demo_env kEndingOnly ?start 3 rec_init ?v = Some (rs1, w1)"
    using demo_loop(3) [of ?v rec_init evs "[]" kEndingOnly ?start 3 "(rs1, w1)"] demo_loop(1) [OF 1(4)] 1(1) ok
    by (simp add: rec_init_def)
  have "\<exists>rs w. recordFinish demo_env kEndingOnly ?start 3 (rs1, w1) = Some (rs, w) \<and> writeOk rs \<and> dw_history w = evs"
    using 1 by (simp add: recordFinish_def flushKeyboardEventFilter_def Let_def demo_writeLine filter_init_def)
  then show ?thesis using loop
    by (auto simp: self recordRun_def recordBody_def openFd_def demo_env_def demo_io_def flushFd_def closeFd_def)
qed
theorem record_replay_faithful_witness:
  "let evs = [demo_ev kKeyboard 700 1 30 1, demo_ev kMouse 900 2 0 (-4)];
       self = newRecord (Some (\<lambda>k. if k = ''outputPath'' then AString ''out.txt'' else AKinds [])) True True
   in \<exists>w'. recordRun demo_env self \<lparr>dw_left = 1, dw_batches = [evs], dw_history = [], dw_file = ''x''\<rparr> = Some (0, w')
     \<and> (\<exists>out. toEvents \<lparr>lh_lua = (\<lambda>f s. Done 3), lh_newstate = True, lh_cursor = None, lh_now = (\<lambda>w. (w, w))\<rparr>
            (dw_file w') (0 :: int) = ((0, out), 0) \<and> map eventTimeUs out = [0, 200])"
proof -
  define evs where "evs = [demo_ev kKeyboard 700 1 30 1, demo_ev kMouse 900 2 0 (-4)]"
  define self where "self = newRecord (Some (\<lambda>k. if k = ''outputPath'' then AString ''out.txt'' else AKinds [])) True True"
  define w :: demo_world where "w = \<lparr>dw_left = 1, dw_batches = [evs], dw_history = [], dw_file = ''x''\<rparr>"
  obtain w' where run: "recordRun demo_env self w = Some (0, w')" and h: "dw_history w' = evs"
    using demo_run [OF evs_def self_def] unfolding w_def by auto
  have rec: "recordedEvents (rc_mode self) (dw_history w') = evs"
    unfolding h unfolding evs_def self_def by code_simp
  have ne: "recordedEvents (rc_mode self) (dw_history w') \<noteq> []" unfolding rec by (simp add: evs_def)
  have path: "rc_outputPath self \<noteq> []" "dw_history w = []" by (simp_all add: self_def w_def newRecord_def getString_def)
  let ?h = "\<lparr>lh_lua = (\<lambda>f s. Done 3), lh_newstate = True, lh_cursor = None, lh_now = (\<lambda>w. (w, w))\<rparr> :: int lua_host"
  have t: "map (\<lambda>e. inputUs e - Min (set (map inputUs evs))) evs = [0, 200]"
    by (simp add: evs_def demo_ev_def inputUs_def)
  have "\<exists>out. toEvents ?h (dw_file w') 0 = ((0, out), 0) \<and> map eventTimeUs out = [0, 200]"
    using record_replay_faithful [OF demo_env_ok(1,2) run path refl ne, where h = ?h and v = 0, unfolded rec t]
    by (elim exE conjE) (intro exI conjI, assumption+)
  with run show ?thesis
    unfolding Let_def evs_def [symmetric] self_def [symmetric] w_def [symmetric] by (intro exI [of _ w'] conjI)
qed



end
