(* ===== verification/Session.thy ===== *)
theory Session
  imports Prelude
begin

text \<open>
  Business sessions: the registry (\<open>evrp/sdk/sessionregistry.cpp\<close>), the check each RPC makes
  (\<open>evrp/sdk/sessioncheck.cpp\<close>), the session service
  (\<open>evrp/device/impl/server/grpc/grpcsessionservice.cpp\<close>) and the client's calls
  (\<open>evrp/sdk/sessionclient.cpp\<close>, \<open>sessionmetadata.h\<close>). Time points are nanoseconds of the
  steady clock, given to each operation; the random engine is a parameter. Each operation
  holds the registry's mutex from its first access of the table to its end, so that
  histories are sequences of operations (the relation \<open>sess_step\<close>).
\<close>

section \<open>gRPC status\<close>

datatype grpc_code =
    OK | CANCELLED | UNKNOWN | INVALID_ARGUMENT | DEADLINE_EXCEEDED | NOT_FOUND | ALREADY_EXISTS
  | PERMISSION_DENIED | UNAUTHENTICATED | RESOURCE_EXHAUSTED | FAILED_PRECONDITION | ABORTED
  | OUT_OF_RANGE | UNIMPLEMENTED | INTERNAL | UNAVAILABLE | DATA_LOSS | DO_NOT_USE

fun grpcCodeToString :: "grpc_code \<Rightarrow> string" where
  "grpcCodeToString OK = ''OK''"
| "grpcCodeToString CANCELLED = ''CANCELLED''"
| "grpcCodeToString UNKNOWN = ''UNKNOWN''"
| "grpcCodeToString INVALID_ARGUMENT = ''INVALID_ARGUMENT''"
| "grpcCodeToString DEADLINE_EXCEEDED = ''DEADLINE_EXCEEDED''"
| "grpcCodeToString NOT_FOUND = ''NOT_FOUND''"
| "grpcCodeToString ALREADY_EXISTS = ''ALREADY_EXISTS''"
| "grpcCodeToString PERMISSION_DENIED = ''PERMISSION_DENIED''"
| "grpcCodeToString UNAUTHENTICATED = ''UNAUTHENTICATED''"
| "grpcCodeToString RESOURCE_EXHAUSTED = ''RESOURCE_EXHAUSTED''"
| "grpcCodeToString FAILED_PRECONDITION = ''FAILED_PRECONDITION''"
| "grpcCodeToString ABORTED = ''ABORTED''"
| "grpcCodeToString OUT_OF_RANGE = ''OUT_OF_RANGE''"
| "grpcCodeToString UNIMPLEMENTED = ''UNIMPLEMENTED''"
| "grpcCodeToString INTERNAL = ''INTERNAL''"
| "grpcCodeToString UNAVAILABLE = ''UNAVAILABLE''"
| "grpcCodeToString DATA_LOSS = ''DATA_LOSS''"
| "grpcCodeToString DO_NOT_USE = ''DO_NOT_USE''"

record grpc_status =
  st_code :: grpc_code
  st_message :: string

definition grpc_ok :: grpc_status where
  "grpc_ok = \<lparr>st_code = OK, st_message = []\<rparr>"

abbreviation "status c m \<equiv> \<lparr>st_code = c, st_message = m\<rparr>"

definition is_ok :: "grpc_status \<Rightarrow> bool" where
  "is_ok s \<longleftrightarrow> st_code s = OK"

section \<open>The registry\<close>

record SessRecord =
  sr_peer :: string
  sr_lastHeartbeat :: int

record SessionRegistry =
  leaseTimeoutMs :: int
  sessions :: "string \<rightharpoonup> SessRecord"

abbreviation (input) "kSessionMetadataKey \<equiv> ''x-evrp-session-id''"

definition hex_char :: "nat \<Rightarrow> char" where
  "hex_char d = (if d < 10 then char_of (48 + d) else char_of (87 + d))"

fun show_hex :: "nat \<Rightarrow> string" where
  "show_hex n = (if n < 16 then [hex_char n] else show_hex (n div 16) @ [hex_char (n mod 16)])"

definition randomSessionId :: "u64 \<times> u64 \<Rightarrow> string" where
  "randomSessionId = (\<lambda>(a, b). show_hex (unat a) @ show_hex (unat b))"

text \<open>\<open>flag\<close> is \<open>--session_lease_ms\<close>.\<close>

definition newRegistry :: "int \<Rightarrow> int \<Rightarrow> SessionRegistry" where
  "newRegistry flag lease =
     (let ms = (if lease > 0 then lease else flag) in
      \<lparr>leaseTimeoutMs = (if ms \<le> 0 then 3000 else ms), sessions = Map.empty\<rparr>)"

text \<open>\<open>rng\<close> draws the two numbers of an identifier.\<close>

partial_function (option) freshId ::
  "('g \<Rightarrow> (u64 \<times> u64) \<times> 'g) \<Rightarrow> (string \<rightharpoonup> SessRecord) \<Rightarrow> 'g \<Rightarrow> (string \<times> 'g) option" where
  "freshId rng m g =
     (let r = rng g; sid = randomSessionId (fst r) in
      if m sid \<noteq> None then freshId rng m (snd r) else Some (sid, snd r))"

definition connect ::
  "('g \<Rightarrow> (u64 \<times> u64) \<times> 'g) \<Rightarrow> string \<Rightarrow> int \<Rightarrow> SessionRegistry \<Rightarrow> 'g
   \<Rightarrow> (string \<times> SessionRegistry \<times> 'g) option" where
  "connect rng peer now reg g =
     (case freshId rng (sessions reg) g of
        None \<Rightarrow> None
      | Some (sid, g') \<Rightarrow>
          Some (sid, reg\<lparr>sessions := (sessions reg)(sid \<mapsto> \<lparr>sr_peer = peer, sr_lastHeartbeat = now\<rparr>)\<rparr>, g'))"

definition expired :: "SessionRegistry \<Rightarrow> SessRecord \<Rightarrow> int \<Rightarrow> bool" where
  "expired reg r now \<longleftrightarrow> now - sr_lastHeartbeat r > leaseTimeoutMs reg * 1000000"

definition heartbeat :: "string \<Rightarrow> string \<Rightarrow> int \<Rightarrow> SessionRegistry \<Rightarrow> grpc_status \<times> SessionRegistry" where
  "heartbeat sid peer now reg =
     (if sid = [] then
        (status FAILED_PRECONDITION (''metadata '' @ kSessionMetadataKey @ '' required for Heartbeat''), reg)
      else case sessions reg sid of
        None \<Rightarrow> (status FAILED_PRECONDITION ''unknown or expired session; call Connect again'', reg)
      | Some r \<Rightarrow>
          if sr_peer r \<noteq> peer then (status PERMISSION_DENIED ''session peer mismatch'', reg)
          else if expired reg r now then
            (status FAILED_PRECONDITION ''session lease expired before Heartbeat; call Connect again'',
             reg\<lparr>sessions := (sessions reg)(sid := None)\<rparr>)
          else (grpc_ok, reg\<lparr>sessions := (sessions reg)(sid \<mapsto> r\<lparr>sr_lastHeartbeat := now\<rparr>)\<rparr>))"

definition disconnect :: "string \<Rightarrow> string \<Rightarrow> SessionRegistry \<Rightarrow> grpc_status \<times> SessionRegistry" where
  "disconnect sid peer reg =
     (if sid = [] then
        (status FAILED_PRECONDITION (''metadata '' @ kSessionMetadataKey @ '' required for Disconnect''), reg)
      else case sessions reg sid of
        None \<Rightarrow> (grpc_ok, reg)
      | Some r \<Rightarrow>
          if sr_peer r \<noteq> peer then (status PERMISSION_DENIED ''session peer mismatch'', reg)
          else (grpc_ok, reg\<lparr>sessions := (sessions reg)(sid := None)\<rparr>))"

definition requireActiveBusinessCall ::
  "string \<Rightarrow> string \<Rightarrow> int \<Rightarrow> SessionRegistry \<Rightarrow> grpc_status \<times> SessionRegistry" where
  "requireActiveBusinessCall sid peer now reg =
     (if sid = [] then
        (status FAILED_PRECONDITION (''business session required: call session Connect then '' @
           ''attach metadata '' @ kSessionMetadataKey @ '' on each RPC''), reg)
      else case sessions reg sid of
        None \<Rightarrow> (status FAILED_PRECONDITION ''unknown session; call Connect or session was evicted'', reg)
      | Some r \<Rightarrow>
          if sr_peer r \<noteq> peer then (status PERMISSION_DENIED ''session peer mismatch'', reg)
          else if expired reg r now then
            (status FAILED_PRECONDITION (''session lease expired; call Connect and keep Heartbeat within '' @
               ''lease_timeout_ms''),
             reg\<lparr>sessions := (sessions reg)(sid := None)\<rparr>)
          else (grpc_ok, reg\<lparr>sessions := (sessions reg)(sid \<mapsto> r\<lparr>sr_lastHeartbeat := now\<rparr>)\<rparr>))"

definition sweepExpiredForLogging :: "int \<Rightarrow> SessionRegistry \<Rightarrow> SessionRegistry" where
  "sweepExpiredForLogging now reg =
     reg\<lparr>sessions := (\<lambda>sid. case sessions reg sid of
           None \<Rightarrow> None | Some r \<Rightarrow> if expired reg r now then None else Some r)\<rparr>"

section \<open>The service and its clients\<close>

type_synonym metadata = "(string \<times> string) list"

record server_context =
  ctx_metadata :: metadata
  ctx_peer :: string

text \<open>The context of a call with this metadata.\<close>

definition svcContext :: "string \<Rightarrow> metadata \<Rightarrow> server_context" where
  "svcContext peer md = \<lparr>ctx_metadata = md, ctx_peer = peer\<rparr>"

definition sessionIdFromContext :: "server_context \<Rightarrow> string option" where
  "sessionIdFromContext ctx = map_of (ctx_metadata ctx) kSessionMetadataKey"

definition orEmpty :: "string option \<Rightarrow> string" where
  "orEmpty sid = (case sid of Some s \<Rightarrow> s | None \<Rightarrow> [])"

definition requireBusinessSession ::
  "server_context \<Rightarrow> int \<Rightarrow> SessionRegistry \<Rightarrow> grpc_status \<times> SessionRegistry" where
  "requireBusinessSession ctx now reg =
     requireActiveBusinessCall (orEmpty (sessionIdFromContext ctx)) (ctx_peer ctx) now reg"

record ConnectResponse =
  cr_session_id :: string
  cr_lease_timeout_ms :: int

definition svcConnect ::
  "('g \<Rightarrow> (u64 \<times> u64) \<times> 'g) \<Rightarrow> server_context \<Rightarrow> int \<Rightarrow> SessionRegistry \<Rightarrow> 'g
   \<Rightarrow> (grpc_status \<times> ConnectResponse \<times> SessionRegistry \<times> 'g) option" where
  "svcConnect rng ctx now reg g =
     (case connect rng (ctx_peer ctx) now reg g of
        None \<Rightarrow> None
      | Some (sid, reg', g') \<Rightarrow>
          Some (grpc_ok, \<lparr>cr_session_id = sid, cr_lease_timeout_ms = leaseTimeoutMs reg'\<rparr>, reg', g'))"

definition svcHeartbeat :: "server_context \<Rightarrow> int \<Rightarrow> SessionRegistry \<Rightarrow> grpc_status \<times> SessionRegistry" where
  "svcHeartbeat ctx now reg = heartbeat (orEmpty (sessionIdFromContext ctx)) (ctx_peer ctx) now reg"

definition svcDisconnect :: "server_context \<Rightarrow> SessionRegistry \<Rightarrow> grpc_status \<times> SessionRegistry" where
  "svcDisconnect ctx reg = disconnect (orEmpty (sessionIdFromContext ctx)) (ctx_peer ctx) reg"

definition addSessionMetadata :: "metadata \<Rightarrow> string \<Rightarrow> metadata" where
  "addSessionMetadata md sid = (if sid \<noteq> [] then md @ [(kSessionMetadataKey, sid)] else md)"

record SessionInfo =
  si_sessionId :: string
  si_leaseTimeoutMs :: int

text \<open>The client's calls on a channel; \<open>rpc\<close> is what the generated stub does (the deadline of
  \<open>sessionConnectWithDeadline\<close> is the stub's business).\<close>

definition sessionConnect ::
  "('w \<Rightarrow> (grpc_status \<times> ConnectResponse) \<times> 'w) \<Rightarrow> 'w \<Rightarrow> (bool \<times> SessionInfo) \<times> 'w" where
  "sessionConnect rpc w =
     (let ((s, resp), w') = rpc w in
      if \<not> is_ok s then ((False, \<lparr>si_sessionId = [], si_leaseTimeoutMs = 0\<rparr>), w')
      else ((cr_session_id resp \<noteq> [],
             \<lparr>si_sessionId = cr_session_id resp, si_leaseTimeoutMs = cr_lease_timeout_ms resp\<rparr>), w'))"

definition sessionConnectWithDeadline ::
  "(int \<Rightarrow> 'w \<Rightarrow> (grpc_status \<times> ConnectResponse) \<times> 'w) \<Rightarrow> int \<Rightarrow> 'w \<Rightarrow> (bool \<times> SessionInfo) \<times> 'w" where
  "sessionConnectWithDeadline rpc rpc_timeout w = sessionConnect (rpc rpc_timeout) w"

definition sessionHeartbeat ::
  "(metadata \<Rightarrow> 'w \<Rightarrow> grpc_status \<times> 'w) \<Rightarrow> string \<Rightarrow> 'w \<Rightarrow> bool \<times> 'w" where
  "sessionHeartbeat rpc sid w = (let (s, w') = rpc (addSessionMetadata [] sid) w in (is_ok s, w'))"

definition sessionDisconnect ::
  "(metadata \<Rightarrow> 'w \<Rightarrow> grpc_status \<times> 'w) \<Rightarrow> string \<Rightarrow> 'w \<Rightarrow> bool \<times> 'w" where
  "sessionDisconnect rpc sid w = (let (s, w') = rpc (addSessionMetadata [] sid) w in (is_ok s, w'))"

section \<open>Histories\<close>

text \<open>What happened at the registry: \<open>Accepted sid peer t\<close> stands for a successful heartbeat or
  business call. The states of the random engine are numbered.\<close>

datatype sess_event =
    Connected string string int | Accepted string string int | Refused | Disconnected string | Swept

inductive sess_step :: "SessionRegistry \<Rightarrow> sess_event \<Rightarrow> SessionRegistry \<Rightarrow> bool" where
  Conn: "connect rng peer now reg (g :: nat) = Some (sid, reg', g') \<Longrightarrow> sess_step reg (Connected sid peer now) reg'"
| Beat: "heartbeat sid peer now reg = (s, reg') \<Longrightarrow>
    sess_step reg (if is_ok s then Accepted sid peer now else Refused) reg'"
| Call: "requireActiveBusinessCall sid peer now reg = (s, reg') \<Longrightarrow>
    sess_step reg (if is_ok s then Accepted sid peer now else Refused) reg'"
| Disc: "disconnect sid peer reg = (s, reg') \<Longrightarrow>
    sess_step reg (if is_ok s then Disconnected sid else Refused) reg'"
| Sweep: "sess_step reg Swept (sweepExpiredForLogging now reg)"

inductive sess_run :: "SessionRegistry \<Rightarrow> sess_event list \<Rightarrow> SessionRegistry \<Rightarrow> bool" where
  Nil: "sess_run reg [] reg"
| Snoc: "sess_run reg es reg1 \<Longrightarrow> sess_step reg1 e reg2 \<Longrightarrow> sess_run reg (es @ [e]) reg2"

text \<open>Every session in the table was opened by its peer, and its last renewal is in the
  history.\<close>

definition justified :: "sess_event list \<Rightarrow> SessionRegistry \<Rightarrow> bool" where
  "justified es reg \<longleftrightarrow>
     (\<forall>sid r. sessions reg sid = Some r \<longrightarrow>
        (\<exists>t. Connected sid (sr_peer r) t \<in> set es)
        \<and> (Connected sid (sr_peer r) (sr_lastHeartbeat r) \<in> set es
           \<or> Accepted sid (sr_peer r) (sr_lastHeartbeat r) \<in> set es))"

section \<open>Lemmas\<close>

declare show_hex.simps [simp del]

lemma show_hex_nonempty [simp]: "show_hex n \<noteq> []"
  by (subst show_hex.simps) simp

lemma randomSessionId_nonempty [simp]: "randomSessionId ab \<noteq> []"
  by (simp add: randomSessionId_def split_beta)

lemma freshId_result:
  assumes "freshId rng m g = Some r"
  shows "m (fst r) = None \<and> fst r \<noteq> []"
proof (rule freshId.raw_induct [where P = "\<lambda>rng m g r. m (fst r) = None \<and> fst r \<noteq> []", OF _ assms])
  fix f and rng' :: "'a \<Rightarrow> (u64 \<times> u64) \<times> 'a" and m' g' y
  assume ih: "\<And>rng m g y. f rng m g = Some y \<Longrightarrow> m (fst y) = None \<and> fst y \<noteq> []"
    and body: "(let r = rng' g'; sid = randomSessionId (fst r)
       in if m' sid \<noteq> None then f rng' m' (snd r) else Some (sid, snd r)) = Some y"
  show "m' (fst y) = None \<and> fst y \<noteq> []"
    using body ih [of rng' m'] by (auto simp: Let_def split: if_splits)
qed

text \<open>The generator produces an unused identifier within \<open>n\<close> draws.\<close>

lemma freshId_returns:
  assumes "m (randomSessionId (fst (rng (((snd \<circ> rng) ^^ n) g)))) = None"
  shows "\<exists>r. freshId rng m g = Some r"
  using assms
proof (induction n arbitrary: g)
  case 0
  then show ?case by (subst freshId.simps) (simp add: Let_def)
next
  case (Suc n)
  have "((snd \<circ> rng) ^^ Suc n) g = ((snd \<circ> rng) ^^ n) (snd (rng g))"
    by (simp only: funpow_Suc_right o_apply)
  then have "\<exists>r. freshId rng m (snd (rng g)) = Some r" using Suc.IH [of "snd (rng g)"] Suc.prems by metis
  then show ?case by (subst freshId.simps) (simp add: Let_def)
qed

lemma connect_result:
  assumes "connect rng peer now reg g = Some (sid, reg', g')"
  shows "sessions reg sid = None" "sid \<noteq> []"
    "reg' = reg\<lparr>sessions := (sessions reg)(sid \<mapsto> \<lparr>sr_peer = peer, sr_lastHeartbeat = now\<rparr>)\<rparr>"
  using assms freshId_result [of rng "sessions reg" g]
  by (auto simp: connect_def split: option.splits)

lemmas sess_ops = heartbeat_def disconnect_def requireActiveBusinessCall_def sweepExpiredForLogging_def

text \<open>Where the entries of the table after a step come from.\<close>

lemma step_entries:
  assumes "sess_step reg e reg'" and "sessions reg' sid = Some r"
  shows "sessions reg sid = Some r \<or> e = Connected sid (sr_peer r) (sr_lastHeartbeat r)
    \<or> e = Accepted sid (sr_peer r) (sr_lastHeartbeat r) \<and> (\<exists>r0. sessions reg sid = Some r0 \<and> sr_peer r0 = sr_peer r)"
  using assms
proof cases
  case (Conn rng peer now g sid' g')
  then show ?thesis using connect_result(3) [of rng peer now reg g sid' reg' g'] assms(2)
    by (auto split: if_splits)
qed (use assms(2) in \<open>auto simp: sess_ops grpc_ok_def is_ok_def split: if_splits option.splits\<close>)

lemma justified_step [inv_intros]:
  assumes "justified es reg" and "sess_step reg e reg'"
  shows "justified (es @ [e]) reg'"
  unfolding justified_def
proof (intro allI impI)
  fix sid r
  assume in_reg': "sessions reg' sid = Some r"
  from step_entries [OF assms(2) in_reg'] have "(\<exists>t. Connected sid (sr_peer r) t \<in> set (es @ [e]))"
    using assms(1) unfolding justified_def by (elim disjE conjE exE) (simp, metis)+
  moreover from step_entries [OF assms(2) in_reg'] have "Connected sid (sr_peer r) (sr_lastHeartbeat r) \<in> set (es @ [e])
           \<or> Accepted sid (sr_peer r) (sr_lastHeartbeat r) \<in> set (es @ [e])"
    using assms(1) unfolding justified_def by (elim disjE conjE exE) (simp, metis?)+
  ultimately show "(\<exists>t. Connected sid (sr_peer r) t \<in> set (es @ [e]))
        \<and> (Connected sid (sr_peer r) (sr_lastHeartbeat r) \<in> set (es @ [e])
           \<or> Accepted sid (sr_peer r) (sr_lastHeartbeat r) \<in> set (es @ [e]))"
    by blast
qed

lemma lease_step: "sess_step reg e reg' \<Longrightarrow> leaseTimeoutMs reg' = leaseTimeoutMs reg"
  by (induction rule: sess_step.induct)
     (auto simp: connect_def sess_ops split: if_splits option.splits)

lemma run_justified:
  assumes "sess_run reg es reg'" and "sessions reg = Map.empty"
  shows "justified es reg' \<and> leaseTimeoutMs reg' = leaseTimeoutMs reg"
  using assms
  by (induction rule: sess_run.induct) (auto simp: justified_def [of "[]"] lease_step intro: justified_step)

lemma business_ok_iff:
  "is_ok (fst (requireActiveBusinessCall sid peer now reg)) \<longleftrightarrow>
     sid \<noteq> [] \<and> (\<exists>r. sessions reg sid = Some r \<and> sr_peer r = peer \<and> \<not> expired reg r now)"
  by (auto simp: requireActiveBusinessCall_def is_ok_def grpc_ok_def split: option.split)

section \<open>Properties\<close>

text \<open>C6. Sessions authenticate: whenever the registry accepts a business call, the identifier
  was issued by an earlier Connect of the same peer, and that peer connected or was
  accepted with it no longer than one lease ago; this holds after any interleaving of
  connects, heartbeats, business calls, disconnects and sweeps by any peers.\<close>

theorem session_authentic:
  assumes "sess_run (newRegistry flag lease) es reg"
    and "is_ok (fst (requireActiveBusinessCall sid peer now reg))"
  shows "(\<exists>t. Connected sid peer t \<in> set es)
    \<and> (\<exists>t. (Connected sid peer t \<in> set es \<or> Accepted sid peer t \<in> set es)
           \<and> now - t \<le> leaseTimeoutMs reg * 1000000)"
proof -
  have j: "justified es reg"
    using run_justified [OF assms(1)] by (simp add: newRegistry_def Let_def)
  obtain r where r: "sessions reg sid = Some r" "sr_peer r = peer" "\<not> expired reg r now"
    using assms(2) business_ok_iff by blast
  have c: "\<exists>t. Connected sid (sr_peer r) t \<in> set es"
    and a: "Connected sid (sr_peer r) (sr_lastHeartbeat r) \<in> set es
            \<or> Accepted sid (sr_peer r) (sr_lastHeartbeat r) \<in> set es"
    using j r(1) unfolding justified_def by blast+
  have "now - sr_lastHeartbeat r \<le> leaseTimeoutMs reg * 1000000" using r(3) by (simp add: expired_def)
  then show ?thesis using c a unfolding r(2) by blast
qed

theorem session_authentic_witness:
  "\<exists>es reg sid. sess_run (newRegistry 0 3000) es reg
     \<and> is_ok (fst (requireActiveBusinessCall sid ''ipv4:1'' 5 reg)) \<and> (\<exists>t. Connected sid ''ipv4:1'' t \<in> set es)"
proof -
  let ?reg = "newRegistry 0 3000"
  obtain sid g' where f: "freshId (\<lambda>g. ((7, 8), g)) (sessions ?reg) (0 :: nat) = Some (sid, g')"
    using freshId_returns [of "sessions ?reg" "\<lambda>g. ((7, 8), g)" 0 0] by (auto simp: newRegistry_def)
  let ?reg' = "?reg\<lparr>sessions := (sessions ?reg)(sid \<mapsto> \<lparr>sr_peer = ''ipv4:1'', sr_lastHeartbeat = 0\<rparr>)\<rparr>"
  have c: "connect (\<lambda>g. ((7, 8), g)) ''ipv4:1'' 0 ?reg (0 :: nat) = Some (sid, ?reg', g')"
    using f by (simp add: connect_def)
  have run: "sess_run ?reg ([] @ [Connected sid ''ipv4:1'' 0]) ?reg'"
    by (rule sess_run.Snoc [OF sess_run.Nil sess_step.Conn [OF c]])
  have ok: "is_ok (fst (requireActiveBusinessCall sid ''ipv4:1'' 5 ?reg'))"
    using connect_result(2) [OF c] by (simp add: business_ok_iff expired_def newRegistry_def)
  show ?thesis using session_authentic [OF run ok] run ok by blast
qed



text \<open>Sweeping is invisible: removing the expired sessions at one time changes neither the
  answer to any later heartbeat or business call nor the sessions a later sweep would
  leave.\<close>

theorem sweep_invisible:
  assumes "now \<le> now'"
  shows "is_ok (fst (requireActiveBusinessCall sid peer now' (sweepExpiredForLogging now reg)))
       = is_ok (fst (requireActiveBusinessCall sid peer now' reg))
    \<and> is_ok (fst (heartbeat sid peer now' (sweepExpiredForLogging now reg)))
       = is_ok (fst (heartbeat sid peer now' reg))
    \<and> sweepExpiredForLogging now' (sweepExpiredForLogging now reg) = sweepExpiredForLogging now' reg"
proof -
  have mono: "expired reg r now \<Longrightarrow> expired reg r now'" for r using assms by (simp add: expired_def)
  let ?reg = "sweepExpiredForLogging now reg"
  have s: "sessions ?reg sid = (case sessions reg sid of None \<Rightarrow> None
      | Some r \<Rightarrow> if expired reg r now then None else Some r)" "expired ?reg = expired reg" for sid
    by (auto simp: sweepExpiredForLogging_def expired_def fun_eq_iff)
  show ?thesis
  proof (intro conjI)
    show "is_ok (fst (requireActiveBusinessCall sid peer now' ?reg)) = is_ok (fst (requireActiveBusinessCall sid peer now' reg))"
      using mono by (auto simp: business_ok_iff s split: option.splits)
    show "is_ok (fst (heartbeat sid peer now' ?reg)) = is_ok (fst (heartbeat sid peer now' reg))"
      using mono by (auto simp: heartbeat_def s is_ok_def grpc_ok_def split: option.splits)
    show "sweepExpiredForLogging now' ?reg = sweepExpiredForLogging now' reg"
      using mono by (cases reg) (auto simp: sweepExpiredForLogging_def expired_def fun_eq_iff split: option.splits)
  qed
qed

theorem sweep_invisible_witness:
  "is_ok (fst (requireActiveBusinessCall ''ab'' ''p'' 20 (sweepExpiredForLogging 10 (newRegistry 0 5))))
   = is_ok (fst (requireActiveBusinessCall ''ab'' ''p'' 20 (newRegistry 0 5)))"
  using sweep_invisible [of 10 20] by simp

end
