(* ===== verification/PlaybackSvc.thy ===== *)
theory PlaybackSvc
  imports Writers Session Settings
begin

text \<open>
  Playing events on the device: \<open>LocalPlayback\<close>
  (\<open>evrp/device/impl/server/localplayback.cpp\<close>), the gRPC service over it
  (\<open>grpc/grpcplaybackservice.cpp\<close>), the client's \<open>RemotePlayback\<close>
  (\<open>evrp/device/impl/client/remoteplayback.cpp\<close>) and the counting semaphore
  (\<open>evrp/sdk/countingsemaphore.cpp\<close>). The stream of progress reports is written by one
  thread and read by another; their interleavings are the relation \<open>prog_step\<close>.
\<close>

section \<open>LocalPlayback\<close>

record LocalPlayback =
  cached :: "InputEvent list"
  playing :: bool
  stopRequested :: bool
  currentEventIndex :: int

definition playback_init :: LocalPlayback where
  "playback_init = \<lparr>cached = [], playing = False, stopRequested = False, currentEventIndex = -1\<rparr>"

definition lpUpload :: "InputEvent list \<Rightarrow> LocalPlayback \<Rightarrow> (bool \<times> StatusCode) \<times> LocalPlayback" where
  "lpUpload events self =
     ((True, \<lparr>sc_code = 0, sc_message = []\<rparr>), self\<lparr>cached := events, playing := False\<rparr>)"

definition lpStop :: "LocalPlayback \<Rightarrow> bool \<times> LocalPlayback" where
  "lpStop self = (True, self\<lparr>stopRequested := True, playing := False\<rparr>)"

text \<open>What playback takes from outside: the sink, \<open>sleep_for\<close> in microseconds, and whether
  another thread has asked to stop by now.\<close>

record 'w play_env =
  pe_write :: "(InputEventWriter \<times> 'w) raw_write"
  pe_sleep :: "int \<Rightarrow> 'w \<Rightarrow> 'w"
  pe_stop :: "'w \<Rightarrow> bool"
  pe_destroy :: "InputEventWriter \<times> 'w \<Rightarrow> 'w"

definition eventUs :: "InputEvent \<Rightarrow> int" where
  "eventUs e = ie_timeSec e * 1000000 + ie_timeUsec e"

text \<open>The loop over the events: result, index of the last event written, releases of the
  progress semaphore.\<close>

fun playLoop ::
  "'w play_env \<Rightarrow> InputEvent list \<Rightarrow> int \<Rightarrow> int option \<Rightarrow> int \<Rightarrow> nat \<Rightarrow> InputEventWriter \<times> 'w
   \<Rightarrow> bool \<times> int \<times> nat \<times> InputEventWriter \<times> 'w" where
  "playLoop env [] i prev idx rel st = (True, idx, rel, st)"
| "playLoop env (e # es) i prev idx rel st =
     (if pe_stop env (snd st) then (True, idx, rel, st)
      else
        let t_us = eventUs e;
            delta = (case prev of None \<Rightarrow> 0 | Some prev_us \<Rightarrow> t_us - prev_us);
            st1 = (if delta > 0 then (fst st, pe_sleep env delta (snd st)) else st);
            (ok, st2) = pe_write env (ie_device e) (ucast (ie_type e)) (ucast (ie_code e)) (ie_value e) st1
        in if \<not> ok then (False, idx, rel, st2)
           else playLoop env es (i + 1) (Some t_us) i (rel + 1) st2)"

definition lpPlayback ::
  "'w play_env \<Rightarrow> LocalPlayback \<times> 'w \<Rightarrow> (bool \<times> StatusCode) \<times> nat \<times> LocalPlayback \<times> 'w" where
  "lpPlayback env = (\<lambda>(self, w).
     if cached self = [] then
       ((False, \<lparr>sc_code = 1, sc_message = ''no recording uploaded''\<rparr>), 0, self, w)
     else
       let self1 = self\<lparr>playing := True, stopRequested := False, currentEventIndex := -1\<rparr>;
           (ok, idx, rel, st) = playLoop env (cached self) 0 None (-1) 0 (writer_init, w);
           self2 = self1\<lparr>playing := False, currentEventIndex := idx\<rparr>;
           w' = pe_destroy env st
       in if \<not> ok then
            ((False, \<lparr>sc_code = 2, sc_message = ''write event failed during playback''\<rparr>), rel, self2, w')
          else ((True, \<lparr>sc_code = 0, sc_message = []\<rparr>), rel, self2, w'))"

definition play_env_of ::
  "'w IFileSystem \<Rightarrow> ('w \<Rightarrow> int \<Rightarrow> evdev_ioctl) \<Rightarrow> ('w \<Rightarrow> int \<times> int) \<Rightarrow> (int \<Rightarrow> 'w \<Rightarrow> 'w) \<Rightarrow> ('w \<Rightarrow> bool) \<Rightarrow> 'w play_env" where
  "play_env_of io ioctl tod sleep stop =
     \<lparr>pe_write = writerWrite io ioctl tod, pe_sleep = sleep, pe_stop = stop, pe_destroy = destroyWriter io\<rparr>"

section \<open>The gRPC service and its client\<close>

record play_service =
  ps_configured :: bool
  ps_playback :: LocalPlayback
  ps_sessions :: SessionRegistry
  playbackProgressSem :: nat
  subscriberActive :: bool
  playbackProgressFinished :: bool

datatype play_fault = NullDereference

definition svcUpload ::
  "int \<Rightarrow> server_context \<Rightarrow> proto_InputEvent list \<Rightarrow> play_service \<Rightarrow> (grpc_status \<times> proto_StatusCode option) \<times> play_service" where
  "svcUpload now ctx events s =
     (let (st, reg) = requireBusinessSession ctx now (ps_sessions s); s1 = s\<lparr>ps_sessions := reg\<rparr> in
      if \<not> is_ok st then ((st, None), s1)
      else if \<not> ps_configured s1 then ((status FAILED_PRECONDITION ''playback not configured'', None), s1)
      else let ((ok, result), p) = lpUpload (eventsFromProto events) (ps_playback s1);
               s2 = s1\<lparr>ps_playback := p\<rparr>
           in if \<not> ok then
                ((status INTERNAL (if sc_message result = [] then ''upload failed'' else sc_message result), None), s2)
              else ((grpc_ok, Some (statusToProto result)), s2))"

definition svcPlayback ::
  "'w play_env \<Rightarrow> int \<Rightarrow> server_context \<Rightarrow> play_service \<times> 'w
   \<Rightarrow> play_fault + (grpc_status \<times> proto_StatusCode option) \<times> play_service \<times> 'w" where
  "svcPlayback env now ctx = (\<lambda>(s, w).
     let (st, reg) = requireBusinessSession ctx now (ps_sessions s); s1 = s\<lparr>ps_sessions := reg\<rparr> in
     if \<not> is_ok st then Inr ((st, None), s1, w)
     else
       let s2 = s1\<lparr>playbackProgressSem := 0, playbackProgressFinished := False\<rparr> in
       if \<not> ps_configured s2 then Inl NullDereference
       else
         let ((ok, result), rel, p, w') = lpPlayback env (ps_playback s2, w);
             s3 = s2\<lparr>ps_playback := p, playbackProgressSem := rel + 1, playbackProgressFinished := True\<rparr>
         in if \<not> ok then
              Inr ((status FAILED_PRECONDITION (if sc_message result = [] then ''playback failed'' else sc_message result), None), s3, w')
            else Inr ((grpc_ok, Some (statusToProto result)), s3, w'))"

text \<open>\<open>SubscribePlayback\<close> up to its loop (the loop is part of \<open>prog_step\<close> below): the guards,
  the single subscriber, the reset of the stream.\<close>

definition svcSubscribeEnter ::
  "int \<Rightarrow> server_context \<Rightarrow> play_service \<Rightarrow> grpc_status \<times> play_service" where
  "svcSubscribeEnter now ctx s =
     (let (st, reg) = requireBusinessSession ctx now (ps_sessions s); s1 = s\<lparr>ps_sessions := reg\<rparr> in
      if \<not> is_ok st then (st, s1)
      else if \<not> ps_configured s1 then (status FAILED_PRECONDITION ''playback not configured'', s1)
      else if subscriberActive s1 then (status RESOURCE_EXHAUSTED ''subscribe_playback already active'', s1)
      else (grpc_ok, s1\<lparr>subscriberActive := True, playbackProgressFinished := False, playbackProgressSem := 0\<rparr>))"

definition svcStop :: "int \<Rightarrow> server_context \<Rightarrow> play_service \<Rightarrow> grpc_status \<times> play_service" where
  "svcStop now ctx s =
     (let (st, reg) = requireBusinessSession ctx now (ps_sessions s); s1 = s\<lparr>ps_sessions := reg\<rparr> in
      if \<not> is_ok st then (st, s1)
      else if \<not> ps_configured s1 then (status FAILED_PRECONDITION ''playback not configured'', s1)
      else let (ok, p) = lpStop (ps_playback s1); s2 = s1\<lparr>ps_playback := p\<rparr>
           in if \<not> ok then (status INTERNAL ''stop failed'', s2) else (grpc_ok, s2))"

fun grpcCodeNumber :: "grpc_code \<Rightarrow> int" where
  "grpcCodeNumber OK = 0"
| "grpcCodeNumber CANCELLED = 1"
| "grpcCodeNumber UNKNOWN = 2"
| "grpcCodeNumber INVALID_ARGUMENT = 3"
| "grpcCodeNumber DEADLINE_EXCEEDED = 4"
| "grpcCodeNumber NOT_FOUND = 5"
| "grpcCodeNumber ALREADY_EXISTS = 6"
| "grpcCodeNumber PERMISSION_DENIED = 7"
| "grpcCodeNumber RESOURCE_EXHAUSTED = 8"
| "grpcCodeNumber FAILED_PRECONDITION = 9"
| "grpcCodeNumber ABORTED = 10"
| "grpcCodeNumber UNIMPLEMENTED = 12"
| "grpcCodeNumber INTERNAL = 13"
| "grpcCodeNumber UNAVAILABLE = 14"
| "grpcCodeNumber OUT_OF_RANGE = 11"
| "grpcCodeNumber DATA_LOSS = 15"
| "grpcCodeNumber UNAUTHENTICATED = 16"
| "grpcCodeNumber DO_NOT_USE = -1"

record RemotePlayback =
  rp_playing :: bool
  rp_sessionId :: string
  reportedIndex :: int

record 'w play_stub =
  stub_Upload :: "metadata \<Rightarrow> proto_InputEvent list \<Rightarrow> 'w \<Rightarrow> (grpc_status \<times> proto_StatusCode) \<times> 'w"
  stub_Playback :: "metadata \<Rightarrow> 'w \<Rightarrow> (grpc_status \<times> proto_StatusCode) \<times> 'w"
  stub_Stop :: "metadata \<Rightarrow> 'w \<Rightarrow> grpc_status \<times> 'w"

definition remoteUpload ::
  "'w play_stub \<Rightarrow> InputEvent list \<Rightarrow> RemotePlayback \<times> 'w \<Rightarrow> (bool \<times> StatusCode) \<times> RemotePlayback \<times> 'w" where
  "remoteUpload stub events = (\<lambda>(self, w).
     if rp_playing self then
       ((False, \<lparr>sc_code = grpcCodeNumber FAILED_PRECONDITION, sc_message = ''upload while playback active''\<rparr>), self, w)
     else
       let ((st, resp), w') = stub_Upload stub (addSessionMetadata [] (rp_sessionId self)) (eventsToProto events) w in
       if \<not> is_ok st then
         ((False, \<lparr>sc_code = grpcCodeNumber (st_code st), sc_message = st_message st\<rparr>), self, w')
       else ((p_code_status resp = 0, \<lparr>sc_code = p_code_status resp, sc_message = p_message resp\<rparr>), self, w'))"

text \<open>Without a progress semaphore, as the server calls it.\<close>

definition remotePlayback ::
  "'w play_stub \<Rightarrow> RemotePlayback \<times> 'w \<Rightarrow> (bool \<times> StatusCode) \<times> RemotePlayback \<times> 'w" where
  "remotePlayback stub = (\<lambda>(self, w).
     let ((st, res), w') = stub_Playback stub (addSessionMetadata [] (rp_sessionId self)) w;
         self' = self\<lparr>rp_playing := False, reportedIndex := -1\<rparr>;
         out = (if is_ok st then \<lparr>sc_code = p_code_status res, sc_message = p_message res\<rparr>
                else \<lparr>sc_code = grpcCodeNumber (st_code st), sc_message = st_message st\<rparr>)
     in ((is_ok st \<and> p_code_status res = 0, out), self', w'))"

text \<open>With one: another thread reads the progress messages of \<open>SubscribePlayback\<close> (\<open>msgs\<close>: the indices
  up to the end of the stream, \<open>None\<close> when it never ends), keeps the last index and releases the
  semaphore for each; it is joined after the call.\<close>

definition remotePlaybackNotify ::
  "'w play_stub \<Rightarrow> (metadata \<Rightarrow> 'w \<Rightarrow> int list option) \<Rightarrow> nat \<Rightarrow> RemotePlayback \<times> 'w
   \<Rightarrow> ((bool \<times> StatusCode) \<times> nat \<times> RemotePlayback \<times> 'w) option" where
  "remotePlaybackNotify stub subscribe sem = (\<lambda>(self, w).
     let (r, self', w') = remotePlayback stub (self, w) in
     map_option (\<lambda>msgs. (r, sem + length msgs, self'\<lparr>reportedIndex := last (-1 # msgs)\<rparr>, w'))
       (subscribe (addSessionMetadata [] (rp_sessionId self)) w))"

definition remoteStop :: "'w play_stub \<Rightarrow> RemotePlayback \<times> 'w \<Rightarrow> bool \<times> RemotePlayback \<times> 'w" where
  "remoteStop stub = (\<lambda>(self, w).
     let (st, w') = stub_Stop stub (addSessionMetadata [] (rp_sessionId self)) w in (is_ok st, self, w'))"

section \<open>The progress stream as two threads\<close>

text \<open>\<open>CountingSemaphore\<close>: \<open>release\<close>, \<open>tryAcquire\<close>, and \<open>acquire\<close>, which waits (\<open>None\<close>) for a
  positive count.\<close>

definition semRelease :: "nat \<Rightarrow> nat" where
  "semRelease count = count + 1"

definition semAcquire :: "nat \<Rightarrow> nat option" where
  "semAcquire count = (if count > 0 then Some (count - 1) else None)"

definition semTryAcquire :: "nat \<Rightarrow> bool \<times> nat" where
  "semTryAcquire count = (if count = 0 then (False, count) else (True, count - 1))"

text \<open>Where the handler of \<open>Playback\<close> is (\<open>PPlay n\<close>: \<open>n\<close> events to go) and where the handler
  of \<open>SubscribePlayback\<close> is (\<open>STop\<close>: at the top of its loop, where it looks whether the call is
  cancelled; \<open>SWait\<close>: in \<open>acquire\<close>). Cancellation and failing writes are up to the client.\<close>

datatype play_pc = PDrain | PReset | PPlay nat | PMark | PPost | PDone
datatype sub_pc = SEnter | SDrain | STop | SWait | SCheck | SSend | SDone

record prog_state =
  sem :: nat
  finished :: bool
  pc_play :: play_pc
  pc_sub :: sub_pc
  todo :: nat

inductive prog_step :: "prog_state \<Rightarrow> prog_state \<Rightarrow> bool" where
  play_drain: "pc_play s = PDrain \<Longrightarrow> semTryAcquire (sem s) = (True, c) \<Longrightarrow> prog_step s (s\<lparr>sem := c\<rparr>)"
| play_drained: "pc_play s = PDrain \<Longrightarrow> semTryAcquire (sem s) = (False, c) \<Longrightarrow> prog_step s (s\<lparr>pc_play := PReset\<rparr>)"
| play_reset: "pc_play s = PReset \<Longrightarrow> prog_step s (s\<lparr>finished := False, pc_play := PPlay (todo s)\<rparr>)"
| play_event: "pc_play s = PPlay (Suc n) \<Longrightarrow> prog_step s (s\<lparr>sem := semRelease (sem s), pc_play := PPlay n\<rparr>)"
| play_ends: "pc_play s = PPlay n \<Longrightarrow> prog_step s (s\<lparr>pc_play := PMark\<rparr>)"
| play_mark: "pc_play s = PMark \<Longrightarrow> prog_step s (s\<lparr>finished := True, pc_play := PPost\<rparr>)"
| play_post: "pc_play s = PPost \<Longrightarrow> prog_step s (s\<lparr>sem := semRelease (sem s), pc_play := PDone\<rparr>)"
| sub_enter: "pc_sub s = SEnter \<Longrightarrow> prog_step s (s\<lparr>finished := False, pc_sub := SDrain\<rparr>)"
| sub_drain: "pc_sub s = SDrain \<Longrightarrow> semTryAcquire (sem s) = (True, c) \<Longrightarrow> prog_step s (s\<lparr>sem := c\<rparr>)"
| sub_drained: "pc_sub s = SDrain \<Longrightarrow> semTryAcquire (sem s) = (False, c) \<Longrightarrow> prog_step s (s\<lparr>pc_sub := STop\<rparr>)"
| sub_cancelled: "pc_sub s = STop \<Longrightarrow> prog_step s (s\<lparr>pc_sub := SDone\<rparr>)"
| sub_continues: "pc_sub s = STop \<Longrightarrow> prog_step s (s\<lparr>pc_sub := SWait\<rparr>)"
| sub_acquire: "pc_sub s = SWait \<Longrightarrow> semAcquire (sem s) = Some c \<Longrightarrow> prog_step s (s\<lparr>sem := c, pc_sub := SCheck\<rparr>)"
| sub_finished: "pc_sub s = SCheck \<Longrightarrow> finished s \<Longrightarrow> prog_step s (s\<lparr>pc_sub := SDone\<rparr>)"
| sub_progress: "pc_sub s = SCheck \<Longrightarrow> \<not> finished s \<Longrightarrow> prog_step s (s\<lparr>pc_sub := SSend\<rparr>)"
| sub_send: "pc_sub s = SSend \<Longrightarrow> prog_step s (s\<lparr>pc_sub := STop\<rparr>)"
| sub_fails: "pc_sub s = SSend \<Longrightarrow> prog_step s (s\<lparr>pc_sub := SDone\<rparr>)"

definition subscribed_first :: "nat \<Rightarrow> prog_state" where
  "subscribed_first n = \<lparr>sem = 0, finished = False, pc_play = PDrain, pc_sub = STop, todo = n\<rparr>"

definition both_arrive :: "nat \<Rightarrow> prog_state" where
  "both_arrive n = \<lparr>sem = 0, finished = False, pc_play = PDrain, pc_sub = SEnter, todo = n\<rparr>"

definition prog_inv :: "prog_state \<Rightarrow> bool" where
  "prog_inv s \<longleftrightarrow>
     (case pc_play s of
        PDone \<Rightarrow> finished s \<and> (sem s \<ge> 1 \<or> pc_sub s = SCheck \<or> pc_sub s = SDone)
      | PPost \<Rightarrow> finished s
      | _ \<Rightarrow> \<not> finished s)
     \<and> pc_sub s \<noteq> SEnter \<and> pc_sub s \<noteq> SDrain"

text \<open>The work left: it shrinks with every step.\<close>

fun play_work :: "nat \<Rightarrow> play_pc \<Rightarrow> nat" where
  "play_work n PDrain = 5 * n + 20"
| "play_work n PReset = 5 * n + 18"
| "play_work n (PPlay k) = 5 * k + 16"
| "play_work n PMark = 10"
| "play_work n PPost = 8"
| "play_work n PDone = 0"

fun sub_work :: "sub_pc \<Rightarrow> nat" where
  "sub_work SEnter = 6"
| "sub_work SDrain = 5"
| "sub_work STop = 2"
| "sub_work SWait = 1"
| "sub_work SCheck = 4"
| "sub_work SSend = 3"
| "sub_work SDone = 0"

definition prog_work :: "prog_state \<Rightarrow> nat" where
  "prog_work s = play_work (todo s) (pc_play s) + 4 * sem s + sub_work (pc_sub s)"

text \<open>What one event of a batch puts on the wire, given the channels of the devices: nothing for
  a device without one, and nothing for a key value other than release, press, repeat.\<close>

definition eventWire :: "(DeviceKind \<Rightarrow> int option option) \<Rightarrow> InputEvent \<Rightarrow> (int \<times> u16 \<times> u16 \<times> int) list" where
  "eventWire route e =
     (if ie_device e = kKeyboard \<and> (ucast (ie_type e) :: u16) = EV_KEY \<and> ie_value e \<notin> {0, 1, 2} then []
      else case route (ie_device e) of
             Some (Some fd) \<Rightarrow> map (Pair fd) (packet (ucast (ie_type e)) (ucast (ie_code e)) (ie_value e))
           | _ \<Rightarrow> [])"

section \<open>Lemmas on playback\<close>

text \<open>\<open>InputEventWriter::write\<close> drops odd key values and otherwise is a raw write.\<close>

lemma writerWrite_raw:
  "writerWrite io ioctl tod d t c v st =
     (if d = kKeyboard \<and> t = EV_KEY \<and> v \<notin> {0, 1, 2} then (True, st) else writeRaw io ioctl tod d t c v st)"
  by (auto simp: writerWrite_def kbWrite_def kbPress_def kbRelease_def kbRepeat_def mouseWrite_def)

lemma writerWrite_route:
  assumes "writerWrite (logged io) ioctl tod d t c v st = (ok, st')" and "dev_route st d' = Some r"
  shows "dev_route st' d' = Some r"
  using assms dev.stable [of io ioctl tod d t c v st ok st' d' r] by (simp add: writerWrite_raw split: if_splits)

lemma writerWrite_wire:
  assumes "in_i32 (ie_value e)"
    and "writerWrite (logged io) ioctl tod (ie_device e) (ucast (ie_type e)) (ucast (ie_code e)) (ie_value e) st = (True, st')"
    and "route (ie_device e) = dev_route st' (ie_device e)"
  shows "dev_wire st' = dev_wire st @ eventWire route e"
proof (cases "ie_device e = kKeyboard \<and> (ucast (ie_type e) :: u16) = EV_KEY \<and> ie_value e \<notin> {0, 1, 2}")
  case True
  then show ?thesis using assms(2) by (simp add: writerWrite_raw eventWire_def)
next
  case False
  then have w: "writeRaw (logged io) ioctl tod (ie_device e) (ucast (ie_type e)) (ucast (ie_code e)) (ie_value e) st = (True, st')"
    using assms(2) by (auto simp: writerWrite_raw split: if_splits)
  obtain r where r: "dev_route st' (ie_device e) = Some r" using dev.settled [OF w] by auto
  show ?thesis
  proof (cases r)
    case None
    then show ?thesis using dev.dropped [OF w] r assms(3) False by (auto simp: eventWire_def)
  next
    case (Some fd)
    then show ?thesis using dev.delivered [OF assms(1) w] r assms(3) False by (auto simp: eventWire_def)
  qed
qed

lemma play_env_sel [simp]:
  "pe_write (play_env_of io ioctl tod sleep stop) = writerWrite io ioctl tod"
  "pe_sleep (play_env_of io ioctl tod sleep stop) = sleep"
  "pe_stop (play_env_of io ioctl tod sleep stop) = stop"
  by (simp_all add: play_env_of_def)

lemma playLoop_route:
  assumes "playLoop (play_env_of (logged io) ioctl tod sleep stop) es i prev idx rel st = (ok, idx', rel', st')"
    and "dev_route st d = Some r"
  shows "dev_route st' d = Some r"
  using assms
proof (induction es arbitrary: i prev idx rel st)
  case (Cons e es)
  let ?env = "play_env_of (logged io) ioctl tod sleep stop"
  let ?delta = "case prev of None \<Rightarrow> 0 | Some p \<Rightarrow> eventUs e - p"
  let ?st1 = "if ?delta > 0 then (fst st, sleep ?delta (snd st)) else st"
  obtain ok2 st2 where w: "writerWrite (logged io) ioctl tod (ie_device e) (ucast (ie_type e)) (ucast (ie_code e)) (ie_value e) ?st1 = (ok2, st2)"
    by (cases "writerWrite (logged io) ioctl tod (ie_device e) (ucast (ie_type e)) (ucast (ie_code e)) (ie_value e) ?st1")
  have "dev_route ?st1 d = Some r" using Cons.prems(2) by (cases st) (simp add: dev_route_def)
  then have r2: "dev_route st2 d = Some r" by (rule writerWrite_route [OF w])
  show ?case
  proof (cases "stop (snd st) \<or> \<not> ok2")
    case True
    then show ?thesis using Cons.prems w r2 by (auto simp: Let_def split: if_splits cong: if_cong)
  next
    case False
    then have "playLoop ?env es (i + 1) (Some (eventUs e)) i (rel + 1) st2 = (ok, idx', rel', st')"
      using Cons.prems(1) w by (simp add: Let_def cong: if_cong)
    then show ?thesis using Cons.IH r2 by blast
  qed
qed simp

lemma playLoop_wire:
  assumes "\<forall>e \<in> set es. in_i32 (ie_value e)" and "\<And>w. \<not> stop w" and "\<And>us wl. snd (sleep us wl) = snd wl"
    and "playLoop (play_env_of (logged io) ioctl tod sleep stop) es i prev idx rel st = (True, idx', rel', st')"
  shows "dev_wire st' = dev_wire st @ concat (map (eventWire (dev_route st')) es)
    \<and> rel' = rel + length es \<and> (es \<noteq> [] \<longrightarrow> idx' = i + int (length es) - 1)"
  using assms(1,4)
proof (induction es arbitrary: i prev idx rel st)
  case (Cons e es)
  let ?env = "play_env_of (logged io) ioctl tod sleep stop"
  let ?delta = "case prev of None \<Rightarrow> 0 | Some p \<Rightarrow> eventUs e - p"
  let ?st1 = "if ?delta > 0 then (fst st, sleep ?delta (snd st)) else st"
  obtain ok2 st2 where w: "writerWrite (logged io) ioctl tod (ie_device e) (ucast (ie_type e)) (ucast (ie_code e)) (ie_value e) ?st1 = (ok2, st2)"
    by (cases "writerWrite (logged io) ioctl tod (ie_device e) (ucast (ie_type e)) (ucast (ie_code e)) (ie_value e) ?st1")
  have ok2: "ok2" using Cons.prems(2) w assms(2) [of "snd st"] by (auto simp: Let_def split: if_splits cong: if_cong)
  then have run: "playLoop ?env es (i + 1) (Some (eventUs e)) i (rel + 1) st2 = (True, idx', rel', st')"
    using Cons.prems(2) w assms(2) [of "snd st"] by (simp add: Let_def cong: if_cong)
  have ih: "dev_wire st' = dev_wire st2 @ concat (map (eventWire (dev_route st')) es)"
    "rel' = rel + 1 + length es" "es \<noteq> [] \<longrightarrow> idx' = i + 1 + int (length es) - 1" "es = [] \<longrightarrow> idx' = i"
    using Cons.IH [OF _ run] Cons.prems(1) run by auto
  have same: "dev_wire ?st1 = dev_wire st"
  proof -
    have "dev_wire (fst st, sleep us (snd st)) = dev_wire st" for us
      using assms(3) [of us "snd st"] by (cases st; cases "snd st"; cases "sleep us (snd st)") (simp add: dev_wire_def)
    then show ?thesis by simp
  qed
  have "dev_wire st2 = dev_wire st @ eventWire (dev_route st') e"
  proof (cases "ie_device e = kKeyboard \<and> (ucast (ie_type e) :: u16) = EV_KEY \<and> ie_value e \<notin> {0, 1, 2}")
    case True
    then show ?thesis using w same by (simp add: writerWrite_raw eventWire_def split: if_splits)
  next
    case False
    then have raw: "writeRaw (logged io) ioctl tod (ie_device e) (ucast (ie_type e)) (ucast (ie_code e)) (ie_value e) ?st1 = (ok2, st2)"
      using w by (auto simp: writerWrite_raw split: if_splits)
    obtain r where r: "dev_route st2 (ie_device e) = Some r" using dev.settled [OF raw] by auto
    then have "dev_route st' (ie_device e) = dev_route st2 (ie_device e)" using playLoop_route [OF run] by simp
    then show ?thesis
      using writerWrite_wire [of e io ioctl tod ?st1 st2 "dev_route st'"] Cons.prems(1) w ok2 same by simp
  qed
  then show ?case using ih by auto
qed simp

section \<open>Lemmas on the progress stream\<close>

lemmas sem_defs = semRelease_def semAcquire_def semTryAcquire_def

lemma prog_inv_step [inv_intros]: "prog_step s s' \<Longrightarrow> prog_inv s \<Longrightarrow> prog_inv s'"
  by (induction rule: prog_step.induct) (auto simp: prog_inv_def sem_defs split: play_pc.splits if_splits)

lemma prog_work_step: "prog_step s s' \<Longrightarrow> prog_work s' < prog_work s"
  by (induction rule: prog_step.induct) (auto simp: prog_work_def sem_defs split: if_splits)

lemma prog_reach_inv: "prog_step\<^sup>*\<^sup>* s s' \<Longrightarrow> prog_inv s \<Longrightarrow> prog_inv s'"
  by (induction rule: rtranclp_induct) (auto intro: prog_inv_step)

lemma prog_progress:
  assumes "prog_inv s" and "\<not> (pc_play s = PDone \<and> pc_sub s = SDone)"
  shows "\<exists>s'. prog_step s s'"
proof (cases "pc_play s = PDone")
  case True
  then consider "pc_sub s = SWait" "sem s \<ge> 1" | "pc_sub s = SCheck" | "pc_sub s = SSend" | "pc_sub s = STop"
    using assms by (cases "pc_sub s") (auto simp: prog_inv_def)
  then show ?thesis
  proof cases
    case 1
    then show ?thesis using prog_step.sub_acquire [of s "sem s - 1"] by (auto simp: semAcquire_def)
  next
    case 2
    then show ?thesis using prog_step.sub_finished [of s] prog_step.sub_progress [of s] by blast
  next
    case 3
    then show ?thesis using prog_step.sub_send by blast
  next
    case 4
    then show ?thesis using prog_step.sub_continues by blast
  qed
next
  case False
  show ?thesis
  proof (cases "pc_play s")
    case PDrain
    then show ?thesis using prog_step.play_drain [of s "sem s - 1"] prog_step.play_drained [of s "sem s"]
      by (cases "sem s = 0") (auto simp: semTryAcquire_def)
  qed (use False prog_step.intros in blast)+
qed

inductive_cases prog_step_done: "prog_step \<lparr>sem = 0, finished = f, pc_play = PDone, pc_sub = SWait, todo = n\<rparr> s'"

section \<open>Properties\<close>

text \<open>What is uploaded is what the devices receive: when playback runs without a stop request
  and reports success, the kernel has accepted, in order, the packet of every uploaded
  event on the channel of its device (events of missing devices and odd key values are
  skipped), every event was reported as progress, and the last index is the last event.\<close>

theorem playback_delivers:
  assumes "\<forall>e \<in> set es. in_i32 (ie_value e)" and "\<And>w. \<not> stop w" and "\<And>us wl. snd (sleep us wl) = snd wl"
    and "es \<noteq> []"
    and "playLoop (play_env_of (logged io) ioctl tod sleep stop) es 0 None (-1) 0 (writer_init, w, l)
         = (True, idx, rel, st')"
  shows "dev_wire st' = map wireOf l @ concat (map (eventWire (dev_route st')) es)
    \<and> rel = length es \<and> idx = int (length es) - 1"
proof -
  have "dev_wire (writer_init, w, l) = map wireOf l" by (simp add: dev_wire_def)
  then show ?thesis using playLoop_wire [OF assms(1-3,5)] assms(4) by simp
qed

theorem playback_delivers_witness:
  "fst (snd (playLoop (play_env_of (logged desc_io) (\<lambda>w fd. undefined) (\<lambda>w. (0, 0)) (\<lambda>us w. w) (\<lambda>w. False))
      [\<lparr>ie_device = kUnspecified, ie_timeSec = 0, ie_timeUsec = 5, ie_type = 1, ie_code = 30, ie_value = 1\<rparr>]
      0 None (-1) 0 (writer_init, [7], []))) = 0"
proof -
  let ?e = "\<lparr>ie_device = kUnspecified, ie_timeSec = 0, ie_timeUsec = 5, ie_type = 1, ie_code = 30, ie_value = 1\<rparr>"
  have "playLoop (play_env_of (logged desc_io) (\<lambda>w fd. undefined) (\<lambda>w. (0, 0)) (\<lambda>us w. w) (\<lambda>w. False)) [?e]
      0 None (-1) 0 (writer_init, [7], []) = (True, 0, 1, writer_init, [7], [])"
    by (simp add: play_env_of_def writerWrite_raw writeRaw_def getFd_def)
  from playback_delivers [OF _ _ _ _ this] this show ?thesis by (simp add: in_i32_def)
qed

text \<open>C26. A subscriber whose subscription is in place before playback starts always comes to its
  end: no interleaving of the two handlers gets stuck before both have returned, and every
  interleaving is finite.\<close>

theorem progress_stream_ends:
  assumes "prog_step\<^sup>*\<^sup>* (subscribed_first n) s"
  shows "((\<exists>s'. prog_step s s') \<or> pc_play s = PDone \<and> pc_sub s = SDone)
    \<and> (\<forall>s'. prog_step s s' \<longrightarrow> prog_work s' < prog_work s)"
  using prog_progress [OF prog_reach_inv [OF assms]] prog_work_step
  by (auto simp: prog_inv_def subscribed_first_def)

theorem progress_stream_ends_witness: "\<exists>s'. prog_step (subscribed_first 3) s'"
  using progress_stream_ends [of 3 "subscribed_first 3"] by (auto simp: subscribed_first_def)


end
