(* ===== verification/EndToEnd.thy ===== *)
theory EndToEnd
  imports ComposerTypes RecordReplay PlaybackSvc
begin

text \<open>
  The parts together, from the events of one machine to the nodes of another: \<open>Record::run\<close> writes a
  file, \<open>Playback::run\<close> reads it, the proxy of the device's playback (\<open>RemotePlayback\<close>) sends the events
  to the playback service, and the service writes them to the devices. The stub is joined to the
  service: a call of the proxy runs the handler on the same session metadata.
\<close>

section \<open>The proxy over the service\<close>

definition responseOr :: "proto_StatusCode option \<Rightarrow> proto_StatusCode" where
  "responseOr r = (case r of None \<Rightarrow> \<lparr>p_code_status = 0, p_message = []\<rparr> | Some x \<Rightarrow> x)"

text \<open>The calls of one peer, the upload at time \<open>tU\<close>, the others at \<open>tP\<close>; a handler that dereferences a
  null pointer takes the process and its connections down.\<close>

definition playStubOf :: "'d play_env \<Rightarrow> string \<Rightarrow> int \<Rightarrow> int \<Rightarrow> (play_service \<times> 'd) play_stub" where
  "playStubOf env peer tU tP =
     \<lparr>stub_Upload = (\<lambda>md es (s, d). let ((st, r), s') = svcUpload tU (svcContext peer md) es s in ((st, responseOr r), s', d)),
      stub_Playback = (\<lambda>md (s, d). case svcPlayback env tP (svcContext peer md) (s, d) of
          Inl _ \<Rightarrow> ((status UNAVAILABLE [], responseOr None), s, d)
        | Inr ((st, r), s', d') \<Rightarrow> ((st, responseOr r), s', d')),
      stub_Stop = (\<lambda>md (s, d). let (st, s') = svcStop tP (svcContext peer md) s in (st, s', d))\<rparr>"

text \<open>The playback interface of a client, in a world with the files of the replaying server first.\<close>

definition remoteIPlayback :: "'x play_stub \<Rightarrow> ('f \<times> RemotePlayback \<times> 'x) IPlayback" where
  "remoteIPlayback stub =
     \<lparr>pb_upload = (\<lambda>es (f, st). let (r, st') = remoteUpload stub es st in (r, f, st')),
      pb_playback = (\<lambda>(f, st). let (r, st') = remotePlayback stub st in (r, f, st')),
      pb_stopPlayback = (\<lambda>(f, st). let (b, st') = remoteStop stub st in (b, f, st'))\<rparr>"

text \<open>The files are apart from the connection to the device.\<close>

definition files_apart :: "('f \<times> 'x) IFileSystem \<Rightarrow> bool" where
  "files_apart io \<longleftrightarrow>
     (\<forall>p f m w. snd (snd (io_open io p f m w)) = snd w) \<and> (\<forall>fd w. snd (snd (io_close io fd w)) = snd w)
     \<and> (\<forall>fd k w. snd (snd (io_read io fd k w)) = snd w) \<and> (\<forall>e w. snd (io_set_errno io e w) = snd w)"

text \<open>So is the clock that scripts are timed with.\<close>

definition host_apart :: "('f \<times> 'x) lua_host \<Rightarrow> bool" where
  "host_apart h \<longleftrightarrow> (\<forall>w. snd (snd (lh_now h w)) = snd w)"

section \<open>Lemmas\<close>

lemma files_apartD:
  assumes "files_apart io"
  shows "snd (snd (io_open io p f m w)) = snd w" "snd (snd (io_close io fd w)) = snd w"
    "snd (snd (io_read io fd k w)) = snd w" "snd (io_set_errno io e w) = snd w"
  using assms unfolding files_apart_def by blast+

lemma readLoop_apart:
  assumes "readLoop io fd out w = Some r" and "files_apart io"
  shows "snd (snd (snd r)) = snd w"
proof (rule readLoop.raw_induct [where P = "\<lambda>io fd out w r. files_apart io \<longrightarrow> snd (snd (snd r)) = snd w",
    OF _ assms(1), THEN mp, OF _ assms(2)], rule impI)
  fix f and io :: "('a \<times> 'b) IFileSystem" and fd out w r
  assume ih: "\<And>io fd out w r. f io fd out w = Some r \<Longrightarrow> files_apart io \<longrightarrow> snd (snd (snd r)) = snd w"
    and body: "(let r = io_read io fd 8192 w; n = fst (fst r); bytes = snd (fst r); w' = snd r
        in if n < 0 then if io_errno io w' = EINTR then f io fd out w' else Some (False, out, w')
           else if n = 0 then Some (True, out, w') else f io fd (out @ take (nat n) bytes) w') = Some r"
    and ap: "files_apart io"
  let ?w1 = "snd (io_read io fd 8192 w)"
  have "snd (snd (snd r)) = snd ?w1"
    using body ih [of io fd out ?w1 r] ih [of io fd _ ?w1 r] ap by (auto simp: Let_def split: if_splits)
  then show "snd (snd (snd r)) = snd w" using files_apartD(3) [OF ap] by simp
qed

lemma file_calls_apart:
  assumes "files_apart io"
  shows "openFd io p fl m w = (fd, w') \<Longrightarrow> snd w' = snd w" "snd (closeFd io fd w) = snd w"
    "readInputAll io fd w = Some (ok, s, w') \<Longrightarrow> snd w' = snd w"
proof -
  show "openFd io p fl m w = (fd, w') \<Longrightarrow> snd w' = snd w"
    using files_apartD(1) [OF assms, of p fl _ w] files_apartD(4) [OF assms, of EINVAL w]
    by (auto simp: openFd_def Let_def split: if_splits) (metis snd_conv)+
  show "snd (closeFd io fd w) = snd w" using files_apartD(2) [OF assms] by (simp add: closeFd_def)
  show "readInputAll io fd w = Some (ok, s, w') \<Longrightarrow> snd w' = snd w"
    using readLoop_apart [OF _ assms, of fd "[]" w "(ok, s, w')"] by (auto simp: readInputAll_def split: if_splits)
qed

lemma chunk_apart:
  assumes "host_apart h" and "playbackLuaChunkIntoCollector h chunk (col, w) = (err, col', w')"
  shows "snd w' = snd w"
proof -
  let ?wr = "collectorWriteRaw (lh_now h)" and ?P = "\<lambda>st. snd (snd st) = snd w"
  have "?P (snd (?wr d t c v st))" if "?P st" for d t c v st
    using assms(1) that by (cases st) (simp add: host_apart_def collectorWriteRaw_def appendBatchWithTimeline_def split_beta Let_def)
  then have "?P (snd (runLuaWithBindings (lh_lua h) (lh_newstate h) (Some ?wr)
      (Some (?wr, cursorOn (lh_cursor h))) False None chunk (collectorClear col, w)))"
    by (intro runLua_inv [of ?P]) simp_all
  then show ?thesis using assms(2) by (cases chunk) (auto simp: playbackLuaChunkIntoCollector_def Let_def)
qed

lemma composeLine_apart: "host_apart h \<Longrightarrow> composeLine h line (cs, w) = (r, cs', w') \<Longrightarrow> snd w' = snd w"
proof -
  assume h: "host_apart h" and c: "composeLine h line (cs, w) = (r, cs', w')"
  obtain err col w1 where p: "playbackLuaChunkIntoCollector h (Some line) (collector_init, w) = (err, col, w1)"
    by (cases "playbackLuaChunkIntoCollector h (Some line) (collector_init, w)")
  have "w' = w \<or> w' = w1"
    using c p by (auto simp: composeLine_def Let_def split: if_splits option.splits)
  then show ?thesis using chunk_apart [OF h p] by auto
qed

lemma composeLines_apart: "host_apart h \<Longrightarrow> composeLines h ls (cs, w) = (err, cs', w') \<Longrightarrow> snd w' = snd w"
proof (induction ls arbitrary: cs w)
  case (Cons l ls)
  obtain r cs1 w1 where l: "composeLine h l (cs, w) = (r, cs1, w1)" by (cases "composeLine h l (cs, w)")
  then show ?case using Cons composeLine_apart [OF Cons.prems(1) l] by (auto split: option.splits)
qed simp

lemma toEvents_apart:
  assumes "host_apart h" and "toEvents h text w = (r, w')"
  shows "snd w' = snd w"
proof -
  obtain err col w1 where p: "playbackLuaChunkIntoCollector h (Some text) (collector_init, w) = (err, col, w1)"
    by (cases "playbackLuaChunkIntoCollector h (Some text) (collector_init, w)")
  obtain err2 cs w2 where c: "composeLines h (getlines text) (compose_init, w) = (err2, cs, w2)"
    by (cases "composeLines h (getlines text) (compose_init, w)")
  have "w' = w1 \<or> w' = w2" using assms(2) p c by (auto simp: toEvents_def split: if_splits)
  then show ?thesis using chunk_apart [OF assms(1) p] composeLines_apart [OF assms(1) c] by auto
qed

lemma destroy_keeps_log: "snd (destroyWriter (logged io) (self, w, l)) = l"
proof -
  have "snd (closeKinds (logged io) m ks wl) = snd wl" for m ks and wl :: "'a \<times> (int \<times> string) list"
    by (induction ks arbitrary: wl) (auto simp: closeFd_def logged_def split_beta Let_def split: option.split)
  then show ?thesis by (simp only: destroyWriter_def prod.case) simp
qed

lemma upload_served:
  assumes "pb_upload (remoteIPlayback (playStubOf env peer tU tP)) es (f, rp, s, d) = ((True, up), v)"
  obtains s' where "v = (f, rp, s', d)" "cached (ps_playback s') = es"
  using assms that events_roundtrip [of es]
  by (auto simp: remoteIPlayback_def remoteUpload_def playStubOf_def svcUpload_def lpUpload_def is_ok_def split_beta Let_def
      split: if_splits)

lemma playback_served:
  assumes "pb_playback (remoteIPlayback (playStubOf env peer tU tP)) (f, rp, s, d) = ((True, res), v)"
    and "cached (ps_playback s) = es" and "es \<noteq> []"
  obtains idx rel st rp' s' where "playLoop env es 0 None (-1) 0 (writer_init, d) = (True, idx, rel, st)"
    "v = (f, rp', s', pe_destroy env st)"
proof -
  obtain ok idx rel st where p: "playLoop env es 0 None (-1) 0 (writer_init, d) = (ok, idx, rel, st)"
    by (cases "playLoop env es 0 None (-1) 0 (writer_init, d)")
  have "ok \<and> (\<exists>rp' s'. v = (f, rp', s', pe_destroy env st))"
    using assms p
    by (auto simp: remoteIPlayback_def remotePlayback_def playStubOf_def svcPlayback_def lpPlayback_def split_beta Let_def
        is_ok_def split: if_splits sum.splits)
  then show thesis using p by (auto intro: that)
qed

text \<open>What an event puts on the wire depends on its device, type, code and value only.\<close>

lemma eventWire_fields:
  "map (\<lambda>e. (ie_device e, ie_type e, ie_code e, ie_value e)) xs = map (\<lambda>e. (ie_device e, ie_type e, ie_code e, ie_value e)) ys
   \<Longrightarrow> concat (map (eventWire route) xs) = concat (map (eventWire route) ys)"
proof (induction xs arbitrary: ys)
  case (Cons x xs)
  then obtain y ys' where ys: "ys = y # ys'" by (cases ys) auto
  then have "eventWire route x = eventWire route y" using Cons.prems unfolding eventWire_def by (auto split: option.split)
  then show ?case using Cons ys by simp
qed simp

text \<open>A replay that returns 0 has played the events the file composes to.\<close>

lemma replay_plays:
  assumes ap: "files_apart io" and env: "env = play_env_of (logged dio) ioctl tod sleep stop"
    and o: "openFd io p O_RDONLY 0 (f, rp, s, dw, l) = (inFd, v1)"
    and r: "readInputAll io inFd v1 = Some (True, text, v2)"
    and c: "toEvents h text v2 = ((0, out), v3)" "snd v3 = snd v2"
    and run: "playbackRun io h sigint (Some (remoteIPlayback (playStubOf env peer tU tP))) True p (f, rp, s, dw, l)
              = Some (0, f', rp', s', dw', l')"
  obtains idx rel self dw'' where "playLoop env out 0 None (-1) 0 (writer_init, dw, l) = (True, idx, rel, self, dw'', l')"
proof -
  let ?pb = "remoteIPlayback (playStubOf env peer tU tP)"
  have v3: "v3 = (fst v3, rp, s, dw, l)" using file_calls_apart(1) [OF ap o] file_calls_apart(3) [OF ap r] c(2)
    by (simp add: prod_eq_iff)
  obtain played w4 where d: "deviceUploadAndPlay ?pb out v3 = (played, w4)"
    by (cases "deviceUploadAndPlay ?pb out v3")
  have ok: "out \<noteq> []" "played" "closeFd io inFd w4 = (f', rp', s', dw', l')"
    using run o r c(1) d by (auto simp: playbackRun_def split: if_splits)
  obtain b up w5 where 1: "pb_upload ?pb out v3 = ((b, up), w5)" by (metis prod.collapse)
  obtain b2 res w6 where 2: "pb_playback ?pb w5 = ((b2, res), w6)" by (metis prod.collapse)
  have b: "b" "b2" "w4 = w6" using d ok 1 2 by (auto simp: deviceUploadAndPlay_def split: if_splits)
  obtain s1 where s1: "w5 = (fst v3, rp, s1, dw, l)" "cached (ps_playback s1) = out"
    using upload_served [of env peer tU tP out "fst v3" rp s "(dw, l)" up w5] 1 b(1) v3 by auto
  obtain idx rel st rp2 s2 where pl: "playLoop env out 0 None (-1) 0 (writer_init, dw, l) = (True, idx, rel, st)"
    "w6 = (fst v3, rp2, s2, pe_destroy env st)"
    using 2 b(2) s1 ok(1) by (auto elim: playback_served [where f = "fst v3" and d = "(dw, l)" and es = out and s = s1])
  have "snd (pe_destroy env st) = l'" using file_calls_apart(2) [OF ap, of inFd w4] ok(3) b(3) pl(2) by (auto dest: sym)
  then have "snd (snd st) = l'"
    using destroy_keeps_log [of dio "fst st" "fst (snd st)" "snd (snd st)"] by (simp add: env play_env_of_def)
  then show thesis using that pl(1) by (metis prod.collapse)
qed

section \<open>When a replay succeeds\<close>

definition takes_all :: "'w IFileSystem \<Rightarrow> bool" where
  "takes_all io \<longleftrightarrow> (\<forall>fd d w. fst (io_write io fd d w) = int (length d))"

lemma writeEvent_taken: "takes_all io \<Longrightarrow> 0 \<le> fd \<Longrightarrow> fst (writeEvent (logged io) tod fd t c v wl)"
  using length_encode [of "\<lparr>ev_sec = fst (tod wl), ev_usec = snd (tod wl), ev_type = t, ev_code = c, ev_value = v\<rparr>"]
  by (auto simp: writeEvent_def writeFd_def logged_def takes_all_def split_beta Let_def)

lemma writerWrite_taken:
  assumes "takes_all io"
  shows "fst (writerWrite (logged io) ioctl tod d t c v st)"
proof -
  have "fst (writeEventWithSync (logged io) tod fd t c v wl)" if "0 \<le> fd" for fd wl
    using writeEvent_taken [OF assms that] by (simp add: writeEventWithSync_def split_beta Let_def)
  then show ?thesis by (simp add: writerWrite_raw writeRaw_def split_beta Let_def)
qed

lemma playLoop_taken:
  assumes "takes_all io" and "\<And>w. \<not> stop w"
  shows "fst (playLoop (play_env_of (logged io) ioctl tod sleep stop) es i prev idx rel st)"
  using assms(2) by (induction es arbitrary: i prev idx rel st)
    (simp_all add: split_beta Let_def writerWrite_taken [OF assms(1)] del: split_paired_All)

text \<open>The session of the proxy is known, its lease has not run out at the two calls.\<close>

definition session_lives :: "string \<Rightarrow> int \<Rightarrow> int \<Rightarrow> RemotePlayback \<Rightarrow> play_service \<Rightarrow> bool" where
  "session_lives peer tU tP rp s \<longleftrightarrow>
     rp_sessionId rp \<noteq> [] \<and> (\<exists>r. sessions (ps_sessions s) (rp_sessionId rp) = Some r \<and> sr_peer r = peer
       \<and> \<not> expired (ps_sessions s) r tU \<and> tP - tU \<le> leaseTimeoutMs (ps_sessions s) * 1000000)"

lemma business_call:
  assumes "sid \<noteq> []" and "sessions reg sid = Some r" and "sr_peer r = peer" and "\<not> expired reg r now"
  shows "requireBusinessSession (svcContext peer (addSessionMetadata [] sid)) now reg =
    (grpc_ok, reg\<lparr>sessions := (sessions reg)(sid \<mapsto> r\<lparr>sr_lastHeartbeat := now\<rparr>)\<rparr>)"
  using assms
  by (simp add: requireBusinessSession_def svcContext_def sessionIdFromContext_def addSessionMetadata_def orEmpty_def
      requireActiveBusinessCall_def)

lemma deviceUploadAndPlay_succeeds:
  assumes "takes_all dio" and "\<And>w. \<not> stop w" and "session_lives peer tU tP rp s" and "ps_configured s" and "\<not> rp_playing rp"
  shows "fst (deviceUploadAndPlay (remoteIPlayback (playStubOf (play_env_of (logged dio) ioctl tod sleep stop) peer tU tP))
    es (f, rp, s, d))"
proof -
  let ?env = "play_env_of (logged dio) ioctl tod sleep stop"
  obtain r where r: "rp_sessionId rp \<noteq> []" "sessions (ps_sessions s) (rp_sessionId rp) = Some r" "sr_peer r = peer"
    "\<not> expired (ps_sessions s) r tU" "tP - tU \<le> leaseTimeoutMs (ps_sessions s) * 1000000"
    using assms(3) by (auto simp: session_lives_def)
  let ?reg = "(ps_sessions s)\<lparr>sessions := (sessions (ps_sessions s))(rp_sessionId rp \<mapsto> r\<lparr>sr_lastHeartbeat := tU\<rparr>)\<rparr>"
  note call1 = business_call [OF r(1-4)]
  have call2: "requireBusinessSession (svcContext peer (addSessionMetadata [] (rp_sessionId rp))) tP ?reg =
    (grpc_ok, ?reg\<lparr>sessions := (sessions ?reg)(rp_sessionId rp \<mapsto> r\<lparr>sr_lastHeartbeat := tU, sr_lastHeartbeat := tP\<rparr>)\<rparr>)"
    using business_call [of "rp_sessionId rp" ?reg "r\<lparr>sr_lastHeartbeat := tU\<rparr>" peer tP] r by (simp add: expired_def)
  have up: "pb_upload (remoteIPlayback (playStubOf ?env peer tU tP)) es (f, rp, s, d) =
     ((True, \<lparr>sc_code = 0, sc_message = []\<rparr>), f, rp,
      s\<lparr>ps_sessions := ?reg, ps_playback := (ps_playback s)\<lparr>cached := es, playing := False\<rparr>\<rparr>, d)"
    using assms(4,5) by (simp add: remoteIPlayback_def remoteUpload_def playStubOf_def svcUpload_def call1 lpUpload_def
        is_ok_def grpc_ok_def responseOr_def statusToProto_def events_roundtrip Let_def)
  obtain ok idx rel st where p: "playLoop ?env es 0 None (-1) 0 (writer_init, d) = (ok, idx, rel, st)"
    by (cases "playLoop ?env es 0 None (-1) 0 (writer_init, d)")
  have ok
    using playLoop_taken [where stop = stop, OF assms(1,2), where ioctl = ioctl and tod = tod and sleep = sleep and es = es and st = "(writer_init, d)"
        and i = 0 and prev = None and idx = "-1" and rel = 0] p by simp
  with p have "es \<noteq> [] \<Longrightarrow> \<exists>v. pb_playback (remoteIPlayback (playStubOf ?env peer tU tP)) (f, rp,
      s\<lparr>ps_sessions := ?reg, ps_playback := (ps_playback s)\<lparr>cached := es, playing := False\<rparr>\<rparr>, d) =
      ((True, \<lparr>sc_code = 0, sc_message = []\<rparr>), v)"
    using assms(4) by (simp add: remoteIPlayback_def remotePlayback_def playStubOf_def svcPlayback_def call2 lpPlayback_def
        is_ok_def grpc_ok_def responseOr_def statusToProto_def Let_def del: fun_upd_apply)
  then show ?thesis using up by (auto simp: deviceUploadAndPlay_def)
qed

lemma replay_succeeds:
  assumes ap: "files_apart io" and dev: "takes_all dio" "\<And>w. \<not> stop w" "session_lives peer tU tP rp s" "ps_configured s" "\<not> rp_playing rp"
    and o: "openFd io p O_RDONLY 0 (f, rp, s, d) = (inFd, v1)" and rd: "readInputAll io inFd v1 = Some (True, text, v2)"
    and c: "toEvents h text v2 = ((0, out), v2)" and "out \<noteq> []" "p \<noteq> []" "0 \<le> inFd" "\<And>w. \<not> sigint w"
  shows "\<exists>v. playbackRun io h sigint
      (Some (remoteIPlayback (playStubOf (play_env_of (logged dio) ioctl tod sleep stop) peer tU tP))) True p (f, rp, s, d) = Some (0, v)"
proof -
  have "v2 = (fst v2, rp, s, d)" using file_calls_apart(1) [OF ap o] file_calls_apart(3) [OF ap rd] by (simp add: prod_eq_iff)
  then have "fst (deviceUploadAndPlay (remoteIPlayback (playStubOf (play_env_of (logged dio) ioctl tod sleep stop) peer tU tP)) out v2)"
    using deviceUploadAndPlay_succeeds [OF dev, where ioctl = ioctl and tod = tod and sleep = sleep and es = out and f = "fst v2" and d = d] by simp
  then show ?thesis using assms(7-) by (simp add: playbackRun_def split_beta del: split_paired_Ex)
qed

section \<open>A disk for the example\<close>

text \<open>The file holds what is still to be read, and comes in blocks of the size asked for.\<close>

definition replay_io :: "(string \<times> 'x) IFileSystem" where
  "replay_io =
     \<lparr>io_open = (\<lambda>p f m w. (3, w)), io_close = (\<lambda>fd w. (0, w)),
      io_read = (\<lambda>fd k w. ((int (min k (length (fst w))), take k (fst w)), (drop k (fst w), snd w))),
      io_write = (\<lambda>fd d w. (int (length d), w)), io_poll = (\<lambda>fds t w. ((0, []), w)), io_fsync = (\<lambda>fd w. (0, w)),
      io_fflushStdout = (\<lambda>w. (0, w)), io_errno = (\<lambda>w. 0), io_set_errno = (\<lambda>e w. w)\<rparr>"

lemma replay_io_apart: "files_apart replay_io"
  by (simp add: files_apart_def replay_io_def)

lemma replay_io_reads: "readLoop replay_io fd out (u, x) = Some (True, out @ u, [], x)"
proof (induction u arbitrary: out rule: length_induct)
  case (1 u)
  show ?case
  proof (cases "u = []")
    case True
    then show ?thesis by (subst readLoop.simps) (simp add: replay_io_def)
  next
    case False
    then have "readLoop replay_io fd (out @ take 8192 u) (drop 8192 u, x) = Some (True, (out @ take 8192 u) @ drop 8192 u, [], x)"
      using 1 by simp
    moreover have "take (nat (int (min 8192 (length u)))) (take 8192 u) = take 8192 u" by (simp add: min_def)
    ultimately show ?thesis using False
      by (subst readLoop.simps) (simp add: replay_io_def Let_def)
  qed
qed

lemma replay_io_file:
  "p \<noteq> [] \<Longrightarrow> openFd replay_io p O_RDONLY 0 (u, x) = (3, u, x)" "readInputAll replay_io 3 (u, x) = Some (True, u, [], x)"
  using replay_io_reads [of 3 "[]" u x] by (simp_all add: openFd_def readInputAll_def) (simp add: replay_io_def)

definition demo_service :: play_service where
  "demo_service =
     \<lparr>ps_configured = True, ps_playback = playback_init,
      ps_sessions = (newRegistry 0 3000)\<lparr>sessions := [''ab'' \<mapsto> \<lparr>sr_peer = ''ipv4:1'', sr_lastHeartbeat = 0\<rparr>]\<rparr>,
      playbackProgressSem = 0, subscriberActive = False, playbackProgressFinished = False\<rparr>"

definition demo_proxy :: RemotePlayback where
  "demo_proxy = \<lparr>rp_playing = False, rp_sessionId = ''ab'', reportedIndex = -1\<rparr>"

lemma demo_lives: "session_lives ''ipv4:1'' 1000 2000 demo_proxy demo_service"
  by (simp add: session_lives_def demo_proxy_def demo_service_def newRegistry_def expired_def)

definition demo_evs :: "InputEvent list" where
  "demo_evs = [demo_ev kKeyboard 700 1 30 1, demo_ev kMouse 900 2 0 (-4)]"

definition demo_rec :: Record where
  "demo_rec = newRecord (Some (\<lambda>k. if k = ''outputPath'' then AString ''out.txt'' else AKinds [])) True True"

definition replay_host :: "'w lua_host" where
  "replay_host = \<lparr>lh_lua = (\<lambda>f s. Done 3), lh_newstate = True, lh_cursor = None, lh_now = (\<lambda>w. (0, w))\<rparr>"

definition script_host :: "'w lua_host" where
  "script_host = \<lparr>lh_lua = (\<lambda>f s. Call False luaMouseMove [Some 7, Some 0] (\<lambda>r. Done 0)), lh_newstate = True,
     lh_cursor = None, lh_now = (\<lambda>w. (0, w))\<rparr>"

lemma script_composes:
  obtains out where "toEvents script_host ''go()'' w = ((0, out), w)" "out \<noteq> []"
proof -
  have r: "\<not> textLooksLikeRecordingFormat ''go()''" by code_simp
  have "\<exists>out. toEvents script_host ''go()'' w = ((0, out), w) \<and> out \<noteq> []"
    by (simp add: script_host_def toEvents_def r playbackLuaChunkIntoCollector_def runLuaWithBindings_def c_str_def bindMouseMove_def
        checkInteger_def pushBool_def mouseMove_def wrap_i32_def collectorWriteRaw_def appendBatchWithTimeline_def
        collector_init_def collectorClear_def takeEvents_def normalizeTimelineToZero_def Let_def split_beta)
  then show thesis using that by blast
qed

lemma demo_composes:
  obtains w' out where "recordRun demo_env demo_rec \<lparr>dw_left = 1, dw_batches = [demo_evs], dw_history = [], dw_file = ''x''\<rparr> = Some (0, w')"
    "recordedEvents (rc_mode demo_rec) (dw_history w') = demo_evs" "toEvents h (dw_file w') v = ((0, out), v)" "out \<noteq> []"
proof -
  let ?w = "\<lparr>dw_left = 1, dw_batches = [demo_evs], dw_history = [], dw_file = ''x''\<rparr> :: demo_world"
  obtain w' where run: "recordRun demo_env demo_rec ?w = Some (0, w')" and hist: "dw_history w' = demo_evs"
    using demo_run [OF demo_evs_def demo_rec_def] by auto
  have rec: "recordedEvents (rc_mode demo_rec) (dw_history w') = demo_evs" unfolding hist by code_simp
  have path: "rc_outputPath demo_rec \<noteq> []" "dw_history ?w = []" by (simp_all add: demo_rec_def newRecord_def getString_def)
  obtain fd rs and w2 w3 :: demo_world where r: "wrote (\<lambda>w fd. dw_file w) fd (rec_init, w2) (rs, w3) demo_evs" "dw_file w2 = []"
    "(\<lambda>fd :: int. dw_file w') = (\<lambda>fd. dw_file w3)" "list_all input_ok demo_evs"
    by (rule record_wrote [OF demo_env_ok(1,2) run path rec [symmetric]])
  have "dw_file w' = dw_file w3" using r(3) by (rule fun_cong)
  then obtain out where "toEvents h (dw_file w') v = ((0, out), v)"
    "map eventTimeUs out = map (\<lambda>e. inputUs e - Min (set (map inputUs demo_evs))) demo_evs"
    using wrote_reads_back [OF r(1,2) _ r(4), of h v] by (auto simp: demo_evs_def)
  then show thesis by (intro that [OF run rec]) (auto simp: demo_evs_def)
qed

lemma demo_replay:
  assumes "toEvents h text ([], demo_proxy, demo_service, d) = ((0, out), ([], demo_proxy, demo_service, d))" and "out \<noteq> []"
  shows "\<exists>v. playbackRun replay_io h (\<lambda>w. False)
    (Some (remoteIPlayback (playStubOf (play_env_of (logged desc_io) ioctl (\<lambda>w. (0, 0)) (\<lambda>us w. w) (\<lambda>w. False)) ''ipv4:1'' 1000 2000)))
    True ''in'' (text, demo_proxy, demo_service, d) = Some (0, v)"
proof -
  have "takes_all desc_io" by (simp add: takes_all_def desc_io_def)
  moreover have "ps_configured demo_service" "\<not> rp_playing demo_proxy" by (simp_all add: demo_service_def demo_proxy_def)
  ultimately show ?thesis
    using replay_succeeds [where stop = "\<lambda>w. False" and sigint = "\<lambda>w. False" and p = "''in''" and inFd = 3, OF replay_io_apart _ _ demo_lives
        _ _ replay_io_file(1,2) assms, where dio = desc_io and ioctl = ioctl] by (simp del: split_paired_Ex)
qed

section \<open>The property\<close>

text \<open>C5. Replay of any file. When \<open>Playback::run\<close> has returned 0 for a file with whatever contents, recorded
  lines and scripts included, through the proxy of a device whose playback nobody stops, the file
  composed to some events, at least one, and the device's kernel has accepted exactly the packets of
  these events, in order, each on the node of its device, after what it had accepted before.\<close>

theorem replay_any_delivers:
  assumes ap: "files_apart io" "host_apart h" and stop: "\<And>w. \<not> stop w" and sleep: "\<And>us wl. snd (sleep us wl) = snd wl"
    and play: "play = play_env_of (logged dio) ioctl tod sleep stop"
    and o: "openFd io p O_RDONLY 0 (f, rp, s, dw, l) = (inFd, v1)" and rd: "readInputAll io inFd v1 = Some (True, text, v2)"
    and run: "playbackRun io h sigint (Some (remoteIPlayback (playStubOf play peer tU tP))) True p (f, rp, s, dw, l)
      = Some (0, f', rp', s', dw', l')"
  shows "\<exists>out v3 idx writer dw''. toEvents h text v2 = ((0, out), v3) \<and> out \<noteq> []
    \<and> playLoop play out 0 None (-1) 0 (writer_init, dw, l) = (True, idx, length out, writer, dw'', l')
    \<and> map wireOf l' = map wireOf l @ concat (map (eventWire (dev_route (writer, dw''))) out)"
proof -
  obtain err out v3 where t: "toEvents h text v2 = ((err, out), v3)" by (metis prod.collapse)
  have ok: "err = 0" "out \<noteq> []" using run o rd t by (auto simp: playbackRun_def split: if_splits)
  note c = t [unfolded ok(1)]
  obtain idx rel writer dw'' where pl: "playLoop play out 0 None (-1) 0 (writer_init, dw, l) = (True, idx, rel, writer, dw'', l')"
    by (rule replay_plays [OF ap(1) play o rd c toEvents_apart [OF ap(2) c] run])
  have "\<forall>e \<in> set out. in_i32 (ie_value e)"
    using toEvents_typed [OF c] by (simp add: list_all_iff event_typed_def fields_typed_def)
  from playLoop_wire [OF this stop sleep pl [unfolded play]]
  have w: "dev_wire (writer, dw'', l') = dev_wire (writer_init, dw, l) @ concat (map (eventWire (dev_route (writer, dw'', l'))) out)"
    "rel = length out" by simp_all
  have "dev_route (writer, dw'', l') = dev_route (writer, dw'')" by (simp add: dev_route_def)
  then have wire: "map wireOf l' = map wireOf l @ concat (map (eventWire (dev_route (writer, dw''))) out)"
    using w(1) by (simp only: dev_wire_def prod.case)
  show ?thesis by (intro exI conjI, rule c, rule ok, rule pl [unfolded w(2)], rule wire)
qed

theorem replay_any_delivers_witness:
  "let play = play_env_of (logged desc_io) (\<lambda>w fd. \<lparr>ioc_name = Some ''mouse'', ioc_ev = Some [6],
                ioc_key = Some [0, 0, 0, 0, 65536], ioc_abs = Some [], ioc_rel = Some [3]\<rparr>)
                (\<lambda>w. (0, 0)) (\<lambda>us w. w) (\<lambda>w. False)
   in \<exists>f' rp' s' dw' l' out v3 idx writer dw''.
     playbackRun replay_io script_host (\<lambda>w. False) (Some (remoteIPlayback (playStubOf play ''ipv4:1'' 1000 2000))) True ''in''
         (''go()'', demo_proxy, demo_service, [], []) = Some (0, f', rp', s', dw', l')
     \<and> toEvents script_host ''go()'' ([] :: string, demo_proxy, demo_service, [] :: int list, [] :: (int \<times> string) list)
         = ((0, out), v3) \<and> out \<noteq> []
     \<and> playLoop play out 0 None (-1) 0 (writer_init, [], []) = (True, idx, length out, writer, dw'', l')
     \<and> map wireOf l' = concat (map (eventWire (dev_route (writer, dw''))) out)"
proof -
  define ioctl :: "int list \<times> (int \<times> string) list \<Rightarrow> int \<Rightarrow> evdev_ioctl" where "ioctl = (\<lambda>w fd. \<lparr>ioc_name = Some ''mouse'', ioc_ev = Some [6],
                ioc_key = Some [0, 0, 0, 0, 65536], ioc_abs = Some [], ioc_rel = Some [3]\<rparr>)"
  define play where "play = play_env_of (logged desc_io) ioctl (\<lambda>w. (0, 0)) (\<lambda>us w. w) (\<lambda>w. False)"
  let ?v = "\<lambda>u. (u, demo_proxy, demo_service, [], []) :: string \<times> RemotePlayback \<times> play_service \<times> int list \<times> (int \<times> string) list"
  obtain out where c: "toEvents script_host ''go()'' (?v []) = ((0, out), ?v [])" "out \<noteq> []"
    by (rule script_composes)
  obtain f' rp' s' dw' l' where pb: "playbackRun replay_io script_host (\<lambda>w. False)
      (Some (remoteIPlayback (playStubOf play ''ipv4:1'' 1000 2000))) True ''in'' (?v ''go()'') = Some (0, f', rp', s', dw', l')"
    using demo_replay [OF c, of ioctl] unfolding play_def by auto
  have opn: "openFd replay_io ''in'' O_RDONLY 0 (?v ''go()'') = (3, ?v ''go()'')" by (rule replay_io_file(1)) simp
  have h: "host_apart script_host" by (simp add: host_apart_def script_host_def)
  have never: "\<not> False" by simp
  obtain out' v3 idx writer dw'' where r: "toEvents script_host ''go()'' (?v []) = ((0, out'), v3)" "out' \<noteq> []"
    "playLoop play out' 0 None (-1) 0 (writer_init, [], []) = (True, idx, length out', writer, dw'', l')"
    "map wireOf l' = map wireOf [] @ concat (map (eventWire (dev_route (writer, dw''))) out')"
    using replay_any_delivers [OF replay_io_apart h _ _ play_def opn replay_io_file(2) pb, OF never refl]
    by (elim exE conjE)
  show ?thesis unfolding Let_def ioctl_def [symmetric] play_def [symmetric]
    by (intro exI conjI, rule pb, rule r, rule r, rule r, rule r(4) [unfolded list.map append_Nil])
qed



end
