(* ===== verification/Listener.thy ===== *)
theory Listener
  imports InputDevice Session Settings
begin

text \<open>
  Listening to devices: \<open>LocalInputListener\<close>
  (\<open>evrp/device/impl/server/localinputlistener.cpp\<close>), the gRPC service over it
  (\<open>grpc/grpcinputlisten.cpp\<close>) and the client's \<open>RemoteInputListener\<close>
  (\<open>evrp/device/impl/client/remoteinputlistener.cpp\<close>). The operations hold the
  listener's mutex and are modelled as atomic; \<open>PostedInputListener\<close> forwards each to one
  worker. The clock and \<open>ServerContext::IsCancelled\<close> are read from the world.
\<close>

section \<open>LocalInputListener\<close>

record TrackedDevice =
  td_fd :: int
  td_kind :: DeviceKind
  td_path :: string

record LocalInputListener =
  listeningActive :: bool
  disposed :: bool
  li_devices :: "TrackedDevice list"
  pollReadyIndices :: "nat set"

definition listener_init :: LocalInputListener where
  "listener_init = \<lparr>listeningActive = False, disposed = False, li_devices = [], pollReadyIndices = {}\<rparr>"

definition toApiInputEvent :: "DeviceKind \<Rightarrow> Event \<Rightarrow> InputEvent" where
  "toApiInputEvent device ev =
     \<lparr>ie_device = device, ie_timeSec = ev_sec ev, ie_timeUsec = ev_usec ev, ie_type = ucast (ev_type ev),
      ie_code = ucast (ev_code ev), ie_value = ev_value ev\<rparr>"

fun listenDevicesSummary :: "TrackedDevice list \<Rightarrow> string \<Rightarrow> string" where
  "listenDevicesSummary [] lst = lst"
| "listenDevicesSummary (d # ds) lst =
     listenDevicesSummary ds ((if lst \<noteq> [] then lst @ '', '' else lst) @ kindToString (td_kind d) @ ''='' @ td_path d)"

fun closeAll :: "'w IFileSystem \<Rightarrow> TrackedDevice list \<Rightarrow> 'w \<Rightarrow> 'w" where
  "closeAll io [] w = w"
| "closeAll io (d # ds) w = closeAll io ds (if td_fd d \<ge> 0 then closeFd io (td_fd d) w else w)"

definition closeDevices :: "'w IFileSystem \<Rightarrow> LocalInputListener \<times> 'w \<Rightarrow> LocalInputListener \<times> 'w" where
  "closeDevices io = (\<lambda>(self, w).
     (self\<lparr>li_devices := [], pollReadyIndices := {}\<rparr>, closeAll io (li_devices self) w))"

definition cancelListening :: "'w IFileSystem \<Rightarrow> LocalInputListener \<times> 'w \<Rightarrow> LocalInputListener \<times> 'w" where
  "cancelListening io = (\<lambda>(self, w).
     let self1 = self\<lparr>listeningActive := False\<rparr> in
     if disposed self1 then (self1, w) else closeDevices io (self1, w))"

definition dispose :: "'w IFileSystem \<Rightarrow> LocalInputListener \<times> 'w \<Rightarrow> LocalInputListener \<times> 'w" where
  "dispose io st = (let (self, w) = cancelListening io st in (self\<lparr>disposed := True\<rparr>, w))"

text \<open>The loop over the paths of one kind, with the paths seen and the devices opened so far.\<close>

fun openPaths ::
  "'w IFileSystem \<Rightarrow> DeviceKind \<Rightarrow> string list \<Rightarrow> string set \<Rightarrow> TrackedDevice list \<Rightarrow> 'w
   \<Rightarrow> string set \<times> TrackedDevice list \<times> 'w" where
  "openPaths io k [] seen devs w = (seen, devs, w)"
| "openPaths io k (path # paths) seen devs w =
     (if length devs \<ge> 32 then (seen, devs, w)
      else if path \<in> seen then openPaths io k paths seen devs w
      else let (fd, w1) = openFd io path (O_RDONLY OR O_NONBLOCK) 0 w in
           if fd < 0 then openPaths io k paths (insert path seen) devs w1
           else openPaths io k paths (insert path seen) (devs @ [\<lparr>td_fd = fd, td_kind = k, td_path = path\<rparr>]) w1)"

fun openKinds ::
  "'w IFileSystem \<Rightarrow> ('w \<Rightarrow> int \<Rightarrow> evdev_ioctl) \<Rightarrow> DeviceKind list \<Rightarrow> string set \<Rightarrow> TrackedDevice list \<Rightarrow> 'w
   \<Rightarrow> TrackedDevice list \<times> 'w" where
  "openKinds io ioctl [] seen devs w = (devs, w)"
| "openKinds io ioctl (k # ks) seen devs w =
     (if k = kUnspecified then openKinds io ioctl ks seen devs w
      else
        let (paths, w1) = findAllDevicePaths io ioctl k w in
        if paths = [] then openKinds io ioctl ks seen devs w1
        else let (seen', devs', w2) = openPaths io k paths seen devs w1 in
             if length devs' \<ge> 32 then (devs', w2) else openKinds io ioctl ks seen' devs' w2)"

definition startListening ::
  "'w IFileSystem \<Rightarrow> ('w \<Rightarrow> int \<Rightarrow> evdev_ioctl) \<Rightarrow> DeviceKind list \<Rightarrow> LocalInputListener \<times> 'w
   \<Rightarrow> bool \<times> LocalInputListener \<times> 'w" where
  "startListening io ioctl kinds = (\<lambda>(self, w).
     if disposed self then (False, self, w)
     else if listeningActive self then (False, self, w)
     else let (new_devices, w1) = openKinds io ioctl kinds {} [] w in
          if new_devices = [] then (False, self, w1)
          else (True, self\<lparr>li_devices := new_devices, listeningActive := True\<rparr>, w1))"

fun readReady ::
  "'w IFileSystem \<Rightarrow> TrackedDevice list \<Rightarrow> nat \<Rightarrow> nat list \<Rightarrow> 'w \<Rightarrow> InputEvent list \<times> 'w" where
  "readReady io devs n [] w = ([], w)"
| "readReady io devs n (i # idx) w =
     (if i \<ge> n then readReady io devs n idx w
      else
        let ((ne, evbuf), w1) = readEvents io (td_fd (devs ! i)) 64 w;
            evs = (if ne \<le> 0 then []
                   else map (toApiInputEvent (td_kind (devs ! i)))
                          (filter (\<lambda>ev. ev_type ev \<noteq> EV_SYN) (take (nat ne) evbuf)));
            (rest, w2) = readReady io devs n idx w1
        in (evs @ rest, w2))"

definition readInputEvents ::
  "'w IFileSystem \<Rightarrow> LocalInputListener \<times> 'w \<Rightarrow> InputEvent list \<times> LocalInputListener \<times> 'w" where
  "readInputEvents io = (\<lambda>(self, w).
     if disposed self then ([], self, w)
     else if \<not> listeningActive self \<or> li_devices self = [] then ([], self, w)
     else if pollReadyIndices self = {} then ([], self, w)
     else
       let n = min (length (li_devices self)) 32;
           (out, w1) = readReady io (li_devices self) n (sorted_list_of_set (pollReadyIndices self)) w
       in (out, self\<lparr>pollReadyIndices := {}\<rparr>, w1))"

definition waitForInputEvent ::
  "'w IFileSystem \<Rightarrow> int \<Rightarrow> LocalInputListener \<times> 'w \<Rightarrow> bool \<times> LocalInputListener \<times> 'w" where
  "waitForInputEvent io timeoutMs = (\<lambda>(self, w).
     if \<not> listeningActive self \<or> disposed self then (False, self, w)
     else if timeoutMs < 0 then (False, self, w)
     else if li_devices self = [] then (False, self, w)
     else
       let n = min (length (li_devices self)) 32;
           ((ret, ready), w1) = pollFds io (map td_fd (take n (li_devices self))) timeoutMs w
       in if ret \<le> 0 then (False, self, w1)
          else let idx = pollReadyIndices self \<union> {j. j < n \<and> j < length ready \<and> ready ! j}
               in (idx \<noteq> {}, self\<lparr>pollReadyIndices := idx\<rparr>, w1))"

section \<open>The gRPC service\<close>

record 'w listen_env =
  le_io :: "'w IFileSystem"
  le_ioctl :: "'w \<Rightarrow> int \<Rightarrow> evdev_ioctl"
  le_now :: "'w \<Rightarrow> int"
  le_cancelled :: "'w \<Rightarrow> bool"

record listen_service =
  ls_listener :: LocalInputListener
  ls_configured :: bool
  lastRecordingActivityNs :: int
  ls_sessions :: SessionRegistry

abbreviation "recordingActivityBump env s w \<equiv> s\<lparr>lastRecordingActivityNs := le_now env w\<rparr>"

text \<open>The check each handler starts with: a session, then a listener.\<close>

definition guardListen ::
  "'w listen_env \<Rightarrow> server_context \<Rightarrow> listen_service \<Rightarrow> 'w \<Rightarrow> grpc_status \<times> listen_service" where
  "guardListen env ctx s w =
     (let (st, reg) = requireBusinessSession ctx (le_now env w) (ls_sessions s);
          s1 = s\<lparr>ls_sessions := reg\<rparr>
      in if \<not> is_ok st then (st, s1)
         else if \<not> ls_configured s1 then (status FAILED_PRECONDITION ''input listener not configured'', s1)
         else (grpc_ok, s1))"

definition cancelOn :: "'w listen_env \<Rightarrow> listen_service \<times> 'w \<Rightarrow> listen_service \<times> 'w" where
  "cancelOn env = (\<lambda>(s, w). let (l, w') = cancelListening (le_io env) (ls_listener s, w) in (s\<lparr>ls_listener := l\<rparr>, w'))"

definition svcStartRecording ::
  "'w listen_env \<Rightarrow> server_context \<Rightarrow> int list \<Rightarrow> listen_service \<times> 'w \<Rightarrow> grpc_status \<times> listen_service \<times> 'w" where
  "svcStartRecording env ctx reqKinds = (\<lambda>(s0, w0).
     let (st, s) = guardListen env ctx s0 w0 in
     if \<not> is_ok st then (st, s, w0)
     else
       let (s1, w1) = (if listeningActive (ls_listener s) then cancelOn env (s, w0) else (s, w0)) in
       if listeningActive (ls_listener s1) then
         (status ABORTED ''could not clear previous recording session; retry StopRecording'', s1, w1)
       else
         let (ok, l, w2) = startListening (le_io env) (le_ioctl env) (kindsFromProto reqKinds) (ls_listener s1, w1);
             s2 = s1\<lparr>ls_listener := l\<rparr>
         in if \<not> ok then (status FAILED_PRECONDITION (''startListening failed: no evdev opened for requested kinds (see '' @
                    ''evrp-device log: LocalInputListener lines)''), s2, w2)
            else (grpc_ok, recordingActivityBump env s2 w2, w2))"

text \<open>The loop of \<open>WaitForInputEvent\<close>: slices of at most 150 ms until the deadline.\<close>

partial_function (option) waitLoop ::
  "'w listen_env \<Rightarrow> int \<Rightarrow> listen_service \<Rightarrow> 'w \<Rightarrow> (bool \<times> listen_service \<times> 'w) option" where
  "waitLoop env deadline s w =
     (if \<not> listeningActive (ls_listener s) then Some (False, s, w)
      else
        let s1 = recordingActivityBump env s w in
        if le_cancelled env w then
          (let (s2, w2) = cancelOn env (s1, w) in Some (False, s2, w2))
        else
          let now = le_now env w in
          if now \<ge> deadline then Some (False, s1, w)
          else
            let remaining_ms = (deadline - now) sdiv 1000000;
                slice_ms = min 150 (max 1 remaining_ms);
                r = waitForInputEvent (le_io env) slice_ms (ls_listener s1, w);
                s2 = s1\<lparr>ls_listener := fst (snd r)\<rparr>
            in if fst r then Some (True, s2, snd (snd r)) else waitLoop env deadline s2 (snd (snd r)))"

definition svcWaitForInputEvent ::
  "'w listen_env \<Rightarrow> server_context \<Rightarrow> int \<Rightarrow> listen_service \<times> 'w
   \<Rightarrow> ((grpc_status \<times> bool) \<times> listen_service \<times> 'w) option" where
  "svcWaitForInputEvent env ctx timeout_ms = (\<lambda>(s0, w).
     let (st, s) = guardListen env ctx s0 w in
     if \<not> is_ok st then Some ((st, False), s, w)
     else if timeout_ms < 0 then Some ((status INVALID_ARGUMENT ''timeout_ms must be >= 0'', False), s, w)
     else if \<not> listeningActive (ls_listener s) then Some ((grpc_ok, False), s, w)
     else
       let s1 = recordingActivityBump env s w in
       if timeout_ms = 0 then
         (if le_cancelled env w then
            (let (s2, w2) = cancelOn env (s1, w) in Some ((grpc_ok, False), s2, w2))
          else let (r, l, w2) = waitForInputEvent (le_io env) 0 (ls_listener s1, w)
               in Some ((grpc_ok, r), s1\<lparr>ls_listener := l\<rparr>, w2))
       else map_option (\<lambda>(ready, s2, w2). ((grpc_ok, ready), s2, w2))
              (waitLoop env (le_now env w + timeout_ms * 1000000) s1 w))"

definition svcReadInputEvents ::
  "'w listen_env \<Rightarrow> server_context \<Rightarrow> listen_service \<times> 'w
   \<Rightarrow> (grpc_status \<times> proto_InputEvent list) \<times> listen_service \<times> 'w" where
  "svcReadInputEvents env ctx = (\<lambda>(s0, w0).
     let (st, s) = guardListen env ctx s0 w0 in
     if \<not> is_ok st then ((st, []), s, w0)
     else
       let (s1, w1) = (if le_cancelled env w0 then cancelOn env (s, w0) else (s, w0));
           s2 = (if listeningActive (ls_listener s1) then recordingActivityBump env s1 w1 else s1);
           (batch, l, w2) = readInputEvents (le_io env) (ls_listener s2, w1)
       in ((grpc_ok, eventsToProto batch), s2\<lparr>ls_listener := l\<rparr>, w2))"

definition svcStopRecording ::
  "'w listen_env \<Rightarrow> server_context \<Rightarrow> listen_service \<times> 'w \<Rightarrow> grpc_status \<times> listen_service \<times> 'w" where
  "svcStopRecording env ctx = (\<lambda>(s0, w0).
     let (st, s) = guardListen env ctx s0 w0 in
     if \<not> is_ok st then (st, s, w0)
     else let (s1, w1) = (if listeningActive (ls_listener s) then cancelOn env (s, w0) else (s, w0))
          in (grpc_ok, s1, w1))"

text \<open>One round of the watchdog thread.\<close>

definition watchdogTick :: "'w listen_env \<Rightarrow> int \<Rightarrow> listen_service \<times> 'w \<Rightarrow> listen_service \<times> 'w" where
  "watchdogTick env timeout_ms = (\<lambda>(s, w).
     if timeout_ms \<le> 0 \<or> \<not> ls_configured s \<or> \<not> listeningActive (ls_listener s) then (s, w)
     else if le_now env w - lastRecordingActivityNs s > timeout_ms * 1000000 then cancelOn env (s, w)
     else (s, w))"

section \<open>RemoteInputListener\<close>

text \<open>What the generated stub does for each call, given the metadata of the context.\<close>

record 'w listen_stub =
  stub_StartRecording :: "metadata \<Rightarrow> int list \<Rightarrow> 'w \<Rightarrow> grpc_status \<times> 'w"
  stub_WaitForInputEvent :: "metadata \<Rightarrow> int \<Rightarrow> 'w \<Rightarrow> (grpc_status \<times> bool) \<times> 'w"
  stub_ReadInputEvents :: "metadata \<Rightarrow> 'w \<Rightarrow> (grpc_status \<times> proto_InputEvent list) \<times> 'w"
  stub_StopRecording :: "metadata \<Rightarrow> 'w \<Rightarrow> grpc_status \<times> 'w"

record RemoteInputListener =
  ril_active :: bool
  ril_sessionId :: string

definition remoteStart ::
  "'w listen_stub \<Rightarrow> DeviceKind list \<Rightarrow> RemoteInputListener \<times> 'w \<Rightarrow> bool \<times> RemoteInputListener \<times> 'w" where
  "remoteStart stub kinds = (\<lambda>(self, w).
     if ril_active self then (False, self, w)
     else if kindsToProto kinds = [] then (False, self, w)
     else let (st, w') = stub_StartRecording stub (addSessionMetadata [] (ril_sessionId self)) (kindsToProto kinds) w in
          if \<not> is_ok st then (False, self, w') else (True, self\<lparr>ril_active := True\<rparr>, w'))"

definition remoteRead ::
  "'w listen_stub \<Rightarrow> RemoteInputListener \<times> 'w \<Rightarrow> InputEvent list \<times> RemoteInputListener \<times> 'w" where
  "remoteRead stub = (\<lambda>(self, w).
     if \<not> ril_active self then ([], self, w)
     else let ((st, evs), w') = stub_ReadInputEvents stub (addSessionMetadata [] (ril_sessionId self)) w in
          if \<not> is_ok st then ([], self, w') else (eventsFromProto evs, self, w'))"

definition remoteWait ::
  "'w listen_stub \<Rightarrow> int \<Rightarrow> RemoteInputListener \<times> 'w \<Rightarrow> bool \<times> RemoteInputListener \<times> 'w" where
  "remoteWait stub timeoutMs = (\<lambda>(self, w).
     if timeoutMs < 0 then (False, self, w)
     else if \<not> ril_active self then (False, self, w)
     else let ((st, ready), w') = stub_WaitForInputEvent stub (addSessionMetadata [] (ril_sessionId self)) timeoutMs w in
          if \<not> is_ok st then (False, self, w') else (ready, self, w'))"

definition remoteCancel ::
  "'w listen_stub \<Rightarrow> RemoteInputListener \<times> 'w \<Rightarrow> RemoteInputListener \<times> 'w" where
  "remoteCancel stub = (\<lambda>(self, w).
     if \<not> ril_active self then (self, w)
     else let (st, w') = stub_StopRecording stub (addSessionMetadata [] (ril_sessionId self)) w
          in (self\<lparr>ril_active := False\<rparr>, w'))"

section \<open>What holds of the listener\<close>

text \<open>The invariant, in a world where the descriptors \<open>outside\<close> belong to others.\<close>

definition listener_ok :: "('w \<Rightarrow> int set) \<Rightarrow> int set \<Rightarrow> LocalInputListener \<times> 'w \<Rightarrow> bool" where
  "listener_ok opened outside = (\<lambda>(self, w).
     (listeningActive self \<longleftrightarrow> li_devices self \<noteq> [])
     \<and> length (li_devices self) \<le> 32
     \<and> distinct (map td_path (li_devices self))
     \<and> distinct (map td_fd (li_devices self))
     \<and> (\<forall>d \<in> set (li_devices self). td_fd d \<ge> 0 \<and> td_kind d \<noteq> kUnspecified)
     \<and> pollReadyIndices self \<subseteq> {..<length (li_devices self)}
     \<and> (disposed self \<longrightarrow> li_devices self = [])
     \<and> opened w = outside \<union> td_fd ` set (li_devices self)
     \<and> outside \<inter> td_fd ` set (li_devices self) = {})"

datatype listener_op = LStart "DeviceKind list" | LWait int | LRead | LCancel | LDispose

fun listenerOp ::
  "'w IFileSystem \<Rightarrow> ('w \<Rightarrow> int \<Rightarrow> evdev_ioctl) \<Rightarrow> listener_op \<Rightarrow> LocalInputListener \<times> 'w \<Rightarrow> LocalInputListener \<times> 'w" where
  "listenerOp io ioctl (LStart ks) st = snd (startListening io ioctl ks st)"
| "listenerOp io ioctl (LWait t) st = snd (waitForInputEvent io t st)"
| "listenerOp io ioctl LRead st = snd (readInputEvents io st)"
| "listenerOp io ioctl LCancel st = cancelListening io st"
| "listenerOp io ioctl LDispose st = dispose io st"

text \<open>The devices collected so far while opening.\<close>

definition devs_ok :: "('w \<Rightarrow> int set) \<Rightarrow> int set \<Rightarrow> string set \<Rightarrow> TrackedDevice list \<Rightarrow> 'w \<Rightarrow> bool" where
  "devs_ok opened outside seen devs w \<longleftrightarrow>
     length devs \<le> 32 \<and> distinct (map td_path devs) \<and> distinct (map td_fd devs) \<and> td_path ` set devs \<subseteq> seen
     \<and> (\<forall>d \<in> set devs. td_fd d \<ge> 0 \<and> td_kind d \<noteq> kUnspecified)
     \<and> opened w = outside \<union> td_fd ` set devs \<and> outside \<inter> td_fd ` set devs = {}"

text \<open>A call of \<open>poll\<close> takes time on the clock.\<close>

definition poll_takes_time :: "'w listen_env \<Rightarrow> bool" where
  "poll_takes_time env \<longleftrightarrow> (\<forall>fds t w. le_now env (snd (io_poll (le_io env) fds t w)) > le_now env w)"

text \<open>A listener that listens has devices and is not disposed.\<close>

definition listening_sound :: "LocalInputListener \<Rightarrow> bool" where
  "listening_sound l \<longleftrightarrow> (listeningActive l \<longrightarrow> li_devices l \<noteq> [] \<and> \<not> disposed l)"

section \<open>The contract of a listener\<close>

locale input_listener =
  fixes start :: "DeviceKind list \<Rightarrow> 's \<Rightarrow> bool \<times> 's"
    and wait :: "int \<Rightarrow> 's \<Rightarrow> bool \<times> 's"
    and rd :: "'s \<Rightarrow> InputEvent list \<times> 's"
    and cancel :: "'s \<Rightarrow> 's"
    and listening :: "'s \<Rightarrow> bool"
  assumes start_listens: "start ks s = (True, s') \<Longrightarrow> listening s'"
    and start_busy: "listening s \<Longrightarrow> start ks s = (False, s)"
    and idle_wait: "\<not> listening s \<Longrightarrow> wait t s = (False, s)"
    and idle_read: "\<not> listening s \<Longrightarrow> rd s = ([], s)"
    and wait_keeps: "listening (snd (wait t s)) = listening s"
    and read_keeps: "listening (snd (rd s)) = listening s"
    and cancel_stops: "\<not> listening (cancel s)"
begin

text \<open>After a cancel nothing more is delivered until the next start, however often the client
  asks.\<close>

lemma silent_after_cancel:
  assumes "\<not> listening s"
  shows "foldl (\<lambda>(evs, s) t. let s1 = snd (wait t s); (es, s2) = rd s1 in (evs @ es, s2)) (evs0, s) ts = (evs0, s)"
  using assms by (induction ts) (simp_all add: idle_wait idle_read)

end

interpretation local: input_listener "startListening io ioctl" "waitForInputEvent io" "readInputEvents io"
  "cancelListening io" "\<lambda>(self, w). listeningActive self" for io ioctl
  by unfold_locales
     (auto simp: startListening_def waitForInputEvent_def readInputEvents_def cancelListening_def
        closeDevices_def split_beta Let_def split: if_splits)

interpretation remote: input_listener "remoteStart stub" "remoteWait stub" "remoteRead stub"
  "remoteCancel stub" "\<lambda>(self, w). ril_active self" for stub
  by unfold_locales
     (auto simp: remoteStart_def remoteWait_def remoteRead_def remoteCancel_def split_beta Let_def
        split: if_splits)

section \<open>Lemmas\<close>

lemma closeAll_opened:
  assumes "posix_descriptors io opened" and "\<forall>d \<in> set devs. td_fd d \<ge> 0"
  shows "opened (closeAll io devs w) = opened w - td_fd ` set devs"
  using assms(2) posix_descriptorsD(1) [OF assms(1)]
  by (induction devs arbitrary: w) (auto simp: closeFd_def)

lemma openPaths_ok:
  assumes "posix_descriptors io opened" and "devs_ok opened outside seen devs w" and "[] \<notin> set paths"
    and "k \<noteq> kUnspecified"
    and "openPaths io k paths seen devs w = (seen', devs', w')"
  shows "devs_ok opened outside seen' devs' w'"
  using assms(2,3,5)
proof (induction paths arbitrary: seen devs w)
  case (Cons path paths)
  obtain fd w1 where o1: "io_open io path (O_RDONLY OR O_NONBLOCK) None w = (fd, w1)" by fastforce
  have fail: "fd < 0 \<Longrightarrow> opened w1 = opened w"
    and succ: "fd \<ge> 0 \<Longrightarrow> fd \<notin> opened w \<and> opened w1 = insert fd (opened w)"
    using posix_descriptorsD(6-8) [OF assms(1), of path "O_RDONLY OR O_NONBLOCK" None w] o1 by simp_all
  have f: "openFd io path (O_RDONLY OR O_NONBLOCK) 0 w = (fd, w1)"
    using o1 Cons.prems(2) by (auto simp: openFd_def)
  consider "length devs \<ge> 32" | "length devs < 32" "path \<in> seen" | "length devs < 32" "path \<notin> seen" "fd < 0"
    | "length devs < 32" "path \<notin> seen" "fd \<ge> 0" by linarith
  then show ?case
  proof cases
    case 3
    then have "devs_ok opened outside (insert path seen) devs w1"
      using Cons.prems(1) fail by (auto simp: devs_ok_def)
    then show ?thesis using Cons.IH [of "insert path seen" devs w1] Cons.prems 3 f by simp
  next
    case 4
    let ?d = "\<lparr>td_fd = fd, td_kind = k, td_path = path\<rparr>"
    have "devs_ok opened outside (insert path seen) (devs @ [?d]) w1"
      using Cons.prems(1) succ 4 assms(4) by (auto simp: devs_ok_def)
    then show ?thesis using Cons.IH [of "insert path seen" "devs @ [?d]" w1] Cons.prems 4 f by simp
  qed (use Cons in auto)
qed simp

lemma openKinds_ok:
  assumes "posix_descriptors io opened" and "devs_ok opened outside seen devs w"
  shows "\<exists>seen'. devs_ok opened outside seen' (fst (openKinds io ioctl ks seen devs w)) (snd (openKinds io ioctl ks seen devs w))"
  using assms(2)
proof (induction ks arbitrary: seen devs w)
  case (Cons k ks)
  show ?case
  proof (cases "k = kUnspecified")
    case False
    obtain paths w1 where p: "findAllDevicePaths io ioctl k w = (paths, w1)" by fastforce
    have w1: "opened w1 = opened w" and ne: "[] \<notin> set paths"
      using findAll_opened [OF assms(1), of ioctl k w] findAll_nonempty_paths [of io ioctl k w] p by auto
    obtain seen' devs' w2 where o2: "openPaths io k paths seen devs w1 = (seen', devs', w2)"
      by (cases "openPaths io k paths seen devs w1")
    have d1: "devs_ok opened outside seen devs w1" using Cons.prems w1 by (simp add: devs_ok_def)
    have d2: "devs_ok opened outside seen' devs' w2" by (rule openPaths_ok [OF assms(1) d1 ne False o2])
    show ?thesis using False p o2 d2 Cons.IH [OF d1] Cons.IH [OF d2] by auto
  qed (use Cons in simp)
qed auto

lemma readEvents_opened:
  assumes "posix_descriptors io opened"
  shows "opened (snd (readEvents io fd m w)) = opened w"
  using posix_descriptorsD(2) [OF assms]
  by (simp add: readEvents_def readFd_def split_beta Let_def)

lemma readReady_opened:
  assumes "posix_descriptors io opened"
  shows "opened (snd (readReady io devs n idx w)) = opened w"
  by (induction idx arbitrary: w) (simp_all add: split_beta Let_def readEvents_opened [OF assms])

lemma pollFds_opened:
  assumes "posix_descriptors io opened"
  shows "opened (snd (pollFds io fds t w)) = opened w"
  using posix_descriptorsD(5) [OF assms] by (simp add: pollFds_def split_beta Let_def)

text \<open>A change of the ready set, in a world with the same open descriptors.\<close>

lemma listener_ok_frame:
  assumes "listener_ok opened outside (self, w)" and "opened w' = opened w"
    and "idx \<subseteq> {..<length (li_devices self)}"
  shows "listener_ok opened outside (self\<lparr>pollReadyIndices := idx\<rparr>, w')"
  using assms by (simp add: listener_ok_def)

lemma listener_ok_world:
  assumes "listener_ok opened outside (self, w)" and "opened w' = opened w"
  shows "listener_ok opened outside (self, w')"
  using assms by (simp add: listener_ok_def)

lemma listener_ok_idle: "listener_ok opened outside (self, w) \<Longrightarrow> li_devices self = [] \<Longrightarrow> pollReadyIndices self = {}"
  by (simp add: listener_ok_def)

lemma start_ok:
  assumes "posix_descriptors io opened" and "listener_ok opened outside (self, w)"
  shows "listener_ok opened outside (snd (startListening io ioctl ks (self, w)))"
proof (cases "disposed self \<or> listeningActive self")
  case False
  then have "devs_ok opened outside {} [] w" using assms(2) by (simp add: devs_ok_def listener_ok_def)
  then obtain seen devs w1 where d: "openKinds io ioctl ks {} [] w = (devs, w1)" "devs_ok opened outside seen devs w1"
    using openKinds_ok [OF assms(1)] by (metis prod.collapse)
  show ?thesis
  proof (cases "devs = []")
    case True
    then have "opened w1 = opened w" using d(2) assms(2) False by (simp add: devs_ok_def listener_ok_def)
    then show ?thesis using False d True listener_ok_world [OF assms(2)] by (simp add: startListening_def)
  next
    case ne: False
    have "li_devices self = []" using False assms(2) by (simp add: listener_ok_def)
    then have "pollReadyIndices self = {}" by (rule listener_ok_idle [OF assms(2)])
    then show ?thesis using ne False d assms(2) by (simp add: startListening_def devs_ok_def listener_ok_def)
  qed
qed (use assms(2) in \<open>auto simp: startListening_def\<close>)

lemma wait_ok:
  assumes "posix_descriptors io opened" and "listener_ok opened outside (self, w)"
  shows "listener_ok opened outside (snd (waitForInputEvent io t (self, w)))"
proof -
  have sub: "pollReadyIndices self \<union> {j. j < min (length (li_devices self)) 32 \<and> Q j} \<subseteq> {..<length (li_devices self)}" for Q
    using assms(2) by (auto simp: listener_ok_def)
  show ?thesis
    using listener_ok_frame [OF assms(2) pollFds_opened [OF assms(1)] sub]
      listener_ok_world [OF assms(2) pollFds_opened [OF assms(1)]] assms(2)
    by (simp add: waitForInputEvent_def split_beta Let_def)
qed

lemma read_ok:
  assumes "posix_descriptors io opened" and "listener_ok opened outside (self, w)"
  shows "listener_ok opened outside (snd (readInputEvents io (self, w)))"
  using listener_ok_frame [OF assms(2) readReady_opened [OF assms(1)], of "{}"] assms(2)
  by (simp add: readInputEvents_def split_beta Let_def)

lemma cancel_ok:
  assumes "posix_descriptors io opened" and "listener_ok opened outside (self, w)"
  shows "listener_ok opened outside (cancelListening io (self, w))
    \<and> li_devices (fst (cancelListening io (self, w))) = []"
proof (cases "disposed self")
  case False
  have "opened (closeAll io (li_devices self) w) = outside"
    using closeAll_opened [OF assms(1), of "li_devices self" w] assms(2) by (auto simp: listener_ok_def)
  then show ?thesis using False by (simp add: cancelListening_def closeDevices_def listener_ok_def)
next
  case True
  then have "li_devices self = []" using assms(2) by (simp add: listener_ok_def)
  moreover from this have "pollReadyIndices self = {}" by (rule listener_ok_idle [OF assms(2)])
  ultimately show ?thesis using True assms(2) by (simp add: cancelListening_def listener_ok_def)
qed

lemma dispose_ok:
  assumes "posix_descriptors io opened" and "listener_ok opened outside (self, w)"
  shows "listener_ok opened outside (dispose io (self, w)) \<and> li_devices (fst (dispose io (self, w))) = []"
proof -
  obtain a b where c: "cancelListening io (self, w) = (a, b)" by fastforce
  then have ok: "listener_ok opened outside (a, b)" "li_devices a = []" using cancel_ok [OF assms] by simp_all
  then have "pollReadyIndices a = {}" by (rule listener_ok_idle)
  then show ?thesis using ok c by (simp add: dispose_def listener_ok_def)
qed

lemma listenerOp_ok [inv_intros]:
  assumes "posix_descriptors io opened" and "listener_ok opened outside st"
  shows "listener_ok opened outside (listenerOp io ioctl op st)"
  using start_ok [OF assms(1)] wait_ok [OF assms(1)] read_ok [OF assms(1)] cancel_ok [OF assms(1)]
    dispose_ok [OF assms(1)] assms(2)
  by (cases st; cases op) simp_all

lemma listenerOps_ok:
  assumes "posix_descriptors io opened" and "listener_ok opened outside st"
  shows "listener_ok opened outside (fold (listenerOp io ioctl) ops st)"
  using assms(2)
proof (induction ops arbitrary: st)
  case (Cons op ops)
  then show ?case using listenerOp_ok [OF assms(1) Cons.prems] by simp
qed simp

lemma listener_init_ok: "listener_ok opened (opened w) (listener_init, w)"
  by (simp add: listener_ok_def listener_init_def)

lemma pollFds_time:
  assumes "poll_takes_time env" and "fds \<noteq> []"
  shows "le_now env (snd (pollFds (le_io env) fds t w)) > le_now env w"
  using assms by (simp add: pollFds_def poll_takes_time_def split_beta Let_def)

lemma wait_step:
  assumes "poll_takes_time env" and "listening_sound l" and "listeningActive l" and "t > 0"
  shows "le_now env (snd (snd (waitForInputEvent (le_io env) t (l, w)))) > le_now env w
    \<and> listening_sound (fst (snd (waitForInputEvent (le_io env) t (l, w))))"
proof -
  let ?n = "min (length (li_devices l)) 32"
  have ne: "map td_fd (take ?n (li_devices l)) \<noteq> []" using assms(2,3) by (simp add: listening_sound_def)
  show ?thesis using assms pollFds_time [OF assms(1) ne]
    by (simp add: waitForInputEvent_def listening_sound_def split_beta Let_def)
qed

lemma waitLoop_returns:
  assumes "poll_takes_time env" and "listening_sound (ls_listener s)"
  shows "\<exists>r. waitLoop env deadline s w = Some r"
  using assms(2)
proof (induction "nat (deadline - le_now env w)" arbitrary: s w rule: less_induct)
  case less
  show ?case
  proof (cases "\<not> listeningActive (ls_listener s) \<or> le_cancelled env w \<or> le_now env w \<ge> deadline")
    case True
    then show ?thesis by (subst waitLoop.simps) (auto simp: split_beta Let_def)
  next
    case False
    let ?t = "min 150 (max 1 ((deadline - le_now env w) sdiv 1000000))"
    let ?r = "waitForInputEvent (le_io env) ?t (ls_listener s, w)"
    have st: "le_now env (snd (snd ?r)) > le_now env w" "listening_sound (fst (snd ?r))"
      using wait_step [OF assms(1) less.prems, of ?t w] False by auto
    let ?s = "s\<lparr>lastRecordingActivityNs := le_now env w, ls_listener := fst (snd ?r)\<rparr>"
    have "\<exists>r. waitLoop env deadline ?s (snd (snd ?r)) = Some r"
      using st False by (intro less.hyps) auto
    then show ?thesis using False by (subst waitLoop.simps) (auto simp: Let_def)
  qed
qed

lemma guardListen_listener: "ls_listener (snd (guardListen env ctx s w)) = ls_listener s"
  by (simp add: guardListen_def split_beta Let_def)

section \<open>Properties\<close>

text \<open>C10. Whatever a client asks of the listener and in whatever order, it holds at most 32
  devices, no node twice, exactly while it is listening; and once it is disposed of, every
  descriptor it opened is closed.\<close>

theorem listener_holds_invariant:
  assumes "posix_descriptors io opened"
  shows "listener_ok opened (opened w) (fold (listenerOp io ioctl) ops (listener_init, w))
    \<and> opened (snd (dispose io (fold (listenerOp io ioctl) ops (listener_init, w)))) = opened w"
proof -
  let ?st = "fold (listenerOp io ioctl) ops (listener_init, w)"
  have ok: "listener_ok opened (opened w) ?st"
    by (rule listenerOps_ok [OF assms listener_init_ok])
  then have "listener_ok opened (opened w) (dispose io ?st) \<and> li_devices (fst (dispose io ?st)) = []"
    using dispose_ok [OF assms] by (cases ?st) simp
  then have "opened (snd (dispose io ?st)) = opened w"
    by (cases "dispose io ?st") (simp add: listener_ok_def)
  then show ?thesis using ok by simp
qed

theorem listener_holds_invariant_witness:
  "set (snd (dispose desc_io (fold (listenerOp desc_io (\<lambda>w fd. \<lparr>ioc_name = Some ''usb mouse'', ioc_ev = Some [6],
      ioc_key = Some [0, 0, 0, 0, 65536], ioc_abs = Some [], ioc_rel = Some [3]\<rparr>)) [LStart [kMouse], LWait 5]
      (listener_init, [9])))) = {9}"
  using listener_holds_invariant [OF desc_io_descriptors, of "[9]"] by (simp only: list.set)



end
