(* ===== verification/RemoteListening.thy ===== *)
theory RemoteListening
  imports Listener
begin

text \<open>
  Listening from another machine. The proxy \<open>RemoteInputListener\<close>
  (\<open>evrp/device/impl/client/remoteinputlistener.cpp\<close>) is joined to the service it calls
  (\<open>evrp/device/impl/server/grpc/grpcinputlisten.cpp\<close>) and to the listener behind it: what a client does
  through them, with the watchdog of the service in between, is a run of operations of
  \<open>LocalInputListener\<close>.
\<close>

section \<open>The proxy over the service\<close>

text \<open>The calls of one peer; a call that does not return is one that fails.\<close>

definition listenStubOf :: "'w listen_env \<Rightarrow> string \<Rightarrow> (listen_service \<times> 'w) listen_stub" where
  "listenStubOf env peer =
     \<lparr>stub_StartRecording = (\<lambda>md. svcStartRecording env (svcContext peer md)),
      stub_WaitForInputEvent = (\<lambda>md t st. case svcWaitForInputEvent env (svcContext peer md) t st of
          None \<Rightarrow> ((status UNAVAILABLE [], False), st) | Some r \<Rightarrow> r),
      stub_ReadInputEvents = (\<lambda>md. svcReadInputEvents env (svcContext peer md)),
      stub_StopRecording = (\<lambda>md. svcStopRecording env (svcContext peer md))\<rparr>"

text \<open>What happens at the device: an operation of the client, or a round of the watchdog. The result is
  the events the client gets.\<close>

datatype remote_op = RStart "DeviceKind list" | RWait int | RRead | RCancel | RWatchdog int

type_synonym 'w remote_state = "RemoteInputListener \<times> listen_service \<times> 'w"

fun remoteOp :: "'w listen_env \<Rightarrow> string \<Rightarrow> remote_op \<Rightarrow> 'w remote_state \<Rightarrow> InputEvent list \<times> 'w remote_state" where
  "remoteOp env peer (RStart ks) st = ([], snd (remoteStart (listenStubOf env peer) ks st))"
| "remoteOp env peer (RWait t) st = ([], snd (remoteWait (listenStubOf env peer) t st))"
| "remoteOp env peer RRead st = remoteRead (listenStubOf env peer) st"
| "remoteOp env peer RCancel st = ([], remoteCancel (listenStubOf env peer) st)"
| "remoteOp env peer (RWatchdog t) (self, st) = ([], self, watchdogTick env t st)"

fun remoteRun :: "'w listen_env \<Rightarrow> string \<Rightarrow> remote_op list \<Rightarrow> 'w remote_state \<Rightarrow> InputEvent list \<times> 'w remote_state" where
  "remoteRun env peer [] st = ([], st)"
| "remoteRun env peer (op # ops) st =
     (let (e1, st1) = remoteOp env peer op st; (e2, st2) = remoteRun env peer ops st1 in (e1 @ e2, st2))"

section \<open>The listener as the specification\<close>

fun localOp ::
  "'w listen_env \<Rightarrow> listener_op \<Rightarrow> LocalInputListener \<times> 'w \<Rightarrow> InputEvent list \<times> LocalInputListener \<times> 'w" where
  "localOp env LRead st = readInputEvents (le_io env) st"
| "localOp env op st = ([], listenerOp (le_io env) (le_ioctl env) op st)"

fun localRun ::
  "'w listen_env \<Rightarrow> listener_op list \<Rightarrow> LocalInputListener \<times> 'w \<Rightarrow> InputEvent list \<times> LocalInputListener \<times> 'w" where
  "localRun env [] st = ([], st)"
| "localRun env (op # ops) st =
     (let (e1, st1) = localOp env op st; (e2, st2) = localRun env ops st1 in (e1 @ e2, st2))"

text \<open>The listener and the world behind the service.\<close>

definition listenerOf :: "listen_service \<times> 'w \<Rightarrow> LocalInputListener \<times> 'w" where
  "listenerOf = (\<lambda>(s, w). (ls_listener s, w))"

text \<open>What the service may do to the listener: start it with kinds some client asked for, wait, read and
  cancel.\<close>

fun served :: "DeviceKind list set \<Rightarrow> listener_op \<Rightarrow> bool" where
  "served K (LStart ks) \<longleftrightarrow> ks \<in> K"
| "served K (LWait t) \<longleftrightarrow> 0 \<le> t"
| "served K LRead \<longleftrightarrow> True"
| "served K LCancel \<longleftrightarrow> True"
| "served K LDispose \<longleftrightarrow> False"

text \<open>The events and the new state come from a run of such operations.\<close>

definition refines ::
  "'w listen_env \<Rightarrow> DeviceKind list set \<Rightarrow> listen_service \<times> 'w \<Rightarrow> InputEvent list \<Rightarrow> listen_service \<times> 'w \<Rightarrow> bool" where
  "refines env K st evs st' \<longleftrightarrow> (\<exists>lops. list_all (served K) lops \<and> localRun env lops (listenerOf st) = (evs, listenerOf st'))"

section \<open>Lemmas\<close>

lemma localRun_append:
  "localRun env (xs @ ys) st = (let (e1, st1) = localRun env xs st; (e2, st2) = localRun env ys st1 in (e1 @ e2, st2))"
  by (induction xs arbitrary: st) (simp_all add: split_beta Let_def)

lemma refines_refl: "listenerOf st' = listenerOf st \<Longrightarrow> refines env K st [] st'"
  unfolding refines_def by (rule exI [of _ "[]"]) simp

lemma refines_op: "served K op \<Longrightarrow> localOp env op (listenerOf st) = (evs, listenerOf st') \<Longrightarrow> refines env K st evs st'"
  unfolding refines_def by (rule exI [of _ "[op]"]) simp

lemma refines_trans: "refines env K st e1 st1 \<Longrightarrow> refines env K st1 e2 st2 \<Longrightarrow> refines env K st (e1 @ e2) st2"
  unfolding refines_def
proof (elim exE conjE)
  fix xs ys
  assume "list_all (served K) xs" "localRun env xs (listenerOf st) = (e1, listenerOf st1)"
    "list_all (served K) ys" "localRun env ys (listenerOf st1) = (e2, listenerOf st2)"
  then show "\<exists>lops. list_all (served K) lops \<and> localRun env lops (listenerOf st) = (e1 @ e2, listenerOf st2)"
    by (intro exI [of _ "xs @ ys"]) (simp add: localRun_append)
qed

lemma refines_mono: "refines env K st evs st' \<Longrightarrow> K \<subseteq> K' \<Longrightarrow> refines env K' st evs st'"
proof -
  have "served K op \<Longrightarrow> K \<subseteq> K' \<Longrightarrow> served K' op" for op by (cases op) auto
  then show "refines env K st evs st' \<Longrightarrow> K \<subseteq> K' \<Longrightarrow> refines env K' st evs st'"
    unfolding refines_def by (metis list.pred_mono_strong)
qed

lemma cancelOn_refines: "refines env K st [] (cancelOn env st)"
  by (cases st) (rule refines_op [of _ LCancel], simp_all add: cancelOn_def listenerOf_def split_beta Let_def)

lemma guard_listenerOf: "listenerOf (snd (guardListen env ctx s w), w') = listenerOf (s, w')"
  by (simp add: listenerOf_def guardListen_listener)

lemma listenerOf_bump [simp]: "listenerOf (s\<lparr>lastRecordingActivityNs := t\<rparr>, w) = listenerOf (s, w)"
  by (simp add: listenerOf_def)

lemma refines_from: "listenerOf st0 = listenerOf st \<Longrightarrow> refines env K st evs st' \<Longrightarrow> refines env K st0 evs st'"
  by (simp add: refines_def)

lemma wait_refines:
  assumes "waitForInputEvent (le_io env) t (ls_listener s, w) = (r, l, w')" and "0 \<le> t"
  shows "refines env K (s, w) [] (s\<lparr>ls_listener := l\<rparr>, w')"
  by (rule refines_op [of _ "LWait t"]) (use assms in \<open>simp_all add: listenerOf_def\<close>)

text \<open>The slices of a wait.\<close>

lemma waitLoop_refines:
  assumes "waitLoop env deadline s w = Some r"
  shows "refines env K (s, w) [] (snd r)"
proof (rule waitLoop.raw_induct [where P = "\<lambda>env deadline s w r. refines env K (s, w) [] (snd r)", OF _ assms])
  fix f and env :: "'a listen_env" and deadline s w r
  assume ih: "\<And>env deadline s w r. f env deadline s w = Some r \<Longrightarrow> refines env K (s, w) [] (snd r)"
    and body: "(if \<not> listeningActive (ls_listener s) then Some (False, s, w)
      else let s1 = recordingActivityBump env s w in
        if le_cancelled env w then (let (s2, w2) = cancelOn env (s1, w) in Some (False, s2, w2))
        else let now = le_now env w in
          if now \<ge> deadline then Some (False, s1, w)
          else let remaining_ms = (deadline - now) sdiv 1000000; slice_ms = min 150 (max 1 remaining_ms);
                r = waitForInputEvent (le_io env) slice_ms (ls_listener s1, w); s2 = s1\<lparr>ls_listener := fst (snd r)\<rparr>
            in if fst r then Some (True, s2, snd (snd r)) else f env deadline s2 (snd (snd r))) = Some r"
  let ?s1 = "recordingActivityBump env s w"
  let ?t = "min 150 (max 1 ((deadline - le_now env w) sdiv 1000000))"
  let ?r = "waitForInputEvent (le_io env) ?t (ls_listener ?s1, w)"
  let ?st = "(?s1\<lparr>ls_listener := fst (snd ?r)\<rparr>, snd (snd ?r))"
  have start: "refines env K (?s1, w) [] st \<Longrightarrow> refines env K (s, w) [] st" for st
    by (erule refines_from [rotated]) simp
  have slice: "refines env K (?s1, w) [] ?st" by (rule wait_refines [of env ?t ?s1 w "fst ?r"]) simp_all
  show "refines env K (s, w) [] (snd r)"
  proof (cases "listeningActive (ls_listener s) \<and> \<not> le_cancelled env w \<and> le_now env w < deadline")
    case True
    then have "r = (True, ?st) \<or> f env deadline (fst ?st) (snd ?st) = Some r"
      using body by (simp add: Let_def split: if_splits)
    then show ?thesis
    proof
      assume "f env deadline (fst ?st) (snd ?st) = Some r"
      from refines_trans [OF slice, of "[]" "snd r"] ih [OF this] show ?thesis by (intro start) simp
    qed (use slice start in simp)
  next
    case False
    then have "r = (False, s, w) \<or> r = (False, cancelOn env (?s1, w)) \<or> r = (False, ?s1, w)"
      using body by (simp add: Let_def split_beta split: if_splits)
    then show ?thesis using start [OF cancelOn_refines] by (auto simp: refines_refl)
  qed
qed

section \<open>The handlers\<close>

lemma svcWait_refines:
  assumes "svcWaitForInputEvent env ctx t (s, w) = Some ((st, b), r)"
  shows "refines env K (s, w) [] r"
proof -
  let ?s = "snd (guardListen env ctx s w)"
  let ?s1 = "recordingActivityBump env ?s w"
  let ?w = "waitForInputEvent (le_io env) 0 (ls_listener ?s1, w)"
  have from1: "refines env K (?s1, w) [] r \<Longrightarrow> refines env K (s, w) [] r"
    by (erule refines_from [rotated]) (simp add: guard_listenerOf)
  consider (refused) "r = (?s, w)" | (cancelled) "r = cancelOn env (?s1, w)"
    | (once) "r = (?s1\<lparr>ls_listener := fst (snd ?w)\<rparr>, snd (snd ?w))"
    | (loop) d b where "waitLoop env d ?s1 w = Some (b, r)"
    using assms by (auto simp: svcWaitForInputEvent_def Let_def split_beta split: if_splits)
  then show ?thesis
  proof cases
    case refused
    then show ?thesis by (simp add: refines_refl guard_listenerOf)
  next
    case cancelled
    show ?thesis by (rule from1) (simp only: cancelled cancelOn_refines)
  next
    case once
    have "refines env K (?s1, w) [] r" unfolding once by (rule wait_refines [of env 0 ?s1 w "fst ?w"]) simp_all
    then show ?thesis by (rule from1)
  next
    case loop
    then show ?thesis using waitLoop_refines [OF loop] from1 by simp
  qed
qed

lemma svcRead_refines:
  assumes "svcReadInputEvents env ctx (s, w) = ((st, pevs), r)"
  shows "refines env K (s, w) (eventsFromProto pevs) r \<and> (\<not> is_ok st \<longrightarrow> pevs = [])"
proof -
  let ?s = "snd (guardListen env ctx s w)"
  let ?st1 = "if le_cancelled env w then cancelOn env (?s, w) else (?s, w)"
  let ?s2 = "if listeningActive (ls_listener (fst ?st1)) then recordingActivityBump env (fst ?st1) (snd ?st1) else fst ?st1"
  let ?b = "readInputEvents (le_io env) (ls_listener ?s2, snd ?st1)"
  have 1: "refines env K (s, w) [] ?st1"
    using refines_from [OF _ cancelOn_refines, of "(s, w)" "(?s, w)"] by (simp add: guard_listenerOf refines_refl)
  have l: "listenerOf (?s2, snd ?st1) = listenerOf ?st1" by (simp add: listenerOf_def split_beta)
  have 2: "refines env K ?st1 (fst ?b) (?s2\<lparr>ls_listener := fst (snd ?b)\<rparr>, snd (snd ?b))"
    by (rule refines_op [of _ LRead]) (simp_all add: listenerOf_def split_beta)
  have nil: "eventsFromProto [] = []" by (simp add: eventsFromProto_def)
  have "\<not> is_ok st \<and> pevs = [] \<and> r = (?s, w)
      \<or> is_ok st \<and> pevs = eventsToProto (fst ?b) \<and> r = (?s2\<lparr>ls_listener := fst (snd ?b)\<rparr>, snd (snd ?b))"
    using assms by (auto simp: svcReadInputEvents_def Let_def split_beta is_ok_def grpc_ok_def split: if_splits)
  then show ?thesis
    using refines_trans [OF 1 2] nil by (auto simp: refines_refl guard_listenerOf events_roundtrip)
qed

lemma svcStop_refines:
  assumes "svcStopRecording env ctx (s, w) = (st, r)"
  shows "refines env K (s, w) [] r"
proof -
  let ?s = "snd (guardListen env ctx s w)"
  have "r = (?s, w) \<or> r = cancelOn env (?s, w)"
    using assms by (auto simp: svcStopRecording_def Let_def split_beta split: if_splits)
  then show ?thesis
    using refines_from [OF _ cancelOn_refines, of "(s, w)" "(?s, w)"] by (auto simp: guard_listenerOf refines_refl)
qed

lemma svcStart_refines:
  assumes "svcStartRecording env ctx pks (s, w) = (st, r)"
  shows "refines env {kindsFromProto pks} (s, w) [] r"
proof -
  let ?K = "{kindsFromProto pks}" and ?s = "snd (guardListen env ctx s w)"
  let ?st1 = "if listeningActive (ls_listener ?s) then cancelOn env (?s, w) else (?s, w)"
  let ?o = "startListening (le_io env) (le_ioctl env) (kindsFromProto pks) (ls_listener (fst ?st1), snd ?st1)"
  let ?s2 = "(fst ?st1)\<lparr>ls_listener := fst (snd ?o)\<rparr>"
  have 1: "refines env ?K (s, w) [] ?st1"
    using refines_from [OF _ cancelOn_refines, of "(s, w)" "(?s, w)"] by (simp add: guard_listenerOf refines_refl)
  have 2: "refines env ?K ?st1 [] (?s2, snd (snd ?o))"
    by (rule refines_op [of _ "LStart (kindsFromProto pks)"]) (simp_all add: listenerOf_def split_beta)
  have 3: "refines env ?K ?st1 [] (recordingActivityBump env ?s2 (snd (snd ?o)), snd (snd ?o))"
    using refines_trans [OF 2 refines_refl] by simp
  have "r = (?s, w) \<or> r = ?st1 \<or> r = (?s2, snd (snd ?o)) \<or> r = (recordingActivityBump env ?s2 (snd (snd ?o)), snd (snd ?o))"
    using assms by (auto simp: svcStartRecording_def Let_def split_beta split: if_splits)
  then show ?thesis
    using 1 refines_trans [OF 1 2] refines_trans [OF 1 3] by (auto simp: guard_listenerOf refines_refl)
qed

section \<open>The property\<close>

definition askedKinds :: "remote_op list \<Rightarrow> DeviceKind list set" where
  "askedKinds ops = {ks. RStart ks \<in> set ops}"

lemma remoteOp_refines:
  assumes "remoteOp env peer op (self, st) = (evs, self', st')"
  shows "refines env (askedKinds [op]) st evs st'"
proof -
  obtain s w where st: "st = (s, w)" by (cases st)
  let ?md = "addSessionMetadata [] (ril_sessionId self)"
  let ?ctx = "svcContext peer ?md"
  have kinds: "kindsFromProto (kindsToProto ks) = ks" for ks
    by (simp add: kindsFromProto_def kindsToProto_def comp_def)
  show ?thesis
  proof (cases op)
    case (RStart ks)
    obtain c r where c: "svcStartRecording env ?ctx (kindsToProto ks) (s, w) = (c, r)"
      by (cases "svcStartRecording env ?ctx (kindsToProto ks) (s, w)")
    have "evs = []" "st' = st \<or> st' = r"
      using assms c unfolding RStart st
      by (auto simp: remoteStart_def listenStubOf_def split_beta Let_def split: if_splits)
    then show ?thesis using svcStart_refines [OF c] by (auto simp: RStart st askedKinds_def kinds refines_refl)
  next
    case (RWait t)
    have "evs = []" "st' = st \<or> (\<exists>c b. svcWaitForInputEvent env ?ctx t (s, w) = Some ((c, b), st'))"
      using assms unfolding RWait st
      by (auto simp: remoteWait_def listenStubOf_def split_beta Let_def prod_eq_iff split: if_splits option.splits)
    then show ?thesis using svcWait_refines [of env ?ctx t s w _ _ st' "askedKinds [op]"]
      unfolding st by (elim disjE exE) (simp_all only: refines_refl)
  next
    case RRead
    obtain c pevs r where c: "svcReadInputEvents env ?ctx (s, w) = ((c, pevs), r)" by (metis prod.collapse)
    have "evs = [] \<and> st' = st \<or> evs = (if is_ok c then eventsFromProto pevs else []) \<and> st' = r"
      using assms c unfolding RRead st
      by (auto simp: remoteRead_def listenStubOf_def split_beta Let_def split: if_splits)
    then show ?thesis using svcRead_refines [OF c, of "askedKinds [op]"]
      by (auto simp: st refines_refl eventsFromProto_def)
  next
    case RCancel
    obtain c r where c: "svcStopRecording env ?ctx (s, w) = (c, r)" by (cases "svcStopRecording env ?ctx (s, w)")
    have "evs = []" "st' = st \<or> st' = r"
      using assms c unfolding RCancel st
      by (auto simp: remoteCancel_def listenStubOf_def split_beta Let_def split: if_splits)
    then show ?thesis using svcStop_refines [OF c] by (auto simp: st refines_refl)
  next
    case (RWatchdog t)
    then have "evs = []" "st' = st \<or> st' = cancelOn env st"
      using assms by (auto simp: watchdogTick_def st split: if_splits)
    then show ?thesis using cancelOn_refines [of env "askedKinds [op]" st] by (auto simp: refines_refl)
  qed
qed

text \<open>C9. Listening through the proxy and the service refines listening on the spot. Whatever a client does, in
  whatever order, with whatever session and with rounds of the watchdog in between, there is a run of
  operations of \<open>LocalInputListener\<close>, starting it only with kinds the client asked for and never
  disposing of it, that brings listener and world to the same state, and the events the client
  received are exactly those this run reads, in order.\<close>

theorem remote_listener_refines:
  "\<exists>lops. list_all (served (askedKinds ops)) lops
     \<and> localRun env lops (listenerOf st) = (fst (remoteRun env peer ops (self, st)), listenerOf (snd (snd (remoteRun env peer ops (self, st)))))"
proof -
  have "refines env (askedKinds ops) st (fst (remoteRun env peer ops (self, st))) (snd (snd (remoteRun env peer ops (self, st))))"
  proof (induction ops arbitrary: self st)
    case (Cons op ops)
    obtain e1 self1 st1 where 1: "remoteOp env peer op (self, st) = (e1, self1, st1)" by (metis prod.collapse)
    have "refines env (askedKinds (op # ops)) st e1 st1"
      using remoteOp_refines [OF 1] by (rule refines_mono) (auto simp: askedKinds_def)
    moreover have "refines env (askedKinds (op # ops)) st1 (fst (remoteRun env peer ops (self1, st1)))
        (snd (snd (remoteRun env peer ops (self1, st1))))"
      using Cons.IH by (rule refines_mono) (auto simp: askedKinds_def)
    ultimately show ?case using refines_trans by (simp add: 1 split_beta Let_def)
  qed (simp add: refines_refl)
  then show ?thesis by (simp only: refines_def)
qed

end
