(* ===== verification/Discovery.thy ===== *)
theory Discovery
  imports Settings
begin

text \<open>
  Finding devices over UDP (\<open>evrp/device/internal/discovery\<close>): the packets
  (\<open>impl/devicediscoveryprotocol.h\<close>), the device's responder (\<open>impl/discoveryresponder.cpp\<close>)
  and the client's search (\<open>impl/devicediscovery.cpp\<close>), with \<open>parseListenPort\<close>
  (\<open>evrp/sdk/listenaddress.cpp\<close>) that gives the responder its port. Sockets, interfaces and
  clocks are parameters. \<open>recvfrom\<close> copies at most the eight bytes of the packet.
\<close>

section \<open>Packets\<close>

abbreviation (input) "kDeviceDiscoveryUdpPort \<equiv> (53508 :: int)"
abbreviation (input) "kDeviceDiscoveryVersion \<equiv> (1 :: u8)"

datatype DiscoveryLinkMode = kMulticast | kBroadcast

definition tryParseDiscoveryLinkMode :: "string \<Rightarrow> DiscoveryLinkMode option" where
  "tryParseDiscoveryLinkMode s =
     (let l = map c_tolower s in
      if l = ''multicast'' then Some kMulticast
      else if l = ''broadcast'' then Some kBroadcast
      else None)"

record DeviceDiscoveryRequest =
  rq_magic :: "u8 list"
  rq_version :: u8
  rq_reserved :: "u8 list"

record DeviceDiscoveryResponse =
  rs_magic :: "u8 list"
  rs_version :: u8
  rs_reserved :: u8
  rs_grpc_port_be :: "u8 list"

abbreviation (input) "EVRP \<equiv> [0x45, 0x56, 0x52, 0x50] :: u8 list"

text \<open>The packed structures in memory; a short datagram leaves the rest of the zeroed structure.\<close>

definition padTo :: "nat \<Rightarrow> u8 list \<Rightarrow> u8 list" where
  "padTo n bs = take n bs @ replicate (n - length bs) 0"

definition requestOf :: "u8 list \<Rightarrow> DeviceDiscoveryRequest" where
  "requestOf bs = (let p = padTo 8 bs in \<lparr>rq_magic = take 4 p, rq_version = p ! 4, rq_reserved = drop 5 p\<rparr>)"

definition requestBytes :: "DeviceDiscoveryRequest \<Rightarrow> u8 list" where
  "requestBytes r = rq_magic r @ [rq_version r] @ rq_reserved r"

definition responseOf :: "u8 list \<Rightarrow> DeviceDiscoveryResponse" where
  "responseOf bs =
     (let p = padTo 8 bs in
      \<lparr>rs_magic = take 4 p, rs_version = p ! 4, rs_reserved = p ! 5, rs_grpc_port_be = drop 6 p\<rparr>)"

definition responseBytes :: "DeviceDiscoveryResponse \<Rightarrow> u8 list" where
  "responseBytes r = rs_magic r @ [rs_version r, rs_reserved r] @ rs_grpc_port_be r"

definition fillDeviceDiscoveryRequest :: DeviceDiscoveryRequest where
  "fillDeviceDiscoveryRequest = \<lparr>rq_magic = EVRP, rq_version = kDeviceDiscoveryVersion, rq_reserved = [0, 0, 0]\<rparr>"

definition isValidDeviceDiscoveryRequest :: "DeviceDiscoveryRequest \<Rightarrow> bool" where
  "isValidDeviceDiscoveryRequest r \<longleftrightarrow> rq_magic r = EVRP \<and> rq_version r = kDeviceDiscoveryVersion"

definition isValidDeviceDiscoveryResponse :: "DeviceDiscoveryResponse \<Rightarrow> bool" where
  "isValidDeviceDiscoveryResponse r \<longleftrightarrow> rs_magic r = EVRP \<and> rs_version r = kDeviceDiscoveryVersion"

text \<open>\<open>htons\<close> and \<open>ntohs\<close>: the two bytes of a port, the high one first.\<close>

definition htons :: "u16 \<Rightarrow> u8 list" where
  "htons p = [ucast (drop_bit 8 p), ucast p]"

definition ntohs :: "u8 list \<Rightarrow> u16" where
  "ntohs bs = push_bit 8 (ucast (bs ! 0)) + ucast (bs ! 1)"

section \<open>The listening port\<close>

text \<open>\<open>std::stol\<close> is \<open>std::stoll\<close> on this platform.\<close>

definition parseListenPort :: "string \<Rightarrow> u16 option" where
  "parseListenPort addr =
     (if addr = [] then None
      else
        let pos = (if length addr \<ge> 2 \<and> hd addr = CHR ''['' then
                     (case chr_rfind (CHR '']'') addr of
                        None \<Rightarrow> None
                      | Some close \<Rightarrow>
                          if close + 2 > length addr \<or> addr ! (close + 1) \<noteq> CHR '':'' then None
                          else Some (close + 1))
                   else chr_rfind (CHR '':'') addr)
        in case pos of
             None \<Rightarrow> None
           | Some p \<Rightarrow>
               if p + 1 \<ge> length addr then None
               else (case stoll (drop (p + 1) addr) of
                       Inl _ \<Rightarrow> None
                     | Inr n \<Rightarrow> if n < 1 \<or> n > 65535 then None else Some (word_of_int n)))"

section \<open>The responder\<close>

text \<open>One datagram: the reply that is sent to its sender, if any.\<close>

definition discoveryReply :: "u16 \<Rightarrow> u8 list \<Rightarrow> u8 list option" where
  "discoveryReply grpcListenPort datagram =
     (let n = min 8 (length datagram); req = requestOf (take 8 datagram) in
      if n \<noteq> 8 \<or> \<not> isValidDeviceDiscoveryRequest req then None
      else Some (responseBytes \<lparr>rs_magic = EVRP, rs_version = kDeviceDiscoveryVersion, rs_reserved = 0,
                                rs_grpc_port_be = htons grpcListenPort\<rparr>))"

text \<open>The thread: which of its set-up calls succeed, then the datagrams it receives (\<open>None\<close> for a
  failed \<open>recvfrom\<close>); the result is whether it listens and what it sent.\<close>

record responder_setup =
  su_socket :: bool
  su_bind :: bool
  su_inet_pton :: bool

fun serveDatagrams :: "u16 \<Rightarrow> ('a \<times> u8 list) option list \<Rightarrow> ('a \<times> u8 list) list" where
  "serveDatagrams port [] = []"
| "serveDatagrams port (None # ds) = serveDatagrams port ds"
| "serveDatagrams port (Some (from, d) # ds) =
     (case discoveryReply port d of
        None \<Rightarrow> serveDatagrams port ds
      | Some r \<Rightarrow> (from, r) # serveDatagrams port ds)"

definition discoveryResponderLoop ::
  "responder_setup \<Rightarrow> u16 \<Rightarrow> DiscoveryLinkMode \<Rightarrow> ('a \<times> u8 list) option list \<Rightarrow> bool \<times> ('a \<times> u8 list) list" where
  "discoveryResponderLoop su port mode ds =
     (if \<not> su_socket su then (False, [])
      else if \<not> su_bind su then (False, [])
      else if mode = kMulticast \<and> \<not> su_inet_pton su then (False, [])
      else (True, serveDatagrams port ds))"

definition getInt :: "any \<Rightarrow> int \<Rightarrow> int" where
  "getInt a defaultValue = (case a of AInt32 n \<Rightarrow> n | _ \<Rightarrow> defaultValue)"

text \<open>\<open>start\<close>: the parameters of the thread, or an error in the log.\<close>

definition responderStart :: "(string \<Rightarrow> any) \<Rightarrow> (u16 \<times> int \<times> DiscoveryLinkMode) option" where
  "responderStart get =
     (let grpc = getInt (get ''discovery_grpc_listen_port'') 0 in
      if grpc < 1 \<or> grpc > 65535 then None
      else
        let udp = getInt (get ''discovery_port'') kDeviceDiscoveryUdpPort in
        if udp < 1 \<or> udp > 65535 then None
        else map_option (\<lambda>mode. (word_of_int grpc, udp, mode))
               (tryParseDiscoveryLinkMode (getString (get ''discovery_link_mode'') ''broadcast'')))"

section \<open>The search\<close>

type_synonym ipv4 = "u8 \<times> u8 \<times> u8 \<times> u8"

definition inet_ntop :: "ipv4 \<Rightarrow> string" where
  "inet_ntop = (\<lambda>(a, b, c, d). show_nat (unat a) @ ''.'' @ show_nat (unat b) @ ''.'' @ show_nat (unat c) @ ''.'' @ show_nat (unat d))"

text \<open>An interface: its IPv4 address and broadcast address (\<open>None\<close>: null or of another family), and
  its flags.\<close>

record ifaddr =
  ifa_addr :: "ipv4 option"
  ifa_broadaddr :: "ipv4 option"
  ifa_up :: bool
  ifa_loopback :: bool
  ifa_broadcast :: bool

text \<open>\<open>None\<close>: \<open>getifaddrs\<close> failed.\<close>

definition collectLocalIpv4Addresses :: "ifaddr list option \<Rightarrow> string set" where
  "collectLocalIpv4Addresses ifs =
     (case ifs of
        None \<Rightarrow> {}
      | Some is \<Rightarrow> set (filter (\<lambda>s. s \<noteq> ''0.0.0.0'')
            (map (\<lambda>i. inet_ntop (the (ifa_addr i))) (filter (\<lambda>i. ifa_addr i \<noteq> None \<and> ifa_up i) is))))"

definition hostOfIpv4HostPort :: "string \<Rightarrow> string" where
  "hostOfIpv4HostPort host_port =
     (case chr_rfind (CHR '':'') host_port of None \<Rightarrow> [] | Some colon \<Rightarrow> substr host_port 0 colon)"

definition localTargetRank :: "string set \<Rightarrow> string \<Rightarrow> int" where
  "localTargetRank local_ipv4 target =
     (let host = hostOfIpv4HostPort target in
      if host = ''127.0.0.1'' then 0 else if host \<in> local_ipv4 then 1 else 2)"

definition sortDiscoveredTargetsPreferSameHost :: "string set \<Rightarrow> string list \<Rightarrow> string list" where
  "sortDiscoveredTargetsPreferSameHost local_ipv4 targets = sort_key (localTargetRank local_ipv4) targets"

text \<open>Where the probes of one round go; \<open>mcast\<close> is the parsed multicast address.\<close>

definition probeTargets :: "DiscoveryLinkMode \<Rightarrow> ipv4 option \<Rightarrow> ifaddr list option \<Rightarrow> ipv4 list" where
  "probeTargets mode mcast ifs =
     [(127, 0, 0, 1)] @
     (if mode = kMulticast then (case mcast of None \<Rightarrow> [] | Some a \<Rightarrow> [a])
      else [(255, 255, 255, 255)] @
        (case ifs of
           None \<Rightarrow> []
         | Some is \<Rightarrow> map (\<lambda>i. the (ifa_broadaddr i))
             (filter (\<lambda>i. \<not> ifa_loopback i \<and> ifa_up i \<and> ifa_broadcast i \<and> ifa_broadaddr i \<noteq> None) is)))"

text \<open>A received datagram with its sender: the target it announces.\<close>

definition replyTarget :: "ipv4 \<times> u8 list \<Rightarrow> string option" where
  "replyTarget = (\<lambda>(from, d).
     let resp = responseOf (take 8 d) in
     if min 8 (length d) \<noteq> 8 \<or> \<not> isValidDeviceDiscoveryResponse resp then None
     else let grpc_port = ntohs (rs_grpc_port_be resp) in
          if grpc_port = 0 then None
          else Some (inet_ntop from @ '':'' @ show_nat (unat grpc_port)))"

text \<open>The calls of the search: the steady clock (nanoseconds), sending the probes, \<open>select\<close> with a
  timeout in milliseconds, \<open>recvfrom\<close> (\<open>None\<close> when it fails).\<close>

record 'w discovery_env =
  de_interfaces :: "'w \<Rightarrow> ifaddr list option"
  de_socket :: "'w \<Rightarrow> bool \<times> 'w"
  de_prepare :: "DiscoveryLinkMode \<Rightarrow> 'w \<Rightarrow> 'w"
  de_now :: "'w \<Rightarrow> int \<times> 'w"
  de_transmit :: "int \<Rightarrow> DiscoveryLinkMode \<Rightarrow> 'w \<Rightarrow> 'w"
  de_select :: "int \<Rightarrow> 'w \<Rightarrow> int \<times> 'w"
  de_recvfrom :: "'w \<Rightarrow> (ipv4 \<times> u8 list) option \<times> 'w"
  de_close :: "'w \<Rightarrow> 'w"

definition noteTarget :: "string list \<Rightarrow> (ipv4 \<times> u8 list) option \<Rightarrow> string list" where
  "noteTarget targets r =
     (case r of
        None \<Rightarrow> targets
      | Some d \<Rightarrow> (case replyTarget d of
                     None \<Rightarrow> targets
                   | Some t \<Rightarrow> if t \<in> set targets then targets else targets @ [t]))"

text \<open>\<open>seen\<close> holds the elements of \<open>targets\<close> at all times.\<close>

partial_function (option) discoverLoop ::
  "'w discovery_env \<Rightarrow> int \<Rightarrow> DiscoveryLinkMode \<Rightarrow> int \<Rightarrow> int \<Rightarrow> string list \<Rightarrow> 'w \<Rightarrow> (string list \<times> 'w) option" where
  "discoverLoop env port mode deadline next_resend targets w =
     (let r0 = de_now env w in
      if \<not> fst r0 < deadline then Some (targets, snd r0)
      else
        let r1 = de_now env (snd r0); now = fst r1;
            resend = (now \<ge> next_resend);
            w2 = (if resend then de_transmit env port mode (snd r1) else snd r1);
            next' = (if resend then now + 200000000 else next_resend);
            remain_ms = (deadline - now) sdiv 1000000
        in
        if remain_ms \<le> 0 then Some (targets, w2)
        else
          let r3 = de_select env (min remain_ms 250) w2 in
          if fst r3 < 0 then Some (targets, snd r3)
          else if fst r3 = 0 then discoverLoop env port mode deadline next' targets (snd r3)
          else
            let r4 = de_recvfrom env (snd r3)
            in discoverLoop env port mode deadline next' (noteTarget targets (fst r4)) (snd r4))"

definition discoverGrpcTargetsImpl ::
  "'w discovery_env \<Rightarrow> int \<Rightarrow> DiscoveryLinkMode \<Rightarrow> 'w \<Rightarrow> (string list \<times> 'w) option" where
  "discoverGrpcTargetsImpl env port mode w =
     (if port < 1 \<or> port > 65535 then Some ([], w)
      else
        let local_ipv4 = collectLocalIpv4Addresses (de_interfaces env w);
            (ok, w1) = de_socket env w in
        if \<not> ok then Some ([], w1)
        else
          let w2 = de_prepare env mode w1; (now, w3) = de_now env w2 in
          map_option (\<lambda>(targets, w4). (sortDiscoveredTargetsPreferSameHost local_ipv4 targets, de_close env w4))
            (discoverLoop env port mode (now + 1500000000) 0 [] w3))"

definition discoverGrpcTargets :: "'w discovery_env \<Rightarrow> (string \<Rightarrow> any) \<Rightarrow> 'w \<Rightarrow> (string list \<times> 'w) option" where
  "discoverGrpcTargets env get w =
     (let port = getInt (get ''discovery_port'') kDeviceDiscoveryUdpPort in
      case tryParseDiscoveryLinkMode (getString (get ''discovery_link_mode'') ''broadcast'') of
        None \<Rightarrow> Some ([], w)
      | Some link_mode \<Rightarrow> discoverGrpcTargetsImpl env port link_mode w)"

section \<open>What is relied on\<close>

text \<open>The steady clock moves on between two readings and never goes back; \<open>heard w\<close> lists the
  datagrams that \<open>recvfrom\<close> has returned.\<close>

definition clock_advances :: "'w discovery_env \<Rightarrow> ('w \<Rightarrow> int) \<Rightarrow> bool" where
  "clock_advances env clk \<longleftrightarrow>
     (\<forall>w. fst (de_now env w) = clk w \<and> clk w < clk (snd (de_now env w)))
     \<and> (\<forall>p m w. clk w \<le> clk (de_transmit env p m w))
     \<and> (\<forall>t w. clk w \<le> clk (snd (de_select env t w)))
     \<and> (\<forall>w. clk w \<le> clk (snd (de_recvfrom env w)))"

definition hears :: "'w discovery_env \<Rightarrow> ('w \<Rightarrow> (ipv4 \<times> u8 list) list) \<Rightarrow> bool" where
  "hears env heard \<longleftrightarrow>
     (\<forall>w. heard (snd (de_now env w)) = heard w) \<and> (\<forall>w. heard (snd (de_socket env w)) = heard w)
     \<and> (\<forall>m w. heard (de_prepare env m w) = heard w) \<and> (\<forall>p m w. heard (de_transmit env p m w) = heard w)
     \<and> (\<forall>t w. heard (snd (de_select env t w)) = heard w) \<and> (\<forall>w. heard (de_close env w) = heard w)
     \<and> (\<forall>w. heard (snd (de_recvfrom env w)) =
            heard w @ (case fst (de_recvfrom env w) of None \<Rightarrow> [] | Some d \<Rightarrow> [d]))"

text \<open>The first occurrences of a list, and the targets a list of datagrams announces.\<close>

definition firsts :: "'a list \<Rightarrow> 'a list" where
  "firsts xs = rev (remdups (rev xs))"

definition announced :: "(ipv4 \<times> u8 list) list \<Rightarrow> string list" where
  "announced ds = concat (map (\<lambda>d. case replyTarget d of None \<Rightarrow> [] | Some t \<Rightarrow> [t]) ds)"

section \<open>Lemmas\<close>

lemma firsts_append: "firsts (xs @ ys) = firsts xs @ filter (\<lambda>y. y \<notin> set xs) (firsts ys)"
proof (induction ys rule: rev_induct)
  case (snoc y ys)
  then show ?case by (auto simp: firsts_def simp flip: append_assoc)
qed (simp add: firsts_def)

lemma set_firsts [simp]: "set (firsts xs) = set xs"
  by (simp add: firsts_def)

lemma distinct_firsts [simp]: "distinct (firsts xs)"
  by (simp add: firsts_def)

lemma announced_append: "announced (xs @ ys) = announced xs @ announced ys"
  by (simp add: announced_def)

lemma noteTarget_firsts:
  "noteTarget (firsts (announced ds)) r = firsts (announced (ds @ (case r of None \<Rightarrow> [] | Some d \<Rightarrow> [d])))"
proof (cases r)
  case (Some d)
  then show ?thesis
    by (cases "replyTarget d") (simp_all add: noteTarget_def announced_append firsts_append, simp_all add: announced_def firsts_def)
qed (simp add: noteTarget_def)

lemma discoverLoop_result:
  assumes clk: "clock_advances env clk" and hr: "hears env heard"
  shows "heard w = h0 @ ds \<Longrightarrow> \<exists>w' ds'. discoverLoop env port mode deadline nr (firsts (announced ds)) w
      = Some (firsts (announced ds'), w') \<and> heard w' = h0 @ ds'"
proof (induction "nat (deadline - clk w)" arbitrary: nr ds w rule: less_induct)
  case less
  define w0 where "w0 = snd (de_now env w)"
  define w1 where "w1 = snd (de_now env w0)"
  define now where "now = clk w0"
  define w2 where "w2 = (if now \<ge> nr then de_transmit env port mode w1 else w1)"
  define nr' where "nr' = (if now \<ge> nr then now + 200000000 else nr)"
  define rem where "rem = (deadline - now) sdiv 1000000"
  define sel where "sel = de_select env (min rem 250) w2"
  define r where "r = de_recvfrom env (snd sel)"
  have n: "fst (de_now env w) = clk w" "fst (de_now env w0) = now" using clk by (simp_all add: clock_advances_def now_def)
  have c: "clk w < clk w0" "clk w0 < clk w1" "clk w1 \<le> clk w2" "clk w2 \<le> clk (snd sel)" "clk (snd sel) \<le> clk (snd r)"
    using clk by (simp_all add: clock_advances_def w0_def w1_def w2_def sel_def r_def)
  have h: "heard w0 = heard w" "heard w1 = heard w" "heard w2 = heard w" "heard (snd sel) = heard w"
    "heard (snd r) = heard w @ (case fst r of None \<Rightarrow> [] | Some d \<Rightarrow> [d])"
    using hr by (simp_all add: hears_def w0_def w1_def w2_def sel_def r_def)
  note step = discoverLoop.simps [of env port mode deadline nr "firsts (announced ds)" w,
      unfolded Let_def, folded w0_def, folded w1_def, unfolded n, folded w2_def nr'_def rem_def, folded sel_def, folded r_def]
  show ?case
  proof (cases "clk w < deadline \<and> rem > 0 \<and> fst sel \<ge> 0")
    case False
    let ?w' = "if \<not> clk w < deadline then w0 else if rem \<le> 0 then w2 else snd sel"
    have "discoverLoop env port mode deadline nr (firsts (announced ds)) w = Some (firsts (announced ds), ?w')"
      using step False by auto
    moreover have "heard ?w' = h0 @ ds" using h less.prems by simp
    ultimately show ?thesis by blast
  next
    case True
    then have dec: "nat (deadline - clk (snd sel)) < nat (deadline - clk w)" "nat (deadline - clk (snd r)) < nat (deadline - clk w)"
      using c by auto
    show ?thesis
    proof (cases "fst sel = 0")
      case True
      then show ?thesis
        using less.hyps [OF dec(1), of ds nr'] less.prems h step \<open>clk w < deadline \<and> _\<close> by auto
    next
      case False
      let ?ds = "ds @ (case fst r of None \<Rightarrow> [] | Some d \<Rightarrow> [d])"
      have "heard (snd r) = h0 @ ?ds" using h(5) less.prems by simp
      from less.hyps [OF dec(2) this, of nr'] show ?thesis
        using False step True noteTarget_firsts [of ds "fst r"] by auto
    qed
  qed
qed

lemma discoverImpl_result:
  assumes "clock_advances env clk" and hr: "hears env heard"
    and "1 \<le> port" "port \<le> 65535" and "fst (de_socket env w)"
  shows "\<exists>w' ds. heard w' = heard w @ ds \<and> discoverGrpcTargetsImpl env port mode w =
    Some (sort_key (localTargetRank (collectLocalIpv4Addresses (de_interfaces env w))) (firsts (announced ds)), w')"
proof -
  let ?w2 = "de_prepare env mode (snd (de_socket env w))"
  let ?n = "de_now env ?w2"
  have h: "heard (snd ?n) = heard w @ []" using hr by (simp add: hears_def)
  have e: "firsts (announced []) = []" by (simp add: announced_def firsts_def)
  obtain w' ds where "discoverLoop env port mode (fst ?n + 1500000000) 0 [] (snd ?n) = Some (firsts (announced ds), w')"
    "heard w' = heard w @ ds"
    using discoverLoop_result [OF assms(1) hr h, unfolded e] by blast
  moreover have "heard (de_close env w') = heard w'" using hr by (simp add: hears_def)
  ultimately show ?thesis
    using assms(3-5) by (auto simp: discoverGrpcTargetsImpl_def sortDiscoveredTargetsPreferSameHost_def split_beta Let_def
        intro!: exI [of _ "de_close env w'"])
qed

text \<open>The listening port, whatever follows its digits.\<close>

lemma parseListenPort_digits:
  assumes "1 \<le> n" "n \<le> 65535" and "host = [] \<or> hd host \<noteq> CHR ''[''"
    and rest: "CHR '':'' \<notin> set rest" "rest = [] \<or> \<not> c_isdigit (hd rest)"
  shows "parseListenPort (host @ '':'' @ show_nat n @ rest) = Some (of_nat n)"
proof -
  have colon: "CHR '':'' \<notin> set (show_nat n @ rest)"
    using show_nat_digits [of n] rest(1) by (auto simp: c_isdigit_def char_code_def)
  have r: "chr_rfind (CHR '':'') (host @ CHR '':'' # show_nat n @ rest) = Some (length host)"
    by (rule chr_rfind_append [OF colon])
  have "hd (host @ CHR '':'' # show_nat n @ rest) \<noteq> CHR ''[''" using assms(3) by (cases host) auto
  moreover have "stoll (show_nat n @ rest) = Inr (int n)"
    using scan_digits(1) [OF show_nat_digits show_nat_nonempty rest(2), of n] assms(2)
    by (simp add: stoll_def signed_of_def in_i64_def)
  ultimately show ?thesis
    using r assms(1,2) by (simp add: parseListenPort_def Let_def)
qed

lemma ntohs_htons [simp]: "ntohs (htons p) = p"
proof -
  have "push_bit 8 (drop_bit 8 (take_bit 16 q)) + take_bit 8 (take_bit 16 q) = take_bit 16 q" for q :: int
    by (rule bits_ident)
  then show ?thesis unfolding ntohs_def htons_def by simp (transfer, simp add: drop_bit_take_bit)
qed

lemma reply_to_probe:
  "discoveryReply p (requestBytes fillDeviceDiscoveryRequest) = Some (EVRP @ [1, 0] @ htons p)"
  by (simp add: discoveryReply_def requestBytes_def fillDeviceDiscoveryRequest_def requestOf_def padTo_def
      isValidDeviceDiscoveryRequest_def responseBytes_def)

lemma replyTarget_reply:
  "p \<noteq> 0 \<Longrightarrow> replyTarget (a, EVRP @ [1, 0] @ htons p) = Some (inet_ntop a @ '':'' @ show_nat (unat p))"
  by (simp add: replyTarget_def responseOf_def padTo_def isValidDeviceDiscoveryResponse_def htons_def Let_def)
     (simp flip: htons_def)

section \<open>Properties\<close>

text \<open>C21. The search returns, and it returns exactly the targets announced by the valid replies it
  heard, each once: those on the loopback address first, then those on an address of this
  machine, then the others, and in each group in the order they were first heard.\<close>

theorem discovery_result:
  assumes "clock_advances env clk" and "hears env heard" and "1 \<le> port" and "port \<le> 65535" and "fst (de_socket env w)"
  shows "\<exists>ts w' ds. discoverGrpcTargetsImpl env port mode w = Some (ts, w') \<and> heard w' = heard w @ ds
    \<and> (let rank = localTargetRank (collectLocalIpv4Addresses (de_interfaces env w)) in
       distinct ts \<and> set ts = set (announced ds) \<and> sorted (map rank ts)
       \<and> (\<forall>k. filter (\<lambda>t. rank t = k) ts = filter (\<lambda>t. rank t = k) (firsts (announced ds))))"
proof -
  let ?rank = "localTargetRank (collectLocalIpv4Addresses (de_interfaces env w))"
  obtain w' ds where r: "heard w' = heard w @ ds"
    "discoverGrpcTargetsImpl env port mode w = Some (sort_key ?rank (firsts (announced ds)), w')"
    using discoverImpl_result [OF assms] by blast
  have "filter (\<lambda>t. ?rank t = k) (sort_key ?rank (firsts (announced ds))) = filter (\<lambda>t. ?rank t = k) (firsts (announced ds))" for k
    by (rule sort_key_stable)
  then show ?thesis using r by (intro exI [of _ "sort_key ?rank (firsts (announced ds))"] exI [of _ w'] exI [of _ ds]) (simp add: Let_def)
qed

text \<open>A network that answers one probe from one machine and then falls silent; a tick a call.\<close>

definition demo_net :: "(int \<times> (ipv4 \<times> u8 list) list \<times> (ipv4 \<times> u8 list) list) discovery_env" where
  "demo_net =
     \<lparr>de_interfaces = (\<lambda>w. Some [\<lparr>ifa_addr = Some (10, 0, 0, 7), ifa_broadaddr = None, ifa_up = True,
                                  ifa_loopback = False, ifa_broadcast = False\<rparr>]),
      de_socket = (\<lambda>w. (True, w)), de_prepare = (\<lambda>m w. w), de_now = (\<lambda>(t, q, h). (t, t + 1000000, q, h)),
      de_transmit = (\<lambda>p m w. w),
      de_select = (\<lambda>ms (t, q, h). (if q = [] then 0 else 1, t + 1000000 * max 0 ms, q, h)),
      de_recvfrom = (\<lambda>(t, q, h). case q of [] \<Rightarrow> (None, t, q, h) | d # ds \<Rightarrow> (Some d, t, ds, h @ [d])),
      de_close = (\<lambda>w. w)\<rparr>"

lemma demo_net_ok: "clock_advances demo_net fst" "hears demo_net (snd \<circ> snd)"
  by (auto simp: clock_advances_def hears_def demo_net_def split: list.split prod.split)

theorem discovery_result_witness:
  "\<exists>ts w'. discoverGrpcTargetsImpl demo_net 53508 kBroadcast (0, [((10, 0, 0, 9), EVRP @ [1, 0, 0x1F, 0x90])], []) = Some (ts, w')
    \<and> distinct ts"
  using discovery_result [OF demo_net_ok, of 53508 "(0, [((10, 0, 0, 9), EVRP @ [1, 0, 0x1F, 0x90])], [])" kBroadcast]
  by (auto simp: demo_net_def Let_def)

text \<open>From the address the device listens on to the target the client connects to: a probe gets a
  reply that carries the port of the address, and the client that hears it from a machine takes
  that machine and that port as its target. What follows the digits of the port in the address is
  ignored.\<close>

theorem discovery_names_device:
  assumes "1 \<le> n" and "n \<le> 65535" and "host = [] \<or> hd host \<noteq> CHR ''[''"
    and "CHR '':'' \<notin> set rest" and "rest = [] \<or> \<not> c_isdigit (hd rest)"
  shows "\<exists>p reply. parseListenPort (host @ '':'' @ show_nat n @ rest) = Some p
    \<and> discoveryReply p (requestBytes fillDeviceDiscoveryRequest) = Some reply
    \<and> replyTarget (a, reply) = Some (inet_ntop a @ '':'' @ show_nat n)"
proof -
  have "unat (of_nat n :: u16) = n" using assms(2) by (simp add: unat_of_nat)
  moreover have "(of_nat n :: u16) \<noteq> 0" using assms(1) calculation by (metis not_one_le_zero unat_0)
  ultimately show ?thesis
    using parseListenPort_digits [OF assms] reply_to_probe [of "of_nat n"] replyTarget_reply [of "of_nat n" a] by simp
qed

theorem discovery_names_device_witness:
  "\<exists>p reply. parseListenPort ''0.0.0.0:8080abc'' = Some p \<and> discoveryReply p (requestBytes fillDeviceDiscoveryRequest) = Some reply
    \<and> replyTarget ((192, 168, 0, 2), reply) = Some ''192.168.0.2:8080''"
proof -
  have t: "''0.0.0.0'' @ '':'' @ show_nat 8080 @ ''abc'' = ''0.0.0.0:8080abc''"
    "inet_ntop (192, 168, 0, 2) @ '':'' @ show_nat 8080 = ''192.168.0.2:8080''"
    by (simp_all add: inet_ntop_def show_nat.simps digit_char_def char_of_def bit_0)
  have c: "(1 :: nat) \<le> 8080" "(8080 :: nat) \<le> 65535" "''0.0.0.0'' = [] \<or> hd ''0.0.0.0'' \<noteq> CHR ''[''"
    "CHR '':'' \<notin> set ''abc''" "''abc'' = [] \<or> \<not> c_isdigit (hd ''abc'')"
    by (simp_all add: c_isdigit_def char_code_def)
  show ?thesis by (rule discovery_names_device [OF c, of "(192, 168, 0, 2)", unfolded t])
qed

end
