(* ===== verification/DeviceSvc.thy ===== *)
theory DeviceSvc
  imports InputDevice Lua Session Discovery
begin

text \<open>
  The device as its clients see it: the cursor and the capabilities
  (\<open>evrp/device/impl/server/grpc/grpcinputdeviceservice.cpp\<close>, \<open>localcursorposition.cpp\<close>), their
  proxies (\<open>evrp/device/impl/client/remoteinputdeviceclient.cpp\<close>, \<open>remotedevicekindsprovider.cpp\<close>,
  \<open>remotecursorposition.cpp\<close>), the client object and the choice of a device
  (\<open>impl/client/client.cpp\<close>), and the start of the device's server (\<open>impl/server/grpcserver.cpp\<close>,
  \<open>evrp-device/main.cpp\<close>). Out parameters are arguments and results. X11, the channels and the stubs
  are parameters.
\<close>

section \<open>The cursor\<close>

text \<open>\<open>createCursorPos\<close>: the X11 backend, when it was built in and can be reached.\<close>

definition createCursorPos :: "'w ICursorPos option \<Rightarrow> 'w \<Rightarrow> 'w ICursorPos option" where
  "createCursorPos x11 w = (case x11 of None \<Rightarrow> None | Some x \<Rightarrow> if isAvailable x w then Some x else None)"

definition localCursorAvailability :: "'w ICursorPos option \<Rightarrow> 'w \<Rightarrow> bool" where
  "localCursorAvailability cursor w = (case cursor of None \<Rightarrow> False | Some c \<Rightarrow> isAvailable c w)"

definition localReadCursor :: "'w ICursorPos option \<Rightarrow> int \<times> int \<Rightarrow> 'w \<Rightarrow> bool \<times> int \<times> int" where
  "localReadCursor cursor out w =
     (case cursor of
        None \<Rightarrow> (False, out)
      | Some c \<Rightarrow> (case getPosition c w of None \<Rightarrow> (False, out) | Some p \<Rightarrow> (True, p)))"

section \<open>The service\<close>

text \<open>The objects behind the service; a null pointer is \<open>None\<close>.\<close>

record 'w ICursorPosition =
  cp_availability :: "'w \<Rightarrow> bool \<times> 'w"
  cp_read :: "int \<times> int \<Rightarrow> 'w \<Rightarrow> (bool \<times> int \<times> int) \<times> 'w"

record 'w device_service =
  cursorPosition :: "'w ICursorPosition option"
  deviceKindsProvider :: "('w \<Rightarrow> DeviceKind list \<times> 'w) option"

definition svcGetCursorPositionAvailability ::
  "'w device_service \<Rightarrow> server_context \<Rightarrow> int \<Rightarrow> SessionRegistry \<times> 'w \<Rightarrow> (grpc_status \<times> bool) \<times> SessionRegistry \<times> 'w" where
  "svcGetCursorPositionAvailability sv ctx now = (\<lambda>(reg, w).
     let (st, reg') = requireBusinessSession ctx now reg in
     if \<not> is_ok st then ((st, False), reg', w)
     else case cursorPosition sv of
       None \<Rightarrow> ((status FAILED_PRECONDITION ''cursor position not configured'', False), reg', w)
     | Some c \<Rightarrow> let (b, w') = cp_availability c w in ((grpc_ok, b), reg', w'))"

definition svcReadCursorPosition ::
  "'w device_service \<Rightarrow> server_context \<Rightarrow> int \<Rightarrow> SessionRegistry \<times> 'w \<Rightarrow> (grpc_status \<times> int \<times> int) \<times> SessionRegistry \<times> 'w" where
  "svcReadCursorPosition sv ctx now = (\<lambda>(reg, w).
     let (st, reg') = requireBusinessSession ctx now reg in
     if \<not> is_ok st then ((st, 0, 0), reg', w)
     else case cursorPosition sv of
       None \<Rightarrow> ((status FAILED_PRECONDITION ''cursor position not configured'', 0, 0), reg', w)
     | Some c \<Rightarrow>
         let (b, w1) = cp_availability c w in
         if \<not> b then ((status FAILED_PRECONDITION ''cursor position not available'', 0, 0), reg', w1)
         else let ((ok, x, y), w2) = cp_read c (0, 0) w1 in
              if \<not> ok then ((status INTERNAL ''read_cursor_position failed'', 0, 0), reg', w2)
              else ((grpc_ok, x, y), reg', w2))"

definition svcGetCapabilities ::
  "'w device_service \<Rightarrow> server_context \<Rightarrow> int \<Rightarrow> SessionRegistry \<times> 'w \<Rightarrow> (grpc_status \<times> int list) \<times> SessionRegistry \<times> 'w" where
  "svcGetCapabilities sv ctx now = (\<lambda>(reg, w).
     let (st, reg') = requireBusinessSession ctx now reg in
     if \<not> is_ok st then ((st, []), reg', w)
     else case deviceKindsProvider sv of
       None \<Rightarrow> ((status FAILED_PRECONDITION ''device kinds provider not configured'', []), reg', w)
     | Some kinds \<Rightarrow> let (ks, w') = kinds w in ((grpc_ok, map kindToProto ks), reg', w'))"

section \<open>The proxies\<close>

record 'w device_stub =
  ds_GetCapabilities :: "metadata \<Rightarrow> 'w \<Rightarrow> (grpc_status \<times> int list) \<times> 'w"
  ds_GetCursorPositionAvailability :: "metadata \<Rightarrow> 'w \<Rightarrow> (grpc_status \<times> bool) \<times> 'w"
  ds_ReadCursorPosition :: "metadata \<Rightarrow> 'w \<Rightarrow> (grpc_status \<times> int \<times> int) \<times> 'w"

definition rpcGetCapabilities :: "'w device_stub \<Rightarrow> string \<Rightarrow> 'w \<Rightarrow> (bool \<times> DeviceKind list) \<times> 'w" where
  "rpcGetCapabilities stub sid w =
     (let ((s, ks), w') = ds_GetCapabilities stub (addSessionMetadata [] sid) w in
      if \<not> is_ok s then ((False, []), w') else ((True, map kindFromProto ks), w'))"

definition rpcCursorAvailability :: "'w device_stub \<Rightarrow> string \<Rightarrow> bool \<Rightarrow> 'w \<Rightarrow> (bool \<times> bool) \<times> 'w" where
  "rpcCursorAvailability stub sid out w =
     (let ((s, b), w') = ds_GetCursorPositionAvailability stub (addSessionMetadata [] sid) w in
      if \<not> is_ok s then ((False, out), w') else ((True, b), w'))"

definition rpcReadCursor :: "'w device_stub \<Rightarrow> string \<Rightarrow> int \<times> int \<Rightarrow> 'w \<Rightarrow> (bool \<times> int \<times> int) \<times> 'w" where
  "rpcReadCursor stub sid out w =
     (let ((s, p), w') = ds_ReadCursorPosition stub (addSessionMetadata [] sid) w in
      if \<not> is_ok s then ((False, out), w') else ((True, p), w'))"

text \<open>\<open>device\<close> is \<open>None\<close> for a null pointer, else the stub and the session.\<close>

definition rpcKinds :: "('w device_stub \<times> string) option \<Rightarrow> 'w \<Rightarrow> (bool \<times> DeviceKind list) \<times> 'w" where
  "rpcKinds device w = (case device of None \<Rightarrow> ((False, []), w) | Some (stub, sid) \<Rightarrow> rpcGetCapabilities stub sid w)"

definition remoteKinds :: "('w device_stub \<times> string) option \<Rightarrow> 'w \<Rightarrow> DeviceKind list \<times> 'w" where
  "remoteKinds device w = (let ((_, ks), w') = rpcKinds device w in (ks, w'))"

definition remoteCursorAvailability :: "('w device_stub \<times> string) option \<Rightarrow> 'w \<Rightarrow> bool \<times> 'w" where
  "remoteCursorAvailability device w =
     (case device of
        None \<Rightarrow> (False, w)
      | Some (stub, sid) \<Rightarrow>
          let ((ok, b), w') = rpcCursorAvailability stub sid False w in (if \<not> ok then False else b, w'))"

definition remoteReadCursor :: "('w device_stub \<times> string) option \<Rightarrow> int \<times> int \<Rightarrow> 'w \<Rightarrow> (bool \<times> int \<times> int) \<times> 'w" where
  "remoteReadCursor device out w =
     (case device of None \<Rightarrow> ((False, out), w) | Some (stub, sid) \<Rightarrow> rpcReadCursor stub sid out w)"

section \<open>The client object\<close>

record ClientImpl =
  ci_sessionId :: string
  ci_serverAddress :: string

text \<open>\<open>channel\<close> says whether \<open>makeGrpcClientChannel\<close> gives a channel to a target; \<open>rpc\<close> is the
  \<open>Connect\<close> call on it, with a deadline in milliseconds or none.\<close>

record 'w net =
  nt_channel :: "string \<Rightarrow> bool"
  nt_connect :: "string \<Rightarrow> int option \<Rightarrow> 'w \<Rightarrow> (grpc_status \<times> ConnectResponse) \<times> 'w"
  nt_disconnect :: "string \<Rightarrow> metadata \<Rightarrow> 'w \<Rightarrow> grpc_status \<times> 'w"

definition clientCreate :: "'w net \<Rightarrow> string \<Rightarrow> 'w \<Rightarrow> ClientImpl option \<times> 'w" where
  "clientCreate nt target w =
     (if target = [] then (None, w)
      else if \<not> nt_channel nt target then (None, w)
      else let ((ok, info), w') = sessionConnect (nt_connect nt target None) w in
           if \<not> ok \<or> si_sessionId info = [] then (None, w')
           else (Some \<lparr>ci_sessionId = si_sessionId info, ci_serverAddress = target\<rparr>, w'))"

definition tryCreateWithDeadline :: "'w net \<Rightarrow> string \<Rightarrow> 'w \<Rightarrow> ClientImpl option \<times> 'w" where
  "tryCreateWithDeadline nt target w =
     (if target = [] then (None, w)
      else if \<not> nt_channel nt target then (None, w)
      else let ((ok, info), w') = sessionConnectWithDeadline (\<lambda>ms. nt_connect nt target (Some ms)) 800 w in
           if \<not> ok \<or> si_sessionId info = [] then (None, w')
           else (Some \<lparr>ci_sessionId = si_sessionId info, ci_serverAddress = target\<rparr>, w'))"

definition destroyClientImpl :: "'w net \<Rightarrow> ClientImpl \<Rightarrow> 'w \<Rightarrow> 'w" where
  "destroyClientImpl nt c w =
     (if ci_sessionId c \<noteq> [] then snd (sessionDisconnect (nt_disconnect nt (ci_serverAddress c)) (ci_sessionId c) w) else w)"

fun firstClient :: "'w net \<Rightarrow> string list \<Rightarrow> 'w \<Rightarrow> ClientImpl option \<times> 'w" where
  "firstClient nt [] w = (None, w)"
| "firstClient nt (t # ts) w =
     (case tryCreateWithDeadline nt t w of (Some c, w') \<Rightarrow> (Some c, w') | (None, w') \<Rightarrow> firstClient nt ts w')"

definition makeDeviceClient ::
  "'w net \<Rightarrow> 'w discovery_env \<Rightarrow> string \<Rightarrow> (string \<Rightarrow> any) \<Rightarrow> 'w \<Rightarrow> (ClientImpl option \<times> 'w) option" where
  "makeDeviceClient nt env target get w =
     (if target = [] then map_option (\<lambda>(ts, w'). firstClient nt ts w') (discoverGrpcTargets env get w)
      else Some (clientCreate nt target w))"

definition tryExportSessionForLogForwarding :: "ClientImpl option \<Rightarrow> (string \<times> string) option" where
  "tryExportSessionForLogForwarding client = map_option (\<lambda>c. (ci_serverAddress c, ci_sessionId c)) client"

section \<open>The server of the device\<close>

record device_flags =
  DFLAGS_listen :: string
  DFLAGS_log_level :: string
  DFLAGS_discovery_port :: int
  DFLAGS_discovery_link_mode :: string

definition deviceSettings :: "device_flags \<Rightarrow> MemorySetting" where
  "deviceSettings f =
     insertAll memInsert []
       [(''discovery_port'', AInt32 (DFLAGS_discovery_port f)), (''discovery_link_mode'', AString (DFLAGS_discovery_link_mode f)),
        (''listen'', AString (DFLAGS_listen f))]"

text \<open>\<open>GrpcServer::run\<close>: the settings the responder starts with (an overlay with the port on top), and
  the code; \<open>build\<close> and \<open>wait\<close> as for the other server.\<close>

definition discoveryOverlay :: "MemorySetting \<Rightarrow> u16 option \<Rightarrow> MemorySetting OverlaySetting" where
  "discoveryOverlay settings port =
     \<lparr>ov_top = (case port of None \<Rightarrow> [] | Some p \<Rightarrow> memInsert [] ''discovery_grpc_listen_port'' (AInt32 (uint p))),
      ov_below = [settings]\<rparr>"

definition grpcServerRun ::
  "((u16 \<times> int \<times> DiscoveryLinkMode) option \<Rightarrow> 'w \<Rightarrow> 'w) \<Rightarrow> (string \<Rightarrow> 'w \<Rightarrow> bool \<times> 'w) \<Rightarrow> ('w \<Rightarrow> 'w option)
   \<Rightarrow> MemorySetting \<Rightarrow> 'w \<Rightarrow> (int \<times> 'w) option" where
  "grpcServerRun responder build wait settings w =
     (let addr = getString (memGet settings ''listen'') [];
          port = parseListenPort addr;
          w1 = (case port of
                  None \<Rightarrow> w
                | Some p \<Rightarrow> responder (responderStart (ovGet memContains memGet (discoveryOverlay settings port))) w);
          (started, w2) = build addr w1
      in if \<not> started then Some (1, w2) else map_option (Pair 0) (wait w2))"

definition deviceMain ::
  "(LogLevel \<Rightarrow> 'w \<Rightarrow> 'w) \<Rightarrow> ((u16 \<times> int \<times> DiscoveryLinkMode) option \<Rightarrow> 'w \<Rightarrow> 'w) \<Rightarrow> (string \<Rightarrow> 'w \<Rightarrow> bool \<times> 'w) \<Rightarrow> ('w \<Rightarrow> 'w option)
   \<Rightarrow> device_flags \<Rightarrow> 'w \<Rightarrow> (int \<times> 'w) option" where
  "deviceMain setLevel responder build wait f w =
     grpcServerRun responder build wait (deviceSettings f) (setLevel (logLevelFromString (DFLAGS_log_level f)) w)"

text \<open>The stub joined to the service, for the calls of one peer at one time.\<close>

definition deviceDirectStub :: "'w device_service \<Rightarrow> string \<Rightarrow> int \<Rightarrow> (SessionRegistry \<times> 'w) device_stub" where
  "deviceDirectStub sv peer now =
     \<lparr>ds_GetCapabilities = (\<lambda>md. svcGetCapabilities sv \<lparr>ctx_metadata = md, ctx_peer = peer\<rparr> now),
      ds_GetCursorPositionAvailability = (\<lambda>md. svcGetCursorPositionAvailability sv \<lparr>ctx_metadata = md, ctx_peer = peer\<rparr> now),
      ds_ReadCursorPosition = (\<lambda>md. svcReadCursorPosition sv \<lparr>ctx_metadata = md, ctx_peer = peer\<rparr> now)\<rparr>"

section \<open>Lemmas\<close>

lemma firstClient_some:
  "firstClient nt ts w = (Some c, w') \<Longrightarrow>
   \<exists>ts1 t ts2 w1. ts = ts1 @ t # ts2 \<and> firstClient nt ts1 w = (None, w1) \<and> tryCreateWithDeadline nt t w1 = (Some c, w')"
proof (induction ts arbitrary: w)
  case (Cons t ts)
  show ?case
  proof (cases "tryCreateWithDeadline nt t w")
    case (Pair r w1)
    show ?thesis
    proof (cases r)
      case None
      with Cons.prems Pair have "firstClient nt ts w1 = (Some c, w')" by simp
      from Cons.IH [OF this] obtain ts1 t' ts2 w2 where
        "ts = ts1 @ t' # ts2" "firstClient nt ts1 w1 = (None, w2)" "tryCreateWithDeadline nt t' w2 = (Some c, w')" by auto
      with Pair None show ?thesis
        by (intro exI [of _ "t # ts1"] exI [of _ t'] exI [of _ ts2] exI [of _ w2]) simp
    next
      case (Some c')
      with Cons.prems Pair show ?thesis by (intro exI [of _ "[]"] exI [of _ t] exI [of _ ts] exI [of _ w]) simp
    qed
  qed
qed simp

lemma tryCreate_client:
  "tryCreateWithDeadline nt t w = (Some c, w') \<Longrightarrow> ci_serverAddress c = t \<and> ci_sessionId c \<noteq> [] \<and> nt_channel nt t"
  by (auto simp: tryCreateWithDeadline_def Let_def split: if_splits prod.splits)

lemma discoverGrpcTargets_settings:
  assumes "getInt (get ''discovery_port'') kDeviceDiscoveryUdpPort = port"
    and "tryParseDiscoveryLinkMode (getString (get ''discovery_link_mode'') ''broadcast'') = Some mode"
  shows "discoverGrpcTargets env get w = discoverGrpcTargetsImpl env port mode w"
  using assms by (simp add: discoverGrpcTargets_def)

text \<open>The settings the responder reads through the overlay.\<close>

lemma deviceSettings_get:
  "memGet (deviceSettings f) ''listen'' = AString (DFLAGS_listen f)"
  "ovGet memContains memGet (discoveryOverlay (deviceSettings f) (Some p)) ''discovery_grpc_listen_port'' = AInt32 (uint p)"
  "ovGet memContains memGet (discoveryOverlay (deviceSettings f) (Some p)) ''discovery_port'' = AInt32 (DFLAGS_discovery_port f)"
  "ovGet memContains memGet (discoveryOverlay (deviceSettings f) (Some p)) ''discovery_link_mode'' = AString (DFLAGS_discovery_link_mode f)"
  by (simp_all add: deviceSettings_def insertAll_def memGet_def memContains_def ovGet_def discoveryOverlay_def)

section \<open>Properties\<close>


text \<open>A network on which the second machine found takes the session.\<close>

definition demo_connect :: "'w net" where
  "demo_connect =
     \<lparr>nt_channel = (\<lambda>t. True),
      nt_connect = (\<lambda>t ms w. ((if t = ''10.0.0.9:8080'' then grpc_ok else status UNAVAILABLE [], \<lparr>cr_session_id = ''s'', cr_lease_timeout_ms = 3000\<rparr>), w)),
      nt_disconnect = (\<lambda>t md w. (grpc_ok, w))\<rparr>"


text \<open>The device answers a client with a live session what its own objects say: the kinds a client reads are those
  of the provider, and the position it reads is the cursor's when it is available and can be
  read; otherwise the call fails and leaves the client's variables alone.\<close>

theorem device_queries:
  assumes "requireBusinessSession \<lparr>ctx_metadata = addSessionMetadata [] sid, ctx_peer = peer\<rparr> now reg = (st, reg')" and "is_ok st"
    and "sv = \<lparr>cursorPosition = Some c, deviceKindsProvider = Some kinds\<rparr>"
  shows "remoteKinds (Some (deviceDirectStub sv peer now, sid)) (reg, w) = (fst (kinds w), reg', snd (kinds w))
    \<and> remoteReadCursor (Some (deviceDirectStub sv peer now, sid)) out (reg, w) =
       (let (b, w1) = cp_availability c w in
        if \<not> b then ((False, out), reg', w1)
        else let ((ok, p), w2) = cp_read c (0, 0) w1 in if ok then ((True, p), reg', w2) else ((False, out), reg', w2))"
proof -
  have "remoteKinds (Some (deviceDirectStub sv peer now, sid)) (reg, w) = (fst (kinds w), reg', snd (kinds w))"
    using assms
    by (simp add: remoteKinds_def rpcKinds_def rpcGetCapabilities_def deviceDirectStub_def svcGetCapabilities_def
        case_prod_unfold Let_def comp_def is_ok_def grpc_ok_def)
  moreover have "remoteReadCursor (Some (deviceDirectStub sv peer now, sid)) out (reg, w) =
       (let (b, w1) = cp_availability c w in
        if \<not> b then ((False, out), reg', w1)
        else let ((ok, p), w2) = cp_read c (0, 0) w1 in if ok then ((True, p), reg', w2) else ((False, out), reg', w2))"
    using assms
    by (simp add: remoteReadCursor_def rpcReadCursor_def deviceDirectStub_def svcReadCursorPosition_def
        case_prod_unfold Let_def is_ok_def grpc_ok_def)
  ultimately show ?thesis by simp
qed

theorem device_queries_witness:
  "fst (remoteKinds (Some (deviceDirectStub \<lparr>cursorPosition = Some \<lparr>cp_availability = Pair True, cp_read = (\<lambda>out. Pair (True, 3, 4))\<rparr>,
       deviceKindsProvider = Some (Pair [kMouse, kKeyboard])\<rparr> ''p'' 5, ''id''))
     (\<lparr>leaseTimeoutMs = 3000, sessions = [''id'' \<mapsto> \<lparr>sr_peer = ''p'', sr_lastHeartbeat = 0\<rparr>]\<rparr>, 0 :: nat)) = [kMouse, kKeyboard]"
proof -
  let ?reg = "\<lparr>leaseTimeoutMs = 3000, sessions = [''id'' \<mapsto> \<lparr>sr_peer = ''p'', sr_lastHeartbeat = 0\<rparr>]\<rparr>"
  let ?reg' = "\<lparr>leaseTimeoutMs = 3000, sessions = [''id'' \<mapsto> \<lparr>sr_peer = ''p'', sr_lastHeartbeat = 5\<rparr>]\<rparr>"
  have 1: "requireBusinessSession \<lparr>ctx_metadata = addSessionMetadata [] ''id'', ctx_peer = ''p''\<rparr> 5 ?reg = (grpc_ok, ?reg')"
    by (simp add: requireBusinessSession_def sessionIdFromContext_def orEmpty_def requireActiveBusinessCall_def
        addSessionMetadata_def expired_def)
  have 2: "is_ok grpc_ok" by (simp add: is_ok_def grpc_ok_def)
  show ?thesis by (simp add: device_queries [OF 1 2 refl])
qed

text \<open>A device announces the port it listens on: with \<open>--listen\<close> ending in a colon and a port, and
  valid flags for the discovery, the responder is started before the server is built, with that
  port, the UDP port of the flag and its link mode.\<close>

theorem device_main_announces:
  assumes "1 \<le> n" and "n \<le> 65535" and "host = [] \<or> hd host \<noteq> CHR ''[''" and "DFLAGS_listen f = host @ '':'' @ show_nat n"
    and "1 \<le> DFLAGS_discovery_port f" and "DFLAGS_discovery_port f \<le> 65535"
    and "tryParseDiscoveryLinkMode (DFLAGS_discovery_link_mode f) = Some mode"
  shows "deviceMain setLevel responder build wait f w =
     (let w1 = responder (Some (of_nat n, DFLAGS_discovery_port f, mode)) (setLevel (logLevelFromString (DFLAGS_log_level f)) w);
          (started, w2) = build (DFLAGS_listen f) w1
      in if started then map_option (Pair 0) (wait w2) else Some (1, w2))"
proof -
  have p: "parseListenPort (DFLAGS_listen f) = Some (of_nat n)"
    using parseListenPort_digits [OF assms(1-3), of "[]"] assms(4) by simp
  have u: "uint (of_nat n :: u16) = int n" using assms(2) by (simp add: unat_of_nat uint_nat)
  have "responderStart (ovGet memContains memGet (discoveryOverlay (deviceSettings f) (Some (of_nat n)))) =
      Some (of_nat n, DFLAGS_discovery_port f, mode)"
    using assms(1,2,5-7) by (simp add: responderStart_def deviceSettings_get getInt_def getString_def u)
  then show ?thesis
    by (simp add: deviceMain_def grpcServerRun_def deviceSettings_get getString_def p case_prod_unfold Let_def)
qed

theorem device_main_announces_witness:
  "deviceMain (\<lambda>l w. w) (\<lambda>r w. r # w) (\<lambda>a w. (True, w)) Some
     \<lparr>DFLAGS_listen = ''0.0.0.0'' @ '':'' @ show_nat 8080, DFLAGS_log_level = [], DFLAGS_discovery_port = 53508,
      DFLAGS_discovery_link_mode = ''Multicast''\<rparr> [] = Some (0, [Some (8080, 53508, kMulticast)])"
proof -
  have "map c_tolower ''Multicast'' = ''multicast''" by code_simp
  then show ?thesis
    using device_main_announces [of 8080 "''0.0.0.0''" "\<lparr>DFLAGS_listen = ''0.0.0.0'' @ '':'' @ show_nat 8080, DFLAGS_log_level = [],
      DFLAGS_discovery_port = 53508, DFLAGS_discovery_link_mode = ''Multicast''\<rparr>" kMulticast "\<lambda>l w. w" "\<lambda>r w. r # w" "\<lambda>a w. (True, w)" Some "[]"]
    by (simp add: tryParseDiscoveryLinkMode_def)
qed

end
