(* ===== verification/Fifo.thy ===== *)
theory Fifo
  imports Prelude
begin

text \<open>
  The contract of a queue between threads: \<open>put\<close> adds at the back and may drop from the
  front, \<open>get\<close> takes the front. The log buffers are such queues; the task queue of the worker
  threads is one that drops nothing.
\<close>

datatype 'a fifo_op = Put 'a | Get

locale fifo =
  fixes content :: "'q \<Rightarrow> 'a list"
    and put :: "'a \<Rightarrow> 'q \<Rightarrow> 'q"
    and get :: "'q \<Rightarrow> 'a option \<times> 'q"
    and invar :: "'q \<Rightarrow> bool"
  assumes put_suffix: "invar q \<Longrightarrow> suffix (content (put x q)) (content q @ [x])"
    and get_empty: "invar q \<Longrightarrow> content q = [] \<Longrightarrow> get q = (None, q)"
    and get_front: "invar q \<Longrightarrow> content q = x # xs \<Longrightarrow> fst (get q) = Some x \<and> content (snd (get q)) = xs"
    and invar_put: "invar q \<Longrightarrow> invar (put x q)"
    and invar_get: "invar q \<Longrightarrow> invar (snd (get q))"

text \<open>A history: what the operations took out, and the queue at the end.\<close>

fun fifoRun :: "('a \<Rightarrow> 'q \<Rightarrow> 'q) \<Rightarrow> ('q \<Rightarrow> 'a option \<times> 'q) \<Rightarrow> 'a fifo_op list \<Rightarrow> 'q \<Rightarrow> 'a list \<times> 'q" where
  "fifoRun put get [] q = ([], q)"
| "fifoRun put get (Put x # ops) q = fifoRun put get ops (put x q)"
| "fifoRun put get (Get # ops) q =
     (let (r, q1) = get q; (out, q2) = fifoRun put get ops q1
      in (case r of Some x \<Rightarrow> x # out | None \<Rightarrow> out, q2))"

fun putsOf :: "'a fifo_op list \<Rightarrow> 'a list" where
  "putsOf [] = []"
| "putsOf (Put x # ops) = x # putsOf ops"
| "putsOf (Get # ops) = putsOf ops"

context fifo
begin

text \<open>What comes out, followed by what is left, is a subsequence of what went in, and what is
  left is the newest of it.\<close>

lemma run_invar: "invar q \<Longrightarrow> invar (snd (fifoRun put get ops q))"
proof (induction ops arbitrary: q)
  case (Cons op ops)
  then show ?case
    using Cons.IH [OF invar_get [of q]] Cons.IH [OF invar_put [of q]] by (cases op) (simp_all add: split_beta Let_def)
qed simp

lemma get_cases:
  assumes "invar q"
  obtains "content q = []" "get q = (None, q)"
  | x q' where "content q = x # content q'" "get q = (Some x, q')" "invar q'"
proof (cases "content q")
  case (Cons x xs)
  then show thesis
    using that(2) [of x "snd (get q)"] get_front [OF assms] invar_get [OF assms] by (cases "get q") auto
qed (use that(1) get_empty [OF assms] in simp)

lemma run_order:
  "invar q \<Longrightarrow> subseq (fst (fifoRun put get ops q) @ content (snd (fifoRun put get ops q))) (content q @ putsOf ops)"
proof (induction ops arbitrary: q)
  case (Cons op ops)
  show ?case
  proof (cases op)
    case (Put x)
    have "subseq (content (put x q) @ putsOf ops) ((content q @ [x]) @ putsOf ops)"
      by (rule list_emb_append_mono [OF suffix_imp_subseq [OF put_suffix [OF Cons.prems]]]) simp
    with Cons.IH [OF invar_put [OF Cons.prems], of x] show ?thesis
      using Put by (auto intro: subseq_order.order_trans)
  next
    case Get
    from Cons.prems show ?thesis
    proof (cases rule: get_cases)
      case 1
      then show ?thesis using Cons.IH [OF Cons.prems] Get by (simp add: split_beta Let_def)
    next
      case (2 x q')
      then show ?thesis using Cons.IH [OF 2(3)] Get by (simp add: split_beta Let_def)
    qed
  qed
qed simp

lemma run_suffix:
  "invar q \<Longrightarrow> suffix (content (snd (fifoRun put get ops q))) (content q @ putsOf ops)"
proof (induction ops arbitrary: q)
  case (Cons op ops)
  show ?case
  proof (cases op)
    case (Put x)
    have "suffix (content (put x q) @ putsOf ops) ((content q @ [x]) @ putsOf ops)"
      using put_suffix [OF Cons.prems, of x] by (auto simp: suffix_def)
    with Cons.IH [OF invar_put [OF Cons.prems], of x] show ?thesis
      using Put by (auto intro: suffix_order.order_trans)
  next
    case Get
    from Cons.prems show ?thesis
    proof (cases rule: get_cases)
      case 1
      then show ?thesis using Cons.IH [OF Cons.prems] Get by (simp add: split_beta Let_def)
    next
      case (2 x q')
      then show ?thesis using Cons.IH [OF 2(3)] Get by (simp add: split_beta Let_def suffix_ConsI)
    qed
  qed
qed simp

end

text \<open>A queue that drops nothing.\<close>

locale lossless_fifo = fifo +
  assumes put_all: "invar q \<Longrightarrow> content (put x q) = content q @ [x]"
begin

lemma run_all:
  "invar q \<Longrightarrow> fst (fifoRun put get ops q) @ content (snd (fifoRun put get ops q)) = content q @ putsOf ops"
proof (induction ops arbitrary: q)
  case (Cons op ops)
  show ?case
  proof (cases op)
    case (Put x)
    then show ?thesis using Cons.IH [OF invar_put [OF Cons.prems], of x] put_all [OF Cons.prems] by simp
  next
    case Get
    from Cons.prems show ?thesis
    proof (cases rule: get_cases)
      case 1
      then show ?thesis using Cons.IH [OF Cons.prems] Get by (simp add: split_beta Let_def)
    next
      case (2 x q')
      then show ?thesis using Cons.IH [OF 2(3)] Get by (simp add: split_beta Let_def)
    qed
  qed
qed simp

end

end
