(* ===== verification/Logging.thy ===== *)
theory Logging
  imports Fifo Settings Session
begin

text \<open>
  Log lines across processes (\<open>evrp/sdk/log\<close>): the bounded buffer of a subscriber
  (\<open>asynclogbuffer.cpp\<close>), the tee that sends each line to the local logger and to the network
  (\<open>logservicetee.cpp\<close>), the device's log service (\<open>grpc/grpclogservice.cpp\<close>) and the
  server's end of the stream (\<open>grpc/remotelogservice.cpp\<close>). The local logger, the order of
  the log levels and their translation to spdlog's are library code and are parameters. The
  global \<open>logService\<close> is a field of the state of a process; calls through it may come back to
  the caller, so \<open>setLevel\<close> and \<open>flush\<close> are options, \<open>None\<close> for a call that never returns.
\<close>

section \<open>AsyncLogBuffer\<close>

record LogMessage =
  lm_level :: LogLevel
  lm_text :: string

record AsyncLogBuffer =
  lb_queue :: "LogMessage list"
  lb_closed :: bool

abbreviation (input) "kMaxQueue \<equiv> (2000 :: nat)"

definition newBuffer :: AsyncLogBuffer where
  "newBuffer = \<lparr>lb_queue = [], lb_closed = False\<rparr>"

function trimQueue :: "LogMessage list \<Rightarrow> LogMessage list" where
  "trimQueue q = (if length q \<ge> kMaxQueue then trimQueue (tl q) else q)"
  by pat_completeness auto
termination by (relation "measure length") auto

definition bufPush :: "LogMessage \<Rightarrow> AsyncLogBuffer \<Rightarrow> AsyncLogBuffer" where
  "bufPush m b = (if lb_closed b then b else b\<lparr>lb_queue := trimQueue (lb_queue b) @ [m]\<rparr>)"

text \<open>Once the wait is over.\<close>

definition waitPopFor :: "AsyncLogBuffer \<Rightarrow> LogMessage option \<times> AsyncLogBuffer" where
  "waitPopFor b =
     (case lb_queue b of [] \<Rightarrow> (None, b) | m # ms \<Rightarrow> (Some m, b\<lparr>lb_queue := ms\<rparr>))"

definition closeBuffer :: "AsyncLogBuffer \<Rightarrow> AsyncLogBuffer" where
  "closeBuffer b = b\<lparr>lb_closed := True\<rparr>"

section \<open>Services\<close>

text \<open>The local logger, and what the sources use of the levels.\<close>

record 'p ILogService =
  ls_getLevel :: "'p \<Rightarrow> LogLevel"
  ls_setLevel :: "LogLevel \<Rightarrow> 'p \<Rightarrow> 'p"
  ls_log :: "LogLevel \<Rightarrow> string \<Rightarrow> 'p \<Rightarrow> 'p"
  ls_flush :: "'p \<Rightarrow> 'p"

record log_levels =
  below :: "LogLevel \<Rightarrow> LogLevel \<Rightarrow> bool"
  levelToSpdlog :: "LogLevel \<Rightarrow> int"
  spdlogToLevel :: "int \<Rightarrow> LogLevel"

text \<open>The network ends and what a pointer to a log service may point to.\<close>

datatype net_log = GrpcLogService | RemoteLogService

datatype log_service = PrimaryLog | LogServiceTee bool "net_log option"

text \<open>A process: the global \<open>logService\<close>, the state of its local logger, \<open>threshold_\<close> and
  \<open>subscriberBuffers_\<close> of a \<open>GrpcLogService\<close> (\<open>None\<close> for an expired pointer), and the lines
  written on the \<open>activeStream_\<close> of a \<open>RemoteLogService\<close>.\<close>

record 'p log_proc =
  logService :: "log_service option"
  prim :: 'p
  threshold :: LogLevel
  subscriberBuffers :: "AsyncLogBuffer option list"
  activeStream :: "(int \<times> string) list option"

fun pushAlive :: "LogMessage \<Rightarrow> AsyncLogBuffer option list \<Rightarrow> AsyncLogBuffer option list" where
  "pushAlive m [] = []"
| "pushAlive m (Some b # bs) = Some (bufPush m b) # pushAlive m bs"
| "pushAlive m (None # bs) = pushAlive m bs"

definition publishToAllSubscribers :: "LogLevel \<Rightarrow> string \<Rightarrow> 'p log_proc \<Rightarrow> 'p log_proc" where
  "publishToAllSubscribers level line st =
     st\<lparr>subscriberBuffers := pushAlive \<lparr>lm_level = level, lm_text = line\<rparr> (subscriberBuffers st)\<rparr>"

definition writeOutbound :: "log_levels \<Rightarrow> LogLevel \<Rightarrow> string \<Rightarrow> 'p log_proc \<Rightarrow> 'p log_proc" where
  "writeOutbound lv level line st =
     (case activeStream st of
        None \<Rightarrow> st
      | Some out \<Rightarrow> st\<lparr>activeStream := Some (out @ [(levelToSpdlog lv level, line)])\<rparr>)"

text \<open>\<open>logSender()->log\<close> of the two ends.\<close>

fun senderLog :: "log_levels \<Rightarrow> net_log \<Rightarrow> LogLevel \<Rightarrow> string \<Rightarrow> 'p log_proc \<Rightarrow> 'p log_proc" where
  "senderLog lv GrpcLogService level msg st =
     (if below lv level (threshold st) then st else publishToAllSubscribers level msg st)"
| "senderLog lv RemoteLogService level msg st = writeOutbound lv level msg st"

fun serviceLog :: "'p ILogService \<Rightarrow> log_levels \<Rightarrow> log_service \<Rightarrow> LogLevel \<Rightarrow> string \<Rightarrow> 'p log_proc \<Rightarrow> 'p log_proc" where
  "serviceLog P lv PrimaryLog level msg st = st\<lparr>prim := ls_log P level msg (prim st)\<rparr>"
| "serviceLog P lv (LogServiceTee primary net) level msg st =
     (let st1 = (case net of None \<Rightarrow> st | Some n \<Rightarrow> senderLog lv n level msg st)
      in if primary then st1\<lparr>prim := ls_log P level msg (prim st1)\<rparr> else st1)"

text \<open>\<open>logReceiver()->log\<close>: a line from the peer goes to the global service.\<close>

definition globalLog :: "'p ILogService \<Rightarrow> log_levels \<Rightarrow> LogLevel \<Rightarrow> string \<Rightarrow> 'p log_proc \<Rightarrow> 'p log_proc" where
  "globalLog P lv level msg st =
     (case logService st of None \<Rightarrow> st | Some s \<Rightarrow> serviceLog P lv s level msg st)"

fun receiverLog :: "'p ILogService \<Rightarrow> log_levels \<Rightarrow> net_log \<Rightarrow> LogLevel \<Rightarrow> string \<Rightarrow> 'p log_proc \<Rightarrow> 'p log_proc" where
  "receiverLog P lv GrpcLogService level msg st =
     (if below lv level (threshold st) \<or> logService st = None then st else globalLog P lv level msg st)"
| "receiverLog P lv RemoteLogService level msg st = globalLog P lv level msg st"

fun ingestInbound :: "'p ILogService \<Rightarrow> log_levels \<Rightarrow> net_log \<Rightarrow> int \<times> string \<Rightarrow> 'p log_proc \<Rightarrow> 'p log_proc" where
  "ingestInbound P lv GrpcLogService (l, line) st =
     receiverLog P lv GrpcLogService (spdlogToLevel lv l) (''[remote] '' @ line) st"
| "ingestInbound P lv RemoteLogService (l, line) st =
     receiverLog P lv RemoteLogService (spdlogToLevel lv l) (''[evrp-device] '' @ line) st"

text \<open>The level of a service.\<close>

fun serviceGetLevel :: "'p ILogService \<Rightarrow> log_service \<Rightarrow> 'p log_proc \<Rightarrow> LogLevel" where
  "serviceGetLevel P PrimaryLog st = ls_getLevel P (prim st)"
| "serviceGetLevel P (LogServiceTee primary net) st = (if primary then ls_getLevel P (prim st) else Info)"

fun netGetLevel :: "'p ILogService \<Rightarrow> net_log \<Rightarrow> 'p log_proc \<Rightarrow> LogLevel" where
  "netGetLevel P GrpcLogService st = threshold st"
| "netGetLevel P RemoteLogService st =
     (case logService st of None \<Rightarrow> Info | Some s \<Rightarrow> serviceGetLevel P s st)"

text \<open>\<open>setLevel\<close> of a service: the tee passes it to the local logger, then to the sender and to
  the receiver of its network end; those of a \<open>RemoteLogService\<close> call the global service.\<close>

partial_function (option) serviceSetLevel ::
  "'p ILogService \<Rightarrow> LogLevel \<Rightarrow> log_service \<Rightarrow> 'p log_proc \<Rightarrow> 'p log_proc option" where
  "serviceSetLevel L level s st =
     (case s of
        PrimaryLog \<Rightarrow> Some (st\<lparr>prim := ls_setLevel L level (prim st)\<rparr>)
      | LogServiceTee primary net \<Rightarrow>
          (let st1 = (if primary then st\<lparr>prim := ls_setLevel L level (prim st)\<rparr> else st) in
           case net of
             None \<Rightarrow> Some st1
           | Some GrpcLogService \<Rightarrow> Some (st1\<lparr>threshold := level\<rparr>)
           | Some RemoteLogService \<Rightarrow>
               (case logService st1 of
                  None \<Rightarrow> Some st1
                | Some g \<Rightarrow> Option.bind (serviceSetLevel L level g st1)
                              (\<lambda>st2. serviceSetLevel L level g st2))))"

text \<open>A call through the global pointer, and through it after a test for null.\<close>

definition globalSetLevel :: "'p ILogService \<Rightarrow> LogLevel \<Rightarrow> 'p log_proc \<Rightarrow> 'p log_proc option" where
  "globalSetLevel L level st = (case logService st of None \<Rightarrow> None | Some s \<Rightarrow> serviceSetLevel L level s st)"

definition remoteSetLevel :: "'p ILogService \<Rightarrow> LogLevel \<Rightarrow> 'p log_proc \<Rightarrow> 'p log_proc option" where
  "remoteSetLevel L level st = (case logService st of None \<Rightarrow> Some st | Some s \<Rightarrow> serviceSetLevel L level s st)"

text \<open>What \<open>connectDevice\<close> does to the global service once a device is connected, and the destructor of
  the connection; the service before it is the local logger, or null.\<close>

definition installLogTee :: "'p ILogService \<Rightarrow> LogLevel \<Rightarrow> 'p log_proc \<Rightarrow> 'p log_proc option" where
  "installLogTee L level st =
     Option.bind (remoteSetLevel L level st) (\<lambda>st1.
     Option.bind (remoteSetLevel L level st1) (\<lambda>st2.
       Some (st2\<lparr>logService := Some (LogServiceTee (logService st \<noteq> None) (Some RemoteLogService))\<rparr>)))"

text \<open>What \<open>GrpcServer::run\<close> of the device does.\<close>

definition installDeviceTee :: "'p ILogService \<Rightarrow> 'p log_proc \<Rightarrow> 'p log_proc" where
  "installDeviceTee L st =
     (let st1 = (case logService st of None \<Rightarrow> st | Some s \<Rightarrow> st\<lparr>threshold := serviceGetLevel L s st\<rparr>)
      in st1\<lparr>logService := Some (LogServiceTee (logService st \<noteq> None) (Some GrpcLogService))\<rparr>)"

definition removeLogTee :: "log_service option \<Rightarrow> 'p log_proc \<Rightarrow> 'p log_proc" where
  "removeLogTee prior st = st\<lparr>logService := prior\<rparr>"

text \<open>\<open>flush\<close>: senders do nothing, receivers flush the global service.\<close>

partial_function (option) serviceFlush :: "'p ILogService \<Rightarrow> log_service \<Rightarrow> 'p log_proc \<Rightarrow> 'p log_proc option" where
  "serviceFlush L s st =
     (case s of
        PrimaryLog \<Rightarrow> Some (st\<lparr>prim := ls_flush L (prim st)\<rparr>)
      | LogServiceTee primary net \<Rightarrow>
          (let st1 = (if primary then st\<lparr>prim := ls_flush L (prim st)\<rparr> else st) in
           case net of
             None \<Rightarrow> Some st1
           | Some n \<Rightarrow> (case logService st1 of None \<Rightarrow> Some st1 | Some g \<Rightarrow> serviceFlush L g st1)))"

section \<open>The stream\<close>

text \<open>\<open>GrpcLogService::StreamLogs\<close> in steps: the entry (\<open>i\<close> is the position of its buffer), a
  round of the writing loop, a round of the reading thread, the exit.\<close>

definition streamEnter ::
  "server_context \<Rightarrow> int \<Rightarrow> SessionRegistry \<times> 'p log_proc \<Rightarrow> grpc_status \<times> SessionRegistry \<times> 'p log_proc" where
  "streamEnter ctx now = (\<lambda>(reg, st).
     let (s, reg') = requireBusinessSession ctx now reg in
     if \<not> is_ok s then (s, reg', st)
     else (s, reg', st\<lparr>subscriberBuffers := subscriberBuffers st @ [Some newBuffer]\<rparr>))"

definition streamWrite :: "log_levels \<Rightarrow> nat \<Rightarrow> 'p log_proc \<Rightarrow> (int \<times> string) option \<times> 'p log_proc" where
  "streamWrite lv i st =
     (case subscriberBuffers st ! i of
        None \<Rightarrow> (None, st)
      | Some b \<Rightarrow>
          let (m, b') = waitPopFor b in
          (map_option (\<lambda>m. (levelToSpdlog lv (lm_level m), lm_text m)) m,
           st\<lparr>subscriberBuffers := (subscriberBuffers st)[i := Some b']\<rparr>))"

definition streamRead :: "'p ILogService \<Rightarrow> log_levels \<Rightarrow> bool \<Rightarrow> int \<times> string \<Rightarrow> 'p log_proc \<Rightarrow> bool \<times> 'p log_proc" where
  "streamRead P lv cancelled m st =
     (if cancelled then (False, st) else (True, ingestInbound P lv GrpcLogService m st))"

definition streamExit :: "nat \<Rightarrow> 'p log_proc \<Rightarrow> 'p log_proc" where
  "streamExit i st =
     st\<lparr>subscriberBuffers := filter (\<lambda>b. b \<noteq> None) ((subscriberBuffers st)[i := None])\<rparr>"

text \<open>\<open>RemoteLogService::forwardUntil\<close>: the reads of the stream, each with the stop flag seen before
  it; the list ends when \<open>Read\<close> fails.\<close>

fun forwardLoop :: "'p ILogService \<Rightarrow> log_levels \<Rightarrow> (bool \<times> int \<times> string) list \<Rightarrow> 'p log_proc \<Rightarrow> 'p log_proc" where
  "forwardLoop P lv [] st = st"
| "forwardLoop P lv ((stop, m) # reads) st =
     (if stop then st else forwardLoop P lv reads (ingestInbound P lv RemoteLogService m st))"

definition forwardUntil ::
  "'p ILogService \<Rightarrow> log_levels \<Rightarrow> bool \<Rightarrow> bool \<Rightarrow> string \<Rightarrow> (bool \<times> int \<times> string) list \<Rightarrow> 'p log_proc \<Rightarrow> 'p log_proc" where
  "forwardUntil P lv stub stopFlag sessionId reads st =
     (if \<not> stub \<or> \<not> stopFlag \<or> sessionId = [] then st
      else (forwardLoop P lv reads (st\<lparr>activeStream := Some []\<rparr>))\<lparr>activeStream := None\<rparr>)"

text \<open>A device and a server joined by a stream: the oldest line buffered for the server is sent,
  the server takes it in, and the device reads what the server wrote meanwhile.\<close>

definition echoRound ::
  "'d ILogService \<Rightarrow> 's ILogService \<Rightarrow> log_levels \<Rightarrow> 'd log_proc \<times> 's log_proc \<Rightarrow> 'd log_proc \<times> 's log_proc" where
  "echoRound D S lv = (\<lambda>(dev, srv).
     case streamWrite lv 0 dev of
       (None, dev1) \<Rightarrow> (dev1, srv)
     | (Some m, dev1) \<Rightarrow>
         let srv1 = ingestInbound S lv RemoteLogService m srv in
         case activeStream srv1 of
           Some (out # outs) \<Rightarrow> (snd (streamRead D lv False out dev1), srv1\<lparr>activeStream := Some outs\<rparr>)
         | _ \<Rightarrow> (dev1, srv1))"

definition spdlog_levels :: "log_levels \<Rightarrow> bool" where
  "spdlog_levels lv \<longleftrightarrow> (\<forall>l. spdlogToLevel lv (levelToSpdlog lv l) = l)"

text \<open>A logger that keeps its lines, and levels in spdlog's order, for the examples.\<close>

definition demo_log :: "string list ILogService" where
  "demo_log = \<lparr>ls_getLevel = (\<lambda>w. Info), ls_setLevel = (\<lambda>l w. w), ls_log = (\<lambda>l m w. w @ [m]), ls_flush = id\<rparr>"

definition demo_levels :: log_levels where
  "demo_levels =
     (let rank = (\<lambda>l. case l of Trace \<Rightarrow> 0 | Debug \<Rightarrow> 1 | Info \<Rightarrow> 2 | Warning \<Rightarrow> 3 | Error \<Rightarrow> 4 | Off \<Rightarrow> 6) in
      \<lparr>below = (\<lambda>a b. rank a < rank b), levelToSpdlog = rank,
       spdlogToLevel = (\<lambda>n. if n = 0 then Trace else if n = 1 then Debug else if n = 2 then Info
                             else if n = 3 then Warning else if n = 6 then Off else Error)\<rparr>)"

section \<open>Lemmas\<close>

lemma demo_levels_ok: "spdlog_levels demo_levels"
  by (simp add: spdlog_levels_def demo_levels_def Let_def split: LogLevel.split)

declare trimQueue.simps [simp del]

lemma trimQueue_suffix: "suffix (trimQueue q) q \<and> length (trimQueue q) < kMaxQueue"
proof (induction q rule: trimQueue.induct)
  case (1 q)
  then show ?case
    by (subst (1 2) trimQueue.simps) (auto intro: suffix_order.order_trans [OF _ suffix_tl])
qed

lemma trimQueue_short: "length q < kMaxQueue \<Longrightarrow> trimQueue q = q"
  by (subst trimQueue.simps) simp

definition buf_ok :: "AsyncLogBuffer \<Rightarrow> bool" where
  "buf_ok b \<longleftrightarrow> \<not> lb_closed b \<and> length (lb_queue b) \<le> kMaxQueue"

lemma buf_ok_new [simp]: "buf_ok newBuffer" "lb_queue newBuffer = []" "\<not> lb_closed newBuffer"
  by (simp_all add: buf_ok_def newBuffer_def)

interpretation logbuf: fifo lb_queue bufPush waitPopFor buf_ok
proof
  fix m :: LogMessage and b :: AsyncLogBuffer
  assume b: "buf_ok b"
  show "suffix (lb_queue (bufPush m b)) (lb_queue b @ [m])"
    using b trimQueue_suffix [of "lb_queue b"] by (auto simp: bufPush_def buf_ok_def suffix_def)
  show "buf_ok (bufPush m b)"
    using b trimQueue_suffix [of "lb_queue b"] by (simp add: bufPush_def buf_ok_def Suc_le_eq)
  show "buf_ok (snd (waitPopFor b))"
    using b by (auto simp: waitPopFor_def buf_ok_def split: list.split)
qed (simp_all add: waitPopFor_def)

lemma short_run:
  "\<not> lb_closed b \<Longrightarrow> length (lb_queue b) + length (putsOf ops) \<le> kMaxQueue \<Longrightarrow>
   fst (fifoRun bufPush waitPopFor ops b) @ lb_queue (snd (fifoRun bufPush waitPopFor ops b)) = lb_queue b @ putsOf ops"
proof (induction ops arbitrary: b)
  case (Cons op ops)
  show ?case
  proof (cases op)
    case (Put m)
    then have "bufPush m b = b\<lparr>lb_queue := lb_queue b @ [m]\<rparr>"
      using Cons.prems by (simp add: bufPush_def trimQueue_short)
    then show ?thesis using Cons.IH [of "bufPush m b"] Cons.prems Put by simp
  next
    case Get
    then show ?thesis
      using Cons.IH [of b] Cons.IH [of "snd (waitPopFor b)"] Cons.prems
      by (cases "lb_queue b") (simp_all add: waitPopFor_def split_beta Let_def)
  qed
qed simp

text \<open>A service returns from \<open>setLevel\<close> unless the call comes round to a tee over the server's end
  of the stream.\<close>

abbreviation remoteTee :: "log_service option \<Rightarrow> bool" where
  "remoteTee s \<equiv> \<exists>pr. s = Some (LogServiceTee pr (Some RemoteLogService))"

lemma setLevel_diverges_aux:
  assumes "serviceSetLevel L level s st = Some r"
  shows "\<not> (remoteTee (Some s) \<and> remoteTee (logService st))"
proof (rule serviceSetLevel.raw_induct [where P = "\<lambda>L level s st r. \<not> (remoteTee (Some s) \<and> remoteTee (logService st))", OF _ assms])
  fix f L level s and st r :: "'a log_proc"
  assume ih: "\<And>L level s st r. f L level s st = Some r \<Longrightarrow> \<not> (remoteTee (Some s) \<and> remoteTee (logService (st :: 'a log_proc)))"
    and body: "(case s of
        PrimaryLog \<Rightarrow> Some (st\<lparr>prim := ls_setLevel L level (prim st)\<rparr>)
      | LogServiceTee primary net \<Rightarrow>
          (let st1 = (if primary then st\<lparr>prim := ls_setLevel L level (prim st)\<rparr> else st) in
           case net of None \<Rightarrow> Some st1 | Some GrpcLogService \<Rightarrow> Some (st1\<lparr>threshold := level\<rparr>)
           | Some RemoteLogService \<Rightarrow>
               (case logService st1 of None \<Rightarrow> Some st1
                | Some g \<Rightarrow> Option.bind (f L level g st1) (\<lambda>st2. f L level g st2)))) = Some r"
  show "\<not> (remoteTee (Some s) \<and> remoteTee (logService st))"
  proof
    assume "remoteTee (Some s) \<and> remoteTee (logService st)"
    then obtain pr pr' where s: "s = LogServiceTee pr (Some RemoteLogService)"
      and g: "logService st = Some (LogServiceTee pr' (Some RemoteLogService))" by auto
    let ?st1 = "if pr then st\<lparr>prim := ls_setLevel L level (prim st)\<rparr> else st"
    have l: "logService ?st1 = logService st" by simp
    obtain r1 where "f L level (LogServiceTee pr' (Some RemoteLogService)) ?st1 = Some r1"
      using body unfolding s by (auto simp: Let_def g bind_eq_Some_conv split: if_splits)
    from ih [OF this] show False using g l by auto
  qed
qed

lemma setLevel_returns:
  assumes "\<not> (remoteTee (Some s) \<and> remoteTee (logService st))"
  shows "\<exists>st'. serviceSetLevel L level s st = Some st'"
proof (cases "remoteTee (Some s)")
  case False
  then show ?thesis
    by (subst serviceSetLevel.simps) (auto simp: Let_def split: log_service.split option.split net_log.split)
next
  case True
  then have g: "\<not> remoteTee (logService st)" using assms by blast
  have inner: "\<exists>st'. serviceSetLevel L level g st1 = Some st'" if "\<not> remoteTee (Some g)" for g st1
    using that by (subst serviceSetLevel.simps) (auto simp: Let_def split: log_service.split option.split net_log.split)
  obtain pr where s: "s = LogServiceTee pr (Some RemoteLogService)" using True by auto
  let ?st1 = "if pr then st\<lparr>prim := ls_setLevel L level (prim st)\<rparr> else st"
  have l: "logService ?st1 = logService st" by simp
  show ?thesis
  proof (cases "logService st")
    case None
    then show ?thesis unfolding s by (subst serviceSetLevel.simps) (simp add: Let_def)
  next
    case (Some x)
    then have "\<not> remoteTee (Some x)" using g by simp
    then obtain r1 r2 where "serviceSetLevel L level x ?st1 = Some r1" "serviceSetLevel L level x r1 = Some r2"
      using inner by metis
    then show ?thesis unfolding s using Some l by (subst serviceSetLevel.simps) (simp add: Let_def cong: if_cong)
  qed
qed

text \<open>A round of the echo: the line is back in the buffer, with both prefixes.\<close>

definition echoing :: "LogLevel \<Rightarrow> string \<Rightarrow> log_levels \<Rightarrow> 'd log_proc \<times> 's log_proc \<Rightarrow> bool" where
  "echoing l line lv = (\<lambda>(dev, srv).
     (\<exists>p. logService dev = Some (LogServiceTee p (Some GrpcLogService))) \<and> \<not> below lv l (threshold dev)
     \<and> subscriberBuffers dev = [Some \<lparr>lb_queue = [\<lparr>lm_level = l, lm_text = line\<rparr>], lb_closed = False\<rparr>]
     \<and> (\<exists>q. logService srv = Some (LogServiceTee q (Some RemoteLogService))) \<and> activeStream srv = Some [])"

lemma echoRound_echoing:
  assumes "spdlog_levels lv" and "echoing l line lv st"
  shows "echoing l (''[remote] [evrp-device] '' @ line) lv (echoRound D S lv st)"
proof -
  obtain dev srv where st: "st = (dev, srv)" by (cases st)
  have t: "trimQueue [] = []" by (rule trimQueue_short) simp
  obtain p q where e: "logService dev = Some (LogServiceTee p (Some GrpcLogService))" "\<not> below lv l (threshold dev)"
    "subscriberBuffers dev = [Some \<lparr>lb_queue = [\<lparr>lm_level = l, lm_text = line\<rparr>], lb_closed = False\<rparr>]"
    "logService srv = Some (LogServiceTee q (Some RemoteLogService))" "activeStream srv = Some []"
    using assms(2) by (auto simp: echoing_def st)
  have lv: "spdlogToLevel lv (levelToSpdlog lv l) = l" for l using assms(1) by (simp add: spdlog_levels_def)
  show ?thesis unfolding st
    by (simp add: e lv t echoing_def echoRound_def streamWrite_def waitPopFor_def globalLog_def
        writeOutbound_def streamRead_def publishToAllSubscribers_def bufPush_def Let_def) auto
qed

lemma echo_forever:
  assumes "spdlog_levels lv" and "echoing l line lv st"
  shows "echoing l (concat (replicate n ''[remote] [evrp-device] '') @ line) lv ((echoRound D S lv ^^ n) st)"
proof (induction n)
  case (Suc n)
  show ?case using echoRound_echoing [OF assms(1) Suc.IH, of D S] by simp
qed (use assms(2) in simp)

lemma globalSetLevel_primary:
  "logService st = Some PrimaryLog \<Longrightarrow> globalSetLevel L level st = Some (st\<lparr>prim := ls_setLevel L level (prim st)\<rparr>)"
  by (simp add: globalSetLevel_def serviceSetLevel.simps)

lemma installLogTee_primary:
  assumes "logService st = Some PrimaryLog"
  shows "\<exists>st'. installLogTee L level st = Some st' \<and> logService st' = Some (LogServiceTee True (Some RemoteLogService))"
  using assms by (simp add: installLogTee_def remoteSetLevel_def serviceSetLevel.simps)

lemma globalSetLevel_remoteTee:
  assumes "logService st = Some (LogServiceTee pr (Some RemoteLogService))"
  shows "globalSetLevel L level st = None"
proof (cases "serviceSetLevel L level (LogServiceTee pr (Some RemoteLogService)) st")
  case (Some r)
  from setLevel_diverges_aux [OF this] assms show ?thesis by auto
qed (simp add: globalSetLevel_def assms)

section \<open>Properties\<close>

text \<open>The buffer of a log subscriber never holds more than 2000 lines. Over any history of
  pushes and pops, what was popped followed by what is still held is a subsequence of what was
  pushed, in order, and what is held is the newest of it; a history of at most 2000 pushes loses
  nothing.\<close>

theorem log_buffer_keeps_newest:
  fixes ops defines "r \<equiv> fifoRun bufPush waitPopFor ops newBuffer"
  shows "length (lb_queue (snd r)) \<le> 2000 \<and> subseq (fst r @ lb_queue (snd r)) (putsOf ops)
    \<and> suffix (lb_queue (snd r)) (putsOf ops)
    \<and> (length (putsOf ops) \<le> 2000 \<longrightarrow> fst r @ lb_queue (snd r) = putsOf ops)"
  using logbuf.run_invar [OF buf_ok_new(1), of ops] logbuf.run_order [OF buf_ok_new(1), of ops]
    logbuf.run_suffix [OF buf_ok_new(1), of ops] short_run [of newBuffer ops]
  by (simp add: r_def buf_ok_def)

theorem log_buffer_keeps_newest_witness:
  "let m = (\<lambda>t. \<lparr>lm_level = Info, lm_text = t\<rparr>); ops = [Put (m ''a''), Put (m ''b''), Get, Put (m ''c'')];
       r = fifoRun bufPush waitPopFor ops newBuffer
   in fst r @ lb_queue (snd r) = [m ''a'', m ''b'', m ''c'']"
  using log_buffer_keeps_newest [of "[Put \<lparr>lm_level = Info, lm_text = ''a''\<rparr>, Put \<lparr>lm_level = Info, lm_text = ''b''\<rparr>,
    Get, Put \<lparr>lm_level = Info, lm_text = ''c''\<rparr>]"]
  unfolding Let_def by simp

text \<open>\<open>setLevel\<close> on a log service returns unless the service is a tee over the server's end of
  the log stream while the global \<open>logService\<close> is such a tee too. That is what \<open>connectDevice\<close>
  installs and \<open>Record::run\<close> and \<open>Playback::run\<close> call: the sender of the stream calls
  the global service back, and the call never returns.\<close>

theorem tee_setLevel_returns_iff:
  "(\<exists>st'. serviceSetLevel L level s st = Some st') \<longleftrightarrow>
     \<not> ((\<exists>p. s = LogServiceTee p (Some RemoteLogService)) \<and> (\<exists>q. logService st = Some (LogServiceTee q (Some RemoteLogService))))"
  using setLevel_diverges_aux [of L level s st] setLevel_returns [of s st L level] by auto

text \<open>C32. A line that the device logs at or above its threshold is echoed for ever: after any number
  of rounds between a device and a server that both tee their logs into the stream, the line is
  in the subscriber's buffer again, longer by both prefixes in each round.\<close>

theorem log_echo_endless:
  assumes "spdlog_levels lv" and "\<not> below lv l (threshold dev)"
    and "logService dev = Some (LogServiceTee p (Some GrpcLogService))" and "subscriberBuffers dev = [Some newBuffer]"
    and "logService srv = Some (LogServiceTee q (Some RemoteLogService))" and "activeStream srv = Some []"
  shows "subscriberBuffers (fst ((echoRound D S lv ^^ n) (globalLog D lv l line dev, srv))) =
    [Some \<lparr>lb_queue = [\<lparr>lm_level = l, lm_text = concat (replicate n ''[remote] [evrp-device] '') @ line\<rparr>], lb_closed = False\<rparr>]"
proof -
  have t: "trimQueue [] = []" by (rule trimQueue_short) simp
  have "echoing l line lv (globalLog D lv l line dev, srv)"
    using assms by (auto simp: echoing_def globalLog_def publishToAllSubscribers_def bufPush_def newBuffer_def t Let_def)
  from echo_forever [OF assms(1) this, of n D S] show ?thesis by (auto simp: echoing_def split: prod.splits)
qed

theorem log_echo_endless_witness:
  "subscriberBuffers (fst ((echoRound demo_log demo_log demo_levels ^^ 3)
     (globalLog demo_log demo_levels Info ''hi''
        \<lparr>logService = Some (LogServiceTee True (Some GrpcLogService)), prim = [], threshold = Info,
         subscriberBuffers = [Some newBuffer], activeStream = None\<rparr>,
      \<lparr>logService = Some (LogServiceTee True (Some RemoteLogService)), prim = [], threshold = Info,
       subscriberBuffers = [], activeStream = Some []\<rparr>))) =
   [Some \<lparr>lb_queue = [\<lparr>lm_level = Info,
      lm_text = ''[remote] [evrp-device] [remote] [evrp-device] [remote] [evrp-device] hi''\<rparr>], lb_closed = False\<rparr>]"
proof -
  have "\<not> below demo_levels Info Info" by (simp add: demo_levels_def Let_def)
  then show ?thesis
    using log_echo_endless [OF demo_levels_ok, where l = Info and n = 3 and line = "''hi''" and D = demo_log and S = demo_log
        and p = True and q = True
        and dev = "\<lparr>logService = Some (LogServiceTee True (Some GrpcLogService)), prim = [], threshold = Info,
          subscriberBuffers = [Some newBuffer], activeStream = None\<rparr>"
        and srv = "\<lparr>logService = Some (LogServiceTee True (Some RemoteLogService)), prim = [], threshold = Info,
          subscriberBuffers = [], activeStream = Some []\<rparr>"]
    by (simp add: numeral_3_eq_3)
qed

end
