(* ===== verification/DeviceProcess.thy ===== *)
theory DeviceProcess
  imports Listener PlaybackSvc DeviceSvc Logging
begin

text \<open>
  The device process as a whole: the list of interfaces (\<open>evrp/sdk/ioc.h\<close>), the construction of the objects of a
  device (\<open>Server::Server\<close> in \<open>evrp/device/impl/server/server.cpp\<close>) and of its services over one registry of
  sessions (\<open>GrpcServer::run\<close> in \<open>grpcserver.cpp\<close>), and the process that results: the calls of any
  clients to any service, the rounds of the sweeping and the watchdog thread, the end of the two kinds of stream,
  and whatever happens outside, in any order. A step is a whole handler; what happens
  while handlers overlap is the subject of \<open>Dispatch\<close>, \<open>ReplayCancel\<close>, \<open>LogStream\<close> and the progress
  stream in \<open>PlaybackSvc\<close>.
\<close>

section \<open>The list of interfaces\<close>

text \<open>The pointer types the list is used with, the objects of \<open>Server\<close> a pointer can lead to (\<open>None\<close> is the null
  pointer), and a \<open>std::any\<close> that holds a pointer of some type.\<close>

datatype pointer_type = TInputListener | TCursorPosition | TDeviceKindsProvider | TPlayback

datatype server_object = PostedInputListener | PostedCursorPosition | PostedInputDeviceKindsProvider | PostedPlayback

datatype any_pointer = AnyPointer pointer_type "server_object option"

type_synonym Ioc = "pointer_type \<rightharpoonup> any_pointer option"

definition iocEmplace :: "pointer_type \<Rightarrow> server_object option \<Rightarrow> Ioc \<Rightarrow> Ioc" where
  "iocEmplace t p byType = byType(t \<mapsto> Some (AnyPointer t p))"

definition iocGet :: "pointer_type \<Rightarrow> Ioc \<Rightarrow> server_object option" where
  "iocGet t byType =
     (case byType t of
        None \<Rightarrow> None
      | Some None \<Rightarrow> None
      | Some (Some (AnyPointer t' p)) \<Rightarrow> if t' = t then p else None)"

text \<open>What a list of interfaces promises, and what follows for a list that is filled in several steps.\<close>

locale interface_list =
  fixes empty :: 'l and emplace :: "'t \<Rightarrow> 'p option \<Rightarrow> 'l \<Rightarrow> 'l" and get :: "'t \<Rightarrow> 'l \<Rightarrow> 'p option"
  assumes get_empty: "get t empty = None"
    and get_emplace: "get t (emplace u p l) = (if t = u then p else get t l)"
begin

lemma get_filled: "distinct (map fst ps) \<Longrightarrow> get t (fold (\<lambda>(u, p). emplace u p) ps empty) = Option.bind (map_of ps t) id"
proof (induction ps rule: rev_induct)
  case (snoc q ps)
  then have "map_of ps (fst q) = None" by (simp add: map_of_eq_None_iff)
  then show ?case using snoc by (cases q) (auto simp: get_emplace map_add_def split: option.split)
qed (simp add: get_empty)

end

interpretation ioc: interface_list Map.empty iocEmplace iocGet
  by unfold_locales (simp_all add: iocEmplace_def iocGet_def)

section \<open>Construction\<close>

text \<open>The members of \<open>Server\<close> that hold state. The worker thread and its queue are those of \<open>Dispatch\<close>.\<close>

record 'w device_server =
  sv_listener :: LocalInputListener
  sv_cursor :: "'w ICursorPos option"
  sv_playback :: LocalPlayback
  sv_ioc :: Ioc

definition newDeviceServer :: "'w ICursorPos option \<Rightarrow> 'w \<Rightarrow> 'w device_server" where
  "newDeviceServer x11 w =
     \<lparr>sv_listener = listener_init, sv_cursor = createCursorPos x11 w, sv_playback = playback_init,
      sv_ioc = fold (\<lambda>(t, p). iocEmplace t p)
        [(TInputListener, Some PostedInputListener), (TCursorPosition, Some PostedCursorPosition),
         (TDeviceKindsProvider, Some PostedInputDeviceKindsProvider), (TPlayback, Some PostedPlayback)] Map.empty\<rparr>"

text \<open>The constructors of the services. \<open>registry\<close> is a reference: all services see one registry.\<close>

definition newListenService :: "'w device_server \<Rightarrow> SessionRegistry \<Rightarrow> int \<Rightarrow> listen_service" where
  "newListenService sv registry now =
     \<lparr>ls_listener = sv_listener sv, ls_configured = (iocGet TInputListener (sv_ioc sv) \<noteq> None),
      lastRecordingActivityNs = now, ls_sessions = registry\<rparr>"

definition newDeviceService ::
  "'w listen_env \<Rightarrow> (string \<Rightarrow> bool) \<Rightarrow> 'w device_server \<Rightarrow> 'w device_service" where
  "newDeviceService env is_chr sv =
     \<lparr>cursorPosition = map_option
        (\<lambda>_. \<lparr>cp_availability = (\<lambda>w. (localCursorAvailability (sv_cursor sv) w, w)),
              cp_read = (\<lambda>out w. (localReadCursor (sv_cursor sv) out w, w))\<rparr>) (iocGet TCursorPosition (sv_ioc sv)),
      deviceKindsProvider = map_option (\<lambda>_. localKinds (le_io env) (le_ioctl env) is_chr)
        (iocGet TDeviceKindsProvider (sv_ioc sv))\<rparr>"

definition newPlaybackService :: "'w device_server \<Rightarrow> SessionRegistry \<Rightarrow> play_service" where
  "newPlaybackService sv registry =
     \<lparr>ps_configured = (iocGet TPlayback (sv_ioc sv) \<noteq> None), ps_playback = sv_playback sv, ps_sessions = registry,
      playbackProgressSem = 0, subscriberActive = False, playbackProgressFinished = False\<rparr>"

text \<open>The process: the services, the state of the log and of the random engine of the registry.\<close>

record ('w, 'g, 'p) device_process =
  dp_listen :: listen_service
  dp_device :: "'w device_service"
  dp_play :: play_service
  dp_log :: "'p log_proc"
  dp_rng :: 'g

record ('w, 'g) device_env =
  de_listen :: "'w listen_env"
  de_play :: "'w play_env"
  de_is_chr :: "string \<Rightarrow> bool"
  de_draw :: "'g \<Rightarrow> (u64 \<times> u64) \<times> 'g"

definition startServices ::
  "('w, 'g) device_env \<Rightarrow> 'p ILogService \<Rightarrow> int \<Rightarrow> 'w device_server \<Rightarrow> 'p log_proc \<Rightarrow> 'g \<Rightarrow> 'w \<Rightarrow> ('w, 'g, 'p) device_process" where
  "startServices env L session_lease_ms sv log g w =
     (let sessionRegistry = newRegistry session_lease_ms session_lease_ms in
      \<lparr>dp_listen = newListenService sv sessionRegistry (le_now (de_listen env) w),
       dp_device = newDeviceService (de_listen env) (de_is_chr env) sv,
       dp_play = newPlaybackService sv sessionRegistry,
       dp_log = installDeviceTee L log, dp_rng = g\<rparr>)"

section \<open>The running process\<close>

text \<open>The one registry, seen through each service.\<close>

abbreviation registryOf :: "('w, 'g, 'p) device_process \<Rightarrow> SessionRegistry" where
  "registryOf dp \<equiv> ls_sessions (dp_listen dp)"

definition setRegistry :: "SessionRegistry \<Rightarrow> ('w, 'g, 'p) device_process \<Rightarrow> ('w, 'g, 'p) device_process" where
  "setRegistry reg dp =
     dp\<lparr>dp_listen := (dp_listen dp)\<lparr>ls_sessions := reg\<rparr>, dp_play := (dp_play dp)\<lparr>ps_sessions := reg\<rparr>\<rparr>"

text \<open>The calls of the registered services, in the order of their registration.\<close>

datatype device_call =
    RpcConnect | RpcHeartbeat | RpcDisconnect
  | RpcStartRecording "int list" | RpcWaitForInputEvent int | RpcReadInputEvents | RpcStopRecording
  | RpcGetCapabilities | RpcGetCursorPositionAvailability | RpcReadCursorPosition
  | RpcUpload "proto_InputEvent list" | RpcPlayback | RpcSubscribePlayback | RpcStop
  | RpcStreamLogs

type_synonym ('w, 'g, 'p) handled = "(play_fault + grpc_status \<times> ('w, 'g, 'p) device_process \<times> 'w) option"

text \<open>What a handler of each service leaves behind.\<close>

definition listenDone :: "('w, 'g, 'p) device_process \<Rightarrow> grpc_status \<times> listen_service \<times> 'w \<Rightarrow> ('w, 'g, 'p) handled" where
  "listenDone dp = (\<lambda>(st, s, w). Some (Inr (st, setRegistry (ls_sessions s) (dp\<lparr>dp_listen := s\<rparr>), w)))"

definition playDone :: "('w, 'g, 'p) device_process \<Rightarrow> 'w \<Rightarrow> grpc_status \<times> play_service \<Rightarrow> ('w, 'g, 'p) handled" where
  "playDone dp w = (\<lambda>(st, s). Some (Inr (st, setRegistry (ps_sessions s) (dp\<lparr>dp_play := s\<rparr>), w)))"

definition registryDone :: "('w, 'g, 'p) device_process \<Rightarrow> grpc_status \<times> SessionRegistry \<times> 'w \<Rightarrow> ('w, 'g, 'p) handled" where
  "registryDone dp = (\<lambda>(st, reg, w). Some (Inr (st, setRegistry reg dp, w)))"

fun deviceHandle ::
  "('w, 'g) device_env \<Rightarrow> server_context \<Rightarrow> device_call \<Rightarrow> ('w, 'g, 'p) device_process \<times> 'w \<Rightarrow> ('w, 'g, 'p) handled" where
  "deviceHandle env ctx RpcConnect (dp, w) =
     (case svcConnect (de_draw env) ctx (le_now (de_listen env) w) (registryOf dp) (dp_rng dp) of
        None \<Rightarrow> None
      | Some (st, response, reg, g) \<Rightarrow> Some (Inr (st, setRegistry reg (dp\<lparr>dp_rng := g\<rparr>), w)))"
| "deviceHandle env ctx RpcHeartbeat (dp, w) =
     (let (st, reg) = svcHeartbeat ctx (le_now (de_listen env) w) (registryOf dp) in registryDone dp (st, reg, w))"
| "deviceHandle env ctx RpcDisconnect (dp, w) =
     (let (st, reg) = svcDisconnect ctx (registryOf dp) in registryDone dp (st, reg, w))"
| "deviceHandle env ctx (RpcStartRecording ks) (dp, w) =
     listenDone dp (svcStartRecording (de_listen env) ctx ks (dp_listen dp, w))"
| "deviceHandle env ctx (RpcWaitForInputEvent timeout_ms) (dp, w) =
     Option.bind (svcWaitForInputEvent (de_listen env) ctx timeout_ms (dp_listen dp, w))
       (\<lambda>((st, ready), r). listenDone dp (st, r))"
| "deviceHandle env ctx RpcReadInputEvents (dp, w) =
     (let ((st, events), r) = svcReadInputEvents (de_listen env) ctx (dp_listen dp, w) in listenDone dp (st, r))"
| "deviceHandle env ctx RpcStopRecording (dp, w) =
     listenDone dp (svcStopRecording (de_listen env) ctx (dp_listen dp, w))"
| "deviceHandle env ctx RpcGetCapabilities (dp, w) =
     (let ((st, kinds), r) = svcGetCapabilities (dp_device dp) ctx (le_now (de_listen env) w) (registryOf dp, w)
      in registryDone dp (st, r))"
| "deviceHandle env ctx RpcGetCursorPositionAvailability (dp, w) =
     (let ((st, available), r) =
        svcGetCursorPositionAvailability (dp_device dp) ctx (le_now (de_listen env) w) (registryOf dp, w)
      in registryDone dp (st, r))"
| "deviceHandle env ctx RpcReadCursorPosition (dp, w) =
     (let ((st, xy), r) = svcReadCursorPosition (dp_device dp) ctx (le_now (de_listen env) w) (registryOf dp, w)
      in registryDone dp (st, r))"
| "deviceHandle env ctx (RpcUpload events) (dp, w) =
     (let ((st, result), s) = svcUpload (le_now (de_listen env) w) ctx events (dp_play dp) in playDone dp w (st, s))"
| "deviceHandle env ctx RpcPlayback (dp, w) =
     (case svcPlayback (de_play env) (le_now (de_listen env) w) ctx (dp_play dp, w) of
        Inl fault \<Rightarrow> Some (Inl fault)
      | Inr ((st, result), s, w') \<Rightarrow> playDone dp w' (st, s))"
| "deviceHandle env ctx RpcSubscribePlayback (dp, w) =
     playDone dp w (svcSubscribeEnter (le_now (de_listen env) w) ctx (dp_play dp))"
| "deviceHandle env ctx RpcStop (dp, w) = playDone dp w (svcStop (le_now (de_listen env) w) ctx (dp_play dp))"
| "deviceHandle env ctx RpcStreamLogs (dp, w) =
     (let (st, reg, log) = streamEnter ctx (le_now (de_listen env) w) (registryOf dp, dp_log dp)
      in registryDone (dp\<lparr>dp_log := log\<rparr>) (st, reg, w))"

text \<open>The events of the process: a call, a round of the thread that sweeps the registry, a round of the
  watchdog, the return of \<open>SubscribePlayback\<close> and of the \<open>StreamLogs\<close> with the \<open>i\<close>-th buffer, and whatever happens outside.\<close>

datatype 'w device_event =
    Rpc server_context device_call | SweepRound | WatchdogRound int | SubscriberLeaves | LogStreamLeaves nat
  | Outside "'w \<Rightarrow> 'w"

type_synonym ('w, 'g, 'p) stepped =
  "(play_fault + (string \<times> grpc_status) list \<times> ('w, 'g, 'p) device_process \<times> 'w) option"

fun deviceStep ::
  "('w, 'g) device_env \<Rightarrow> 'w device_event \<Rightarrow> ('w, 'g, 'p) device_process \<times> 'w \<Rightarrow> ('w, 'g, 'p) stepped" where
  "deviceStep env (Rpc ctx call) st =
     map_option (map_sum id (\<lambda>(s, st'). ([(ctx_peer ctx, s)], st'))) (deviceHandle env ctx call st)"
| "deviceStep env SweepRound (dp, w) =
     Some (Inr ([], setRegistry (sweepExpiredForLogging (le_now (de_listen env) w) (registryOf dp)) dp, w))"
| "deviceStep env (WatchdogRound recording_idle_timeout_ms) (dp, w) =
     (let (s, w') = watchdogTick (de_listen env) recording_idle_timeout_ms (dp_listen dp, w)
      in Some (Inr ([], dp\<lparr>dp_listen := s\<rparr>, w')))"
| "deviceStep env SubscriberLeaves (dp, w) =
     Some (Inr ([], dp\<lparr>dp_play := (dp_play dp)\<lparr>subscriberActive := False\<rparr>\<rparr>, w))"
| "deviceStep env (LogStreamLeaves i) (dp, w) = Some (Inr ([], dp\<lparr>dp_log := streamExit i (dp_log dp)\<rparr>, w))"
| "deviceStep env (Outside f) (dp, w) = Some (Inr ([], dp, f w))"

text \<open>A run, with the status of every call.\<close>

fun deviceRun ::
  "('w, 'g) device_env \<Rightarrow> 'w device_event list \<Rightarrow> ('w, 'g, 'p) device_process \<times> 'w \<Rightarrow> ('w, 'g, 'p) stepped" where
  "deviceRun env [] st = Some (Inr ([], st))"
| "deviceRun env (e # es) st =
     (case deviceStep env e st of
        None \<Rightarrow> None
      | Some (Inl fault) \<Rightarrow> Some (Inl fault)
      | Some (Inr (replies, st')) \<Rightarrow> map_option (map_sum id (apfst ((@) replies))) (deviceRun env es st'))"

section \<open>Invariant\<close>

definition configured :: "('w, 'g, 'p) device_process \<Rightarrow> bool" where
  "configured dp \<longleftrightarrow> ls_configured (dp_listen dp) \<and> ps_configured (dp_play dp)
     \<and> cursorPosition (dp_device dp) \<noteq> None \<and> deviceKindsProvider (dp_device dp) \<noteq> None"

definition process_ok :: "('w, 'g, 'p) device_process \<Rightarrow> bool" where
  "process_ok dp \<longleftrightarrow> configured dp \<and> ps_sessions (dp_play dp) = registryOf dp"

text \<open>No peer of \<open>I\<close> has a session; a change that adds entries of one peer only.\<close>

definition sessionless :: "string set \<Rightarrow> SessionRegistry \<Rightarrow> bool" where
  "sessionless I reg \<longleftrightarrow> (\<forall>sid r. sessions reg sid = Some r \<longrightarrow> sr_peer r \<notin> I)"

definition grows :: "string \<Rightarrow> SessionRegistry \<Rightarrow> SessionRegistry \<Rightarrow> bool" where
  "grows p reg reg' \<longleftrightarrow> (\<forall>sid r. sessions reg' sid = Some r \<longrightarrow> sr_peer r = p
     \<or> (\<exists>r0. sessions reg sid = Some r0 \<and> sr_peer r0 = sr_peer r))"

lemma grows_sessionless: "grows p reg reg' \<Longrightarrow> p \<notin> I \<Longrightarrow> sessionless I reg \<Longrightarrow> sessionless I reg'"
  by (fastforce simp: grows_def sessionless_def)

lemma grows_refl [simp]: "grows p reg reg"
  by (simp add: grows_def)

lemma grows_ops:
  "grows p reg (snd (requireActiveBusinessCall sid p now reg))"
  "grows p reg (snd (heartbeat sid p now reg))"
  "grows p reg (snd (disconnect sid p reg))"
  by (auto simp: grows_def sess_ops split: option.split if_split_asm option.split_asm)

lemma grows_business [simp]: "grows (ctx_peer ctx) reg (snd (requireBusinessSession ctx now reg))"
  by (simp add: requireBusinessSession_def grows_ops)

lemma grows_connect: "connect rng p now reg g = Some (sid, reg', g') \<Longrightarrow> grows p reg reg'"
  by (auto simp: grows_def connect_def split: option.split_asm if_split_asm)

text \<open>A peer without a session is refused, and the registry is left alone.\<close>

lemma sessionless_ops:
  assumes "sessionless I reg" and "p \<in> I"
  shows "\<not> is_ok (fst (requireActiveBusinessCall sid p now reg))" "snd (requireActiveBusinessCall sid p now reg) = reg"
    "snd (heartbeat sid p now reg) = reg" "snd (disconnect sid p reg) = reg"
  using assms by (auto simp: sessionless_def sess_ops is_ok_def grpc_ok_def split: option.split)

lemma sessionless_business:
  assumes "sessionless I reg" and "ctx_peer ctx \<in> I"
  shows "\<not> is_ok (fst (requireBusinessSession ctx now reg))" "snd (requireBusinessSession ctx now reg) = reg"
  using sessionless_ops [OF assms] by (simp_all add: requireBusinessSession_def)

section \<open>What the handlers of the listener keep\<close>

definition listen_frame :: "listen_service \<Rightarrow> listen_service \<Rightarrow> bool" where
  "listen_frame s s' \<longleftrightarrow> ls_configured s' = ls_configured s \<and> ls_sessions s' = ls_sessions s"

lemma listen_frame_simps [simp]:
  "listen_frame s s" "listen_frame s (s'\<lparr>ls_listener := l\<rparr>) = listen_frame s s'"
  "listen_frame s (s'\<lparr>lastRecordingActivityNs := t\<rparr>) = listen_frame s s'"
  "listen_frame (s\<lparr>lastRecordingActivityNs := t\<rparr>) s' = listen_frame s s'"
  "listen_frame (s\<lparr>ls_listener := l\<rparr>) s' = listen_frame s s'"
  by (simp_all add: listen_frame_def)

lemma cancelOn_frame [simp]: "listen_frame s (fst (cancelOn env (s', w))) = listen_frame s s'"
  by (simp add: cancelOn_def split_beta)

lemma cancelOn_frameD: "cancelOn env (s, w) = (s', w') \<Longrightarrow> listen_frame s s'"
  using cancelOn_frame [of s env s w] by simp

lemma watchdog_frame: "listen_frame s (fst (watchdogTick env t (s, w)))"
  by (simp add: watchdogTick_def)

lemma waitLoop_frame:
  assumes "waitLoop env d s w = Some r"
  shows "listen_frame s (fst (snd r))"
proof (rule waitLoop.raw_induct [where P = "\<lambda>env d s w r. listen_frame s (fst (snd r))", OF _ assms], goal_cases)
  case (1 loop env d s w r)
  let ?r = "waitForInputEvent (le_io env) (min 150 (max 1 ((d - le_now env w) sdiv 1000000)))
    (ls_listener (recordingActivityBump env s w), w)"
  have ih: "loop env d ((recordingActivityBump env s w)\<lparr>ls_listener := fst (snd ?r)\<rparr>) (snd (snd ?r)) = Some r
      \<Longrightarrow> listen_frame s (fst (snd r))" by (drule 1(1)) simp
  from 1(2) ih show ?case by (simp add: Let_def split_beta split: if_splits) auto
qed

text \<open>Every handler of the listener leaves the registry as the check of its session did.\<close>

definition listen_served :: "'w listen_env \<Rightarrow> server_context \<Rightarrow> 'w \<Rightarrow> listen_service \<Rightarrow> listen_service \<Rightarrow> bool" where
  "listen_served env ctx w s s' \<longleftrightarrow> listen_frame (snd (guardListen env ctx s w)) s'"

lemma listen_servedD:
  assumes "listen_served env ctx w s s'"
  shows "ls_configured s' = ls_configured s" "ls_sessions s' = snd (requireBusinessSession ctx (le_now env w) (ls_sessions s))"
  using assms by (auto simp: listen_served_def listen_frame_def guardListen_def split_beta Let_def)

lemma listen_handlers_served:
  "listen_served env ctx w s (fst (snd (svcStartRecording env ctx ks (s, w))))"
  "listen_served env ctx w s (fst (snd (svcReadInputEvents env ctx (s, w))))"
  "listen_served env ctx w s (fst (snd (svcStopRecording env ctx (s, w))))"
  by (simp_all add: listen_served_def svcStartRecording_def svcReadInputEvents_def svcStopRecording_def split_beta Let_def)

lemma wait_served:
  assumes "svcWaitForInputEvent env ctx t (s, w) = Some (r, s', w')"
  shows "listen_served env ctx w s s'"
  using assms
  by (auto simp: listen_served_def svcWaitForInputEvent_def split_beta Let_def prod_eq_iff split: if_splits dest!: waitLoop_frame cancelOn_frameD)

section \<open>What the other handlers keep\<close>

lemma play_handlers_served:
  "ps_configured (snd (svcUpload now ctx es s)) = ps_configured s"
  "ps_sessions (snd (svcUpload now ctx es s)) = snd (requireBusinessSession ctx now (ps_sessions s))"
  "ps_configured (snd (svcSubscribeEnter now ctx s)) = ps_configured s"
  "ps_sessions (snd (svcSubscribeEnter now ctx s)) = snd (requireBusinessSession ctx now (ps_sessions s))"
  "ps_configured (snd (svcStop now ctx s)) = ps_configured s"
  "ps_sessions (snd (svcStop now ctx s)) = snd (requireBusinessSession ctx now (ps_sessions s))"
  by (simp_all add: svcUpload_def svcSubscribeEnter_def svcStop_def split_beta Let_def)

lemma playback_handler_served:
  assumes "ps_configured s"
  shows "\<exists>st r s' w'. svcPlayback env now ctx (s, w) = Inr ((st, r), s', w') \<and> ps_configured s'
    \<and> ps_sessions s' = snd (requireBusinessSession ctx now (ps_sessions s))"
  using assms by (simp add: svcPlayback_def split_beta Let_def)

lemma device_handlers_served:
  "fst (snd (svcGetCapabilities sv ctx now (reg, w))) = snd (requireBusinessSession ctx now reg)"
  "fst (snd (svcGetCursorPositionAvailability sv ctx now (reg, w))) = snd (requireBusinessSession ctx now reg)"
  "fst (snd (svcReadCursorPosition sv ctx now (reg, w))) = snd (requireBusinessSession ctx now reg)"
  by (simp_all add: svcGetCapabilities_def svcGetCursorPositionAvailability_def svcReadCursorPosition_def
      split_beta Let_def split: option.split)

lemma stream_served: "fst (snd (streamEnter ctx now (reg, log))) = snd (requireBusinessSession ctx now reg)"
  by (simp add: streamEnter_def split_beta Let_def)

lemma setRegistry_ok:
  "registryOf (setRegistry reg dp) = reg" "process_ok (setRegistry reg dp) \<longleftrightarrow> configured dp"
  by (simp_all add: setRegistry_def process_ok_def configured_def)

text \<open>A handler ends with a status, in a process that is still in order, and adds sessions of its caller only.\<close>

definition handled_ok :: "string \<Rightarrow> ('w, 'g, 'p) device_process \<Rightarrow> ('w, 'g, 'p) handled \<Rightarrow> bool" where
  "handled_ok p dp h \<longleftrightarrow> (case h of None \<Rightarrow> True | Some (Inl fault) \<Rightarrow> False
     | Some (Inr (st, dp', w')) \<Rightarrow> process_ok dp' \<and> grows p (registryOf dp) (registryOf dp'))"

lemma listenDone_ok:
  assumes "process_ok dp" and "listen_served env ctx w (dp_listen dp) (fst (snd r))"
  shows "handled_ok (ctx_peer ctx) dp (listenDone dp r)"
  using assms listen_servedD [OF assms(2)]
  by (simp add: handled_ok_def listenDone_def split_beta setRegistry_ok process_ok_def configured_def setRegistry_def)

lemma playDone_ok:
  assumes "process_ok dp" and "ps_configured (snd r)"
    and "ps_sessions (snd r) = snd (requireBusinessSession ctx now (ps_sessions (dp_play dp)))"
  shows "handled_ok (ctx_peer ctx) dp (playDone dp w r)"
  using assms by (simp add: handled_ok_def playDone_def split_beta process_ok_def configured_def setRegistry_def)

lemma registryDone_ok:
  assumes "process_ok dp" and "grows p (registryOf dp) (fst (snd r))"
  shows "handled_ok p dp (registryDone dp r)"
  using assms by (simp add: handled_ok_def registryDone_def split_beta process_ok_def configured_def setRegistry_def)

lemma deviceHandle_ok:
  assumes ok: "process_ok dp"
  shows "handled_ok (ctx_peer ctx) dp (deviceHandle env ctx call (dp, w))"
proof -
  have conf: "ps_configured (dp_play dp)" using ok by (simp add: process_ok_def configured_def)
  show ?thesis
  proof (cases call)
    case RpcConnect
    then show ?thesis using ok
      by (auto simp: handled_ok_def svcConnect_def setRegistry_def process_ok_def configured_def split: option.split
          intro: grows_connect)
  next
    case (RpcWaitForInputEvent t)
    show ?thesis
    proof (cases "svcWaitForInputEvent (de_listen env) ctx t (dp_listen dp, w)")
      case None
      then show ?thesis using RpcWaitForInputEvent by (simp add: handled_ok_def)
    next
      case (Some r)
      then have "listen_served (de_listen env) ctx w (dp_listen dp) (fst (snd r))" by (cases r) (auto dest: wait_served)
      then show ?thesis using RpcWaitForInputEvent Some listenDone_ok [OF ok, of _ ctx w "(fst (fst r), snd r)"] by (simp add: split_beta)
    qed
  next
    case RpcPlayback
    then show ?thesis using ok playback_handler_served [of "dp_play dp" "de_play env" "le_now (de_listen env) w" ctx w]
      by (auto simp: process_ok_def configured_def intro!: playDone_ok)
  next
    case RpcStreamLogs
    then show ?thesis using ok
      by (simp add: handled_ok_def registryDone_def split_beta Let_def stream_served process_ok_def configured_def setRegistry_def)
  qed (use ok conf in \<open>auto simp: Let_def split_beta play_handlers_served device_handlers_served
         grows_ops svcHeartbeat_def svcDisconnect_def
       intro!: listenDone_ok playDone_ok registryDone_ok listen_handlers_served\<close>)
qed

section \<open>Callers without a session\<close>

lemma done_same:
  assumes "process_ok dp"
  shows "snd r = (dp_listen dp, w) \<Longrightarrow> listenDone dp r = Some (Inr (fst r, dp, w))"
    "snd q = dp_play dp \<Longrightarrow> playDone dp w q = Some (Inr (fst q, dp, w))"
    "snd v = (registryOf dp, w) \<Longrightarrow> registryDone dp v = Some (Inr (fst v, dp, w))"
  using assms by (simp_all add: listenDone_def playDone_def registryDone_def split_beta setRegistry_def process_ok_def)

text \<open>Each handler, refused by the check of the session.\<close>

lemma refused_listen:
  assumes "\<not> is_ok (fst (requireBusinessSession ctx (le_now env w) (ls_sessions s)))"
    and "snd (requireBusinessSession ctx (le_now env w) (ls_sessions s)) = ls_sessions s"
  shows "snd (svcStartRecording env ctx ks (s, w)) = (s, w)"
    "\<exists>st. svcWaitForInputEvent env ctx t (s, w) = Some ((st, False), s, w)"
    "snd (svcReadInputEvents env ctx (s, w)) = (s, w)"
    "snd (svcStopRecording env ctx (s, w)) = (s, w)"
proof -
  have "snd (guardListen env ctx s w) = s" "\<not> is_ok (fst (guardListen env ctx s w))"
    using assms by (simp_all add: guardListen_def split_beta Let_def)
  then show "snd (svcStartRecording env ctx ks (s, w)) = (s, w)"
    "\<exists>st. svcWaitForInputEvent env ctx t (s, w) = Some ((st, False), s, w)"
    "snd (svcReadInputEvents env ctx (s, w)) = (s, w)"
    "snd (svcStopRecording env ctx (s, w)) = (s, w)"
    by (simp_all add: svcStartRecording_def svcWaitForInputEvent_def svcReadInputEvents_def svcStopRecording_def split_beta Let_def)
qed

lemma refused_play:
  assumes "\<not> is_ok (fst (requireBusinessSession ctx now (ps_sessions s)))"
    and "snd (requireBusinessSession ctx now (ps_sessions s)) = ps_sessions s"
  shows "snd (svcUpload now ctx es s) = s" "\<exists>st. svcPlayback env now ctx (s, w) = Inr ((st, None), s, w)"
    "snd (svcSubscribeEnter now ctx s) = s" "snd (svcStop now ctx s) = s"
  using assms by (simp_all add: svcUpload_def svcPlayback_def svcSubscribeEnter_def svcStop_def split_beta Let_def)

lemma refused_device:
  assumes "\<not> is_ok (fst (requireBusinessSession ctx now reg))" and "snd (requireBusinessSession ctx now reg) = reg"
  shows "snd (svcGetCapabilities sv ctx now (reg, w)) = (reg, w)"
    "snd (svcGetCursorPositionAvailability sv ctx now (reg, w)) = (reg, w)"
    "snd (svcReadCursorPosition sv ctx now (reg, w)) = (reg, w)"
    "snd (streamEnter ctx now (reg, log)) = (reg, log)"
  using assms by (simp_all add: svcGetCapabilities_def svcGetCursorPositionAvailability_def svcReadCursorPosition_def
      streamEnter_def split_beta Let_def)

lemma deviceHandle_intruder:
  assumes ok: "process_ok dp" and I: "sessionless I (registryOf dp)" "ctx_peer ctx \<in> I" and call: "call \<noteq> RpcConnect"
  shows "\<exists>st. deviceHandle env ctx call (dp, w) = Some (Inr (st, dp, w))"
proof -
  note b = sessionless_business [OF I, of "le_now (de_listen env) w"]
  note p = b [folded ok [unfolded process_ok_def, THEN conjunct2]]
  note same = done_same [OF ok] refused_listen(1,3,4) [OF b] refused_play(1,3,4) [OF p] refused_device [OF b] sessionless_ops [OF I]
  show ?thesis
  proof (cases call)
    case (RpcWaitForInputEvent t)
    then show ?thesis using refused_listen(2) [OF b, of t] by (auto simp: same)
  next
    case RpcPlayback
    then show ?thesis using refused_play(2) [OF p, of "de_play env" w] by (auto simp: same)
  qed (use call in \<open>simp_all add: same svcHeartbeat_def svcDisconnect_def split_beta Let_def\<close>)
qed

section \<open>Runs\<close>

text \<open>An event that is not the work of a peer of \<open>I\<close>.\<close>

fun honest :: "string set \<Rightarrow> 'w device_event \<Rightarrow> bool" where
  "honest I (Rpc ctx call) \<longleftrightarrow> ctx_peer ctx \<notin> I"
| "honest I _ \<longleftrightarrow> True"

definition stepped_ok :: "string set \<Rightarrow> bool \<Rightarrow> ('w, 'g, 'p) device_process \<Rightarrow> ('w, 'g, 'p) stepped \<Rightarrow> bool" where
  "stepped_ok I h dp r \<longleftrightarrow> (case r of None \<Rightarrow> True | Some (Inl fault) \<Rightarrow> False
     | Some (Inr (replies, dp', w')) \<Rightarrow> process_ok dp' \<and> (h \<longrightarrow> sessionless I (registryOf dp) \<longrightarrow> sessionless I (registryOf dp')))"

lemma deviceStep_ok:
  assumes ok: "process_ok dp"
  shows "stepped_ok I (honest I e) dp (deviceStep env e (dp, w))"
proof (cases e)
  case (Rpc ctx call)
  show ?thesis
  proof (cases "deviceHandle env ctx call (dp, w)")
    case (Some r)
    with deviceHandle_ok [OF ok, of ctx env call w] obtain st dp1 w1 where
      r: "r = Inr (st, dp1, w1)" "process_ok dp1" "grows (ctx_peer ctx) (registryOf dp) (registryOf dp1)"
      by (auto simp: handled_ok_def split: sum.splits)
    show ?thesis using Some r(1,2) grows_sessionless [OF r(3)] by (simp add: stepped_ok_def Rpc)
  qed (simp add: stepped_ok_def Rpc)
next
  case SweepRound
  have "sessionless I reg \<Longrightarrow> sessionless I (sweepExpiredForLogging now reg)" for reg now
    by (auto simp: sessionless_def sweepExpiredForLogging_def split: option.split_asm if_split_asm)
  then show ?thesis using SweepRound ok by (simp add: stepped_ok_def setRegistry_ok) (simp add: process_ok_def)
next
  case (WatchdogRound t)
  then show ?thesis using ok watchdog_frame [of "dp_listen dp" "de_listen env" t w]
    by (simp add: stepped_ok_def listen_frame_def process_ok_def configured_def split_beta Let_def)
qed (use ok in \<open>simp_all add: stepped_ok_def process_ok_def configured_def\<close>)

text \<open>A started device: the list leads every service to its object.\<close>

lemma newDeviceServer_interfaces:
  "iocGet TInputListener (sv_ioc (newDeviceServer x11 w)) = Some PostedInputListener"
  "iocGet TCursorPosition (sv_ioc (newDeviceServer x11 w)) = Some PostedCursorPosition"
  "iocGet TDeviceKindsProvider (sv_ioc (newDeviceServer x11 w)) = Some PostedInputDeviceKindsProvider"
  "iocGet TPlayback (sv_ioc (newDeviceServer x11 w)) = Some PostedPlayback"
  unfolding newDeviceServer_def device_server.simps by (subst ioc.get_filled, simp, simp)+

lemma startServices_ok: "process_ok (startServices env L lease (newDeviceServer x11 w0) log g w)"
  by (simp add: process_ok_def configured_def startServices_def newListenService_def newDeviceService_def
      newPlaybackService_def newDeviceServer_interfaces Let_def)

lemma startServices_empty: "sessionless I (registryOf (startServices env L lease sv log g w))"
  by (simp add: sessionless_def startServices_def newListenService_def newRegistry_def Let_def)

lemma deviceRun_ok: "process_ok dp \<Longrightarrow> stepped_ok I (list_all (honest I) es) dp (deviceRun env es (dp, w))"
proof (induction es arbitrary: dp w)
  case (Cons e es)
  show ?case
  proof (cases "deviceStep env e (dp, w)")
    case (Some r)
    with deviceStep_ok [OF Cons.prems, of I e env w] obtain rs dp1 w1 where
      r: "r = Inr (rs, dp1, w1)" "process_ok dp1"
      "honest I e \<longrightarrow> sessionless I (registryOf dp) \<longrightarrow> sessionless I (registryOf dp1)"
      by (auto simp: stepped_ok_def split: sum.splits)
    show ?thesis using Cons.IH [OF r(2), of w1] r(1,3) Some
      by (auto simp: stepped_ok_def split: option.splits sum.splits)
  qed (simp add: stepped_ok_def)
qed (simp add: stepped_ok_def)

text \<open>The answers to peers outside \<open>I\<close>.\<close>

definition answersOutside :: "string set \<Rightarrow> ('w, 'g, 'p) stepped \<Rightarrow> ('w, 'g, 'p) stepped" where
  "answersOutside I = map_option (map_sum id (apfst (filter (\<lambda>(peer, st). peer \<notin> I))))"

lemma answersOutside_prepend:
  "answersOutside I (map_option (map_sum id (apfst ((@) rs))) r)
   = map_option (map_sum id (apfst ((@) (filter (\<lambda>(peer, st). peer \<notin> I) rs)))) (answersOutside I r)"
  by (cases r; cases "the r") (auto simp: answersOutside_def)

lemma prepend_nothing: "map_option (map_sum id (apfst ((@) []))) r = (r :: ('w, 'g, 'p) stepped)"
  by (cases r; cases "the r") auto

lemma deviceStep_replies:
  assumes "deviceStep env e st = Some (Inr (rs, st'))" and "honest I e"
  shows "filter (\<lambda>(peer, st). peer \<notin> I) rs = rs"
proof (cases e)
  case (Rpc ctx call)
  with assms obtain s st1 where "rs = [(ctx_peer ctx, s)]"
    by (cases "the (deviceHandle env ctx call st)") (auto split: sum.splits)
  then show ?thesis using assms(2) Rpc by simp
qed (use assms in \<open>cases st; auto split: prod.splits\<close>)+

lemma deviceRun_outside:
  assumes "process_ok dp" and "sessionless I (registryOf dp)"
    and "\<And>ctx. Rpc ctx RpcConnect \<in> set es \<Longrightarrow> ctx_peer ctx \<notin> I"
  shows "answersOutside I (deviceRun env es (dp, w)) = deviceRun env (filter (honest I) es) (dp, w)"
  using assms
proof (induction es arbitrary: dp w)
  case (Cons e es)
  note IH = Cons.IH [OF _ _ Cons.prems(3)]
  show ?case
  proof (cases "honest I e")
    case False
    then obtain ctx call where e: "e = Rpc ctx call" "ctx_peer ctx \<in> I" by (cases e) auto
    have "call \<noteq> RpcConnect" using Cons.prems(3) e by auto
    then obtain st where "deviceHandle env ctx call (dp, w) = Some (Inr (st, dp, w))"
      using deviceHandle_intruder [OF Cons.prems(1,2) e(2)] by blast
    then show ?thesis using IH [OF Cons.prems(1,2)] e by (simp add: answersOutside_prepend prepend_nothing)
  next
    case True
    show ?thesis
    proof (cases "deviceStep env e (dp, w)")
      case (Some r)
      with deviceStep_ok [OF Cons.prems(1), of I e env w] True Cons.prems(2) obtain rs dp1 w1 where
        r: "r = Inr (rs, dp1, w1)" "process_ok dp1" "sessionless I (registryOf dp1)"
        by (auto simp: stepped_ok_def split: sum.splits)
      have "filter (\<lambda>(peer, st). peer \<notin> I) rs = rs" using deviceStep_replies Some r(1) True by simp
      then show ?thesis using IH [OF r(2,3)] r(1) Some True by (simp add: answersOutside_prepend)
    qed (use True in \<open>simp add: answersOutside_def\<close>)
  qed
qed (simp add: answersOutside_def)

section \<open>Properties\<close>

text \<open>C15. Peers without a session have no influence. Let the peers of \<open>I\<close> never call \<open>Connect\<close>, and otherwise
  call every service of a started device as they like, with whatever session identifiers, in
  between the calls of other clients, the rounds of the threads and the changes outside. Then the run is the
  same as the one without their calls: the same state of the process and of the world at the
  end, and the same status for every call of the others.\<close>

theorem strangers_have_no_influence:
  assumes "\<And>ctx. Rpc ctx RpcConnect \<in> set es \<Longrightarrow> ctx_peer ctx \<notin> I"
  shows "answersOutside I (deviceRun env es (startServices env L lease (newDeviceServer x11 w0) log g w, w))
    = deviceRun env (filter (honest I) es) (startServices env L lease (newDeviceServer x11 w0) log g w, w)"
  using startServices_ok startServices_empty assms by (rule deviceRun_outside)

text \<open>A device on which \<open>''a''\<close> connects and is served with the session it gets, and \<open>''b''\<close> tries to use that session.\<close>

definition demo_device :: "(int list, nat) device_env" where
  "demo_device =
     \<lparr>de_listen = \<lparr>le_io = desc_io, le_ioctl = (\<lambda>w fd. undefined), le_now = (\<lambda>w. 7), le_cancelled = (\<lambda>w. False)\<rparr>,
      de_play = \<lparr>pe_write = (\<lambda>d t c v st. (True, st)), pe_sleep = (\<lambda>us w. w), pe_stop = (\<lambda>w. False), pe_destroy = snd\<rparr>,
      de_is_chr = (\<lambda>path. False), de_draw = (\<lambda>n. ((1, 2), Suc n))\<rparr>"

definition demo_call :: "string \<Rightarrow> device_call \<Rightarrow> int list device_event" where
  "demo_call peer c = Rpc \<lparr>ctx_metadata = [(kSessionMetadataKey, randomSessionId (1, 2))], ctx_peer = peer\<rparr> c"

theorem strangers_have_no_influence_witness:
  "let es = [demo_call ''a'' RpcConnect, demo_call ''b'' RpcStop, demo_call ''a'' (RpcUpload []), demo_call ''b'' RpcDisconnect,
         demo_call ''a'' RpcStopRecording];
       dp = startServices demo_device demo_log 0 (newDeviceServer None [])
         \<lparr>logService = None, prim = [], threshold = Info, subscriberBuffers = [], activeStream = None\<rparr> 0 [] in
   answersOutside {''b''} (deviceRun demo_device es (dp, [])) = deviceRun demo_device (filter (honest {''b''}) es) (dp, [])
   \<and> map_option (map_sum id fst) (deviceRun demo_device (filter (honest {''b''}) es) (dp, []))
     = Some (Inr [(''a'', grpc_ok), (''a'', grpc_ok), (''a'', grpc_ok)])"
proof -
  let ?es = "[demo_call ''a'' RpcConnect, demo_call ''b'' RpcStop, demo_call ''a'' (RpcUpload []), demo_call ''b'' RpcDisconnect,
         demo_call ''a'' RpcStopRecording]"
  let ?log = "\<lparr>logService = None, prim = [], threshold = Info, subscriberBuffers = [], activeStream = None\<rparr> :: string list log_proc"
  let ?dp = "startServices demo_device demo_log 0 (newDeviceServer None []) ?log 0 []"
  have "answersOutside {''b''} (deviceRun demo_device ?es (?dp, [])) = deviceRun demo_device (filter (honest {''b''}) ?es) (?dp, [])"
    by (rule strangers_have_no_influence) (auto simp: demo_call_def)
  moreover have "map_option (map_sum id fst) (deviceRun demo_device (filter (honest {''b''}) ?es) (?dp, []))
      = Some (Inr [(''a'', grpc_ok), (''a'', grpc_ok), (''a'', grpc_ok)])"
    by (simp add: demo_call_def demo_device_def startServices_def newDeviceServer_def newListenService_def newDeviceService_def
        newPlaybackService_def ioc.get_emplace svcConnect_def connect_def newRegistry_def Let_def freshId.simps setRegistry_def
        playDone_def listenDone_def svcUpload_def svcStopRecording_def guardListen_def requireBusinessSession_def
        sessionIdFromContext_def orEmpty_def requireActiveBusinessCall_def expired_def is_ok_def grpc_ok_def lpUpload_def
        eventsFromProto_def statusToProto_def listener_init_def playback_init_def)
  ultimately show ?thesis unfolding Let_def by blast
qed

text \<open>C20. Every service of a started device has the objects it needs, whatever happens: no call ever dereferences a null
  pointer, and no service loses its objects. (\<open>GrpcPlaybackService::Playback\<close> does not test its pointer.)\<close>

theorem device_services_configured:
  "case deviceRun env es (startServices env L lease (newDeviceServer x11 w0) log g w, w) of
     None \<Rightarrow> True | Some (Inl fault) \<Rightarrow> False | Some (Inr (replies, dp, w')) \<Rightarrow> configured dp"
  using deviceRun_ok [OF startServices_ok, of "{}" es env L lease x11 w0 log g w env w]
  by (auto simp: stepped_ok_def process_ok_def split: option.split sum.split)

end
