(* ===== verification/ReplayCancel.thy ===== *)
theory ReplayCancel
  imports PlaybackSvc
begin

text \<open>
  Cancelling a replay. \<open>LocalEvrp::replay\<close> (\<open>evrp/server/impl/server/localevrp.cpp\<close>) starts a thread that
  polls whether its own call was cancelled and then asks the device to stop, while the replaying
  thread uploads and plays through \<open>RemotePlayback\<close> (\<open>evrp/device/impl/client/remoteplayback.cpp\<close>) and the
  device runs \<open>LocalPlayback\<close> (\<open>evrp/device/impl/server/localplayback.cpp\<close>). The interleavings of the
  two threads, with the mutex \<open>callMu_\<close> of the proxy and the flags they share, are the relation
  \<open>replay_step\<close>. The session of the calls is in order here; what happens when it is not is in the root
  theory.
\<close>

section \<open>The threads\<close>

text \<open>Where the replaying thread is: before the upload, in it (with the mutex), after it, in the call of
  \<open>Playback\<close> before the device has copied the batch, before it resets the stop request, before
  event \<open>i\<close>, in the delay and the write of event \<open>i\<close>, after the loop, back in the proxy, before the guard
  \<open>joinRpcCancelWatch\<close>, in its join, and at the end.\<close>

datatype replay_pc =
  RStart | RUpload | RUploaded | RCall | RReset | RCheck nat | RWrite nat | RLoopEnd | RReturn | RGuard | RJoin | REnd

text \<open>The watching thread: polling, about to stop, in the call of \<open>Stop\<close> (with the mutex), after it, ended.\<close>

datatype watch_pc = WPoll | WStop | WStopping | WStopped | WEnd

record replay_state =
  rs_device :: LocalPlayback
  rs_pc :: replay_pc
  rs_watch :: watch_pc
  rs_cancelled :: bool
  rs_watchDone :: bool
  rs_callMu :: bool

inductive replay_step :: "InputEvent list \<Rightarrow> replay_state \<Rightarrow> replay_state \<Rightarrow> bool" for evs where
  client_cancels: "\<not> rs_cancelled s \<Longrightarrow> replay_step evs s (s\<lparr>rs_cancelled := True\<rparr>)"
| upload_begins: "rs_pc s = RStart \<Longrightarrow> \<not> rs_callMu s \<Longrightarrow> replay_step evs s (s\<lparr>rs_pc := RUpload, rs_callMu := True\<rparr>)"
| upload_served: "rs_pc s = RUpload \<Longrightarrow>
    replay_step evs s (s\<lparr>rs_pc := RUploaded, rs_callMu := False, rs_device := snd (lpUpload evs (rs_device s))\<rparr>)"
| play_called: "rs_pc s = RUploaded \<Longrightarrow> \<not> rs_callMu s \<Longrightarrow> replay_step evs s (s\<lparr>rs_pc := RCall\<rparr>)"
| play_empty: "rs_pc s = RCall \<Longrightarrow> cached (rs_device s) = [] \<Longrightarrow> replay_step evs s (s\<lparr>rs_pc := RReturn\<rparr>)"
| play_copies: "rs_pc s = RCall \<Longrightarrow> cached (rs_device s) \<noteq> [] \<Longrightarrow>
    replay_step evs s (s\<lparr>rs_pc := RReset, rs_device := (rs_device s)\<lparr>playing := True\<rparr>\<rparr>)"
| play_resets: "rs_pc s = RReset \<Longrightarrow>
    replay_step evs s (s\<lparr>rs_pc := RCheck 0, rs_device := (rs_device s)\<lparr>stopRequested := False, currentEventIndex := -1\<rparr>\<rparr>)"
| play_sees_stop: "rs_pc s = RCheck i \<Longrightarrow> i < length (cached (rs_device s)) \<Longrightarrow> stopRequested (rs_device s) \<Longrightarrow>
    replay_step evs s (s\<lparr>rs_pc := RLoopEnd\<rparr>)"
| play_goes_on: "rs_pc s = RCheck i \<Longrightarrow> i < length (cached (rs_device s)) \<Longrightarrow> \<not> stopRequested (rs_device s) \<Longrightarrow>
    replay_step evs s (s\<lparr>rs_pc := RWrite i\<rparr>)"
| play_writes: "rs_pc s = RWrite i \<Longrightarrow>
    replay_step evs s (s\<lparr>rs_pc := RCheck (Suc i), rs_device := (rs_device s)\<lparr>currentEventIndex := int i\<rparr>\<rparr>)"
| play_fails: "rs_pc s = RWrite i \<Longrightarrow> replay_step evs s (s\<lparr>rs_pc := RLoopEnd\<rparr>)"
| play_all: "rs_pc s = RCheck i \<Longrightarrow> i \<ge> length (cached (rs_device s)) \<Longrightarrow> replay_step evs s (s\<lparr>rs_pc := RLoopEnd\<rparr>)"
| play_ends: "rs_pc s = RLoopEnd \<Longrightarrow>
    replay_step evs s (s\<lparr>rs_pc := RReturn, rs_device := (rs_device s)\<lparr>playing := False\<rparr>\<rparr>)"
| play_returns: "rs_pc s = RReturn \<Longrightarrow> \<not> rs_callMu s \<Longrightarrow> replay_step evs s (s\<lparr>rs_pc := RGuard\<rparr>)"
| guard_tells: "rs_pc s = RGuard \<Longrightarrow> replay_step evs s (s\<lparr>rs_pc := RJoin, rs_watchDone := True\<rparr>)"
| guard_joins: "rs_pc s = RJoin \<Longrightarrow> rs_watch s = WEnd \<Longrightarrow> replay_step evs s (s\<lparr>rs_pc := REnd\<rparr>)"
| watch_done: "rs_watch s = WPoll \<Longrightarrow> rs_watchDone s \<Longrightarrow> replay_step evs s (s\<lparr>rs_watch := WEnd\<rparr>)"
| watch_sleeps: "rs_watch s = WPoll \<Longrightarrow> \<not> rs_watchDone s \<Longrightarrow> \<not> rs_cancelled s \<Longrightarrow> replay_step evs s s"
| watch_cancelled: "rs_watch s = WPoll \<Longrightarrow> \<not> rs_watchDone s \<Longrightarrow> rs_cancelled s \<Longrightarrow> replay_step evs s (s\<lparr>rs_watch := WStop\<rparr>)"
| stop_begins: "rs_watch s = WStop \<Longrightarrow> \<not> rs_callMu s \<Longrightarrow> replay_step evs s (s\<lparr>rs_watch := WStopping, rs_callMu := True\<rparr>)"
| stop_served: "rs_watch s = WStopping \<Longrightarrow>
    replay_step evs s (s\<lparr>rs_watch := WStopped, rs_device := snd (lpStop (rs_device s))\<rparr>)"
| stop_returns: "rs_watch s = WStopped \<Longrightarrow> replay_step evs s (s\<lparr>rs_watch := WEnd, rs_callMu := False\<rparr>)"

definition replay_begins :: "LocalPlayback \<Rightarrow> replay_state" where
  "replay_begins d =
     \<lparr>rs_device = d, rs_pc = RStart, rs_watch = WPoll, rs_cancelled = False, rs_watchDone = False, rs_callMu = False\<rparr>"

definition demo_move :: InputEvent where
  "demo_move = \<lparr>ie_device = kMouse, ie_timeSec = 1, ie_timeUsec = 0, ie_type = 2, ie_code = 0, ie_value = 5\<rparr>"

section \<open>Invariants\<close>

fun started :: "replay_pc \<Rightarrow> bool" where
  "started RStart = False"
| "started RUpload = False"
| "started _ = True"

fun over :: "replay_pc \<Rightarrow> bool" where
  "over RJoin = True"
| "over REnd = True"
| "over _ = False"

fun plays :: "replay_pc \<Rightarrow> bool" where
  "plays RReset = True"
| "plays (RCheck i) = True"
| "plays (RWrite i) = True"
| "plays RLoopEnd = True"
| "plays _ = False"

definition replay_inv :: "InputEvent list \<Rightarrow> replay_state \<Rightarrow> bool" where
  "replay_inv evs s \<longleftrightarrow>
     (rs_callMu s \<longleftrightarrow> rs_pc s = RUpload \<or> rs_watch s = WStopping \<or> rs_watch s = WStopped)
     \<and> (rs_pc s = RUpload \<longrightarrow> rs_watch s \<noteq> WStopping \<and> rs_watch s \<noteq> WStopped)
     \<and> (rs_watchDone s \<longleftrightarrow> over (rs_pc s)) \<and> (rs_pc s = REnd \<longrightarrow> rs_watch s = WEnd)
     \<and> (started (rs_pc s) \<longrightarrow> cached (rs_device s) = evs)
     \<and> (started (rs_pc s) \<and> playing (rs_device s) \<longrightarrow> plays (rs_pc s))
     \<and> (\<forall>i. rs_pc s = RCheck i \<longrightarrow> i \<le> length evs \<and> currentEventIndex (rs_device s) = int i - 1)
     \<and> (\<forall>i. rs_pc s = RWrite i \<longrightarrow> i < length evs \<and> currentEventIndex (rs_device s) = int i - 1)"

text \<open>The work left, for \<open>n\<close> events.\<close>

fun pc_work :: "nat \<Rightarrow> replay_pc \<Rightarrow> nat" where
  "pc_work n RStart = 2 * n + 20"
| "pc_work n RUpload = 2 * n + 19"
| "pc_work n RUploaded = 2 * n + 18"
| "pc_work n RCall = 2 * n + 17"
| "pc_work n RReset = 2 * n + 16"
| "pc_work n (RCheck i) = 2 * (n - i) + 10"
| "pc_work n (RWrite i) = 2 * (n - i) + 9"
| "pc_work n RLoopEnd = 5"
| "pc_work n RReturn = 4"
| "pc_work n RGuard = 3"
| "pc_work n RJoin = 2"
| "pc_work n REnd = 0"

fun watch_work :: "watch_pc \<Rightarrow> nat" where
  "watch_work WPoll = 5"
| "watch_work WStop = 4"
| "watch_work WStopping = 3"
| "watch_work WStopped = 2"
| "watch_work WEnd = 0"

definition replay_work :: "nat \<Rightarrow> replay_state \<Rightarrow> nat" where
  "replay_work n s = pc_work n (rs_pc s) + watch_work (rs_watch s) + (if rs_cancelled s then 0 else 1)"

lemma replay_inv_begins: "replay_inv evs (replay_begins d)"
  by (simp add: replay_inv_def replay_begins_def)

lemma replay_inv_step [inv_intros]: "replay_step evs s s' \<Longrightarrow> replay_inv evs s \<Longrightarrow> replay_inv evs s'"
  by (induction rule: replay_step.induct) (simp_all add: replay_inv_def lpUpload_def lpStop_def)

lemma replay_reach_inv: "(replay_step evs)\<^sup>*\<^sup>* s s' \<Longrightarrow> replay_inv evs s \<Longrightarrow> replay_inv evs s'"
  by (induction rule: rtranclp_induct) (auto intro: replay_inv_step)

lemma replay_work_step:
  "replay_step evs s s' \<Longrightarrow> replay_inv evs s \<Longrightarrow>
     s' = s \<and> rs_watch s = WPoll \<and> \<not> rs_watchDone s \<or> replay_work (length evs) s' < replay_work (length evs) s"
  by (induction rule: replay_step.induct) (auto simp: replay_work_def replay_inv_def)

text \<open>While the mutex is held its holder can go on; while it is free, so can the replaying thread, or, once
  it waits in the join, the watching thread.\<close>

definition advances :: "InputEvent list \<Rightarrow> replay_state \<Rightarrow> bool" where
  "advances evs s \<longleftrightarrow> (\<exists>s'. replay_step evs s s' \<and> (rs_pc s', rs_watch s') \<noteq> (rs_pc s, rs_watch s))"

lemma advancesI: "replay_step evs s s' \<Longrightarrow> (rs_pc s', rs_watch s') \<noteq> (rs_pc s, rs_watch s) \<Longrightarrow> advances evs s"
  by (auto simp: advances_def)

lemma holder_advances:
  assumes "replay_inv evs s" and "rs_callMu s"
  shows "advances evs s"
proof -
  consider "rs_pc s = RUpload" | "rs_watch s = WStopping" | "rs_watch s = WStopped"
    using assms by (auto simp: replay_inv_def)
  then show ?thesis
  proof cases
    case 1
    then show ?thesis by (intro advancesI [OF replay_step.upload_served]) simp_all
  next
    case 2
    then show ?thesis by (intro advancesI [OF replay_step.stop_served]) simp_all
  next
    case 3
    then show ?thesis by (intro advancesI [OF replay_step.stop_returns]) simp_all
  qed
qed

lemma check_advances: "rs_pc s = RCheck i \<Longrightarrow> advances evs s"
  using advancesI [OF replay_step.play_sees_stop, of s i evs] advancesI [OF replay_step.play_goes_on, of s i evs]
    advancesI [OF replay_step.play_all, of s i evs]
  by (cases "i < length (cached (rs_device s))"; cases "stopRequested (rs_device s)") simp_all

lemma join_advances:
  assumes "replay_inv evs s" and "\<not> rs_callMu s" and "rs_pc s = RJoin"
  shows "advances evs s"
  using assms advancesI [OF replay_step.guard_joins, of s evs] advancesI [OF replay_step.watch_done, of s evs]
    advancesI [OF replay_step.stop_begins, of s evs]
  by (cases "rs_watch s") (simp_all add: replay_inv_def)

lemma replay_progress:
  assumes "replay_inv evs s" and "rs_pc s \<noteq> REnd"
  shows "advances evs s"
proof (cases "rs_callMu s")
  case True
  then show ?thesis using holder_advances assms(1) by blast
next
  case False
  note move = advancesI [of evs s]
  show ?thesis
  proof (cases "rs_pc s")
    case RCall
    then show ?thesis using move [OF replay_step.play_empty] move [OF replay_step.play_copies]
      by (cases "cached (rs_device s) = []") simp_all
  next
    case RStart
    then show ?thesis using False move [OF replay_step.upload_begins] by simp
  next
    case RUpload
    then show ?thesis using move [OF replay_step.upload_served] by simp
  next
    case RUploaded
    then show ?thesis using False move [OF replay_step.play_called] by simp
  next
    case RReset
    then show ?thesis using move [OF replay_step.play_resets] by simp
  next
    case (RWrite i)
    then show ?thesis using move [OF replay_step.play_fails] by simp
  next
    case RLoopEnd
    then show ?thesis using move [OF replay_step.play_ends] by simp
  next
    case RReturn
    then show ?thesis using False move [OF replay_step.play_returns] by simp
  next
    case RGuard
    then show ?thesis using move [OF replay_step.guard_tells] by simp
  qed (use assms False check_advances join_advances in blast)+
qed

text \<open>A stop request that the device has seen while it plays: from there no event after \<open>k\<close> is
  written.\<close>

definition stopping :: "int \<Rightarrow> replay_state \<Rightarrow> bool" where
  "stopping k s \<longleftrightarrow>
     (case rs_pc s of RCheck i \<Rightarrow> stopRequested (rs_device s) | RWrite i \<Rightarrow> int i \<le> k \<and> stopRequested (rs_device s)
      | RLoopEnd \<Rightarrow> True | RReturn \<Rightarrow> True | RGuard \<Rightarrow> True | RJoin \<Rightarrow> True | REnd \<Rightarrow> True | _ \<Rightarrow> False)
     \<and> currentEventIndex (rs_device s) \<le> k"

lemma stopping_step: "replay_step evs s s' \<Longrightarrow> stopping k s \<Longrightarrow> stopping k s'"
  by (induction rule: replay_step.induct) (auto simp: stopping_def lpStop_def split: replay_pc.splits)

lemma stopping_reach: "(replay_step evs)\<^sup>*\<^sup>* s s' \<Longrightarrow> stopping k s \<Longrightarrow> stopping k s'"
  by (induction rule: rtranclp_induct) (auto intro: stopping_step)

text \<open>The watching thread has ended and no stop request will be seen.\<close>

definition unwatched :: "replay_state \<Rightarrow> bool" where
  "unwatched s \<longleftrightarrow> rs_watch s = WEnd \<and> rs_pc s \<noteq> RStart \<and> rs_pc s \<noteq> RUpload
     \<and> (rs_pc s \<in> {RUploaded, RCall, RReset} \<or> \<not> stopRequested (rs_device s) \<or> (\<forall>i. rs_pc s \<noteq> RCheck i \<and> rs_pc s \<noteq> RWrite i))"

lemma unwatched_step: "replay_step evs s s' \<Longrightarrow> unwatched s \<Longrightarrow> unwatched s'"
  by (induction rule: replay_step.induct) (auto simp: unwatched_def)

lemma unwatched_reach: "(replay_step evs)\<^sup>*\<^sup>* s s' \<Longrightarrow> unwatched s \<Longrightarrow> unwatched s'"
  by (induction rule: rtranclp_induct) (auto intro: unwatched_step)

lemma replay_then: "replay_step evs s t \<Longrightarrow> (replay_step evs)\<^sup>*\<^sup>* t u \<Longrightarrow> (replay_step evs)\<^sup>*\<^sup>* s u"
  by (rule converse_rtranclp_into_rtranclp)

lemma play_through:
  "rs_pc s = RCheck i \<Longrightarrow> \<not> stopRequested (rs_device s) \<Longrightarrow> i + k = length (cached (rs_device s)) \<Longrightarrow>
   (replay_step evs)\<^sup>*\<^sup>* s (s\<lparr>rs_pc := RCheck (i + k), rs_device :=
      (rs_device s)\<lparr>currentEventIndex := (if k = 0 then currentEventIndex (rs_device s) else int (i + k) - 1)\<rparr>\<rparr>)"
proof (induction k arbitrary: s i)
  case 0
  then show ?case by (cases s; cases "rs_device s") simp
next
  case (Suc k)
  let ?s1 = "s\<lparr>rs_pc := RWrite i\<rparr>"
  let ?s2 = "?s1\<lparr>rs_pc := RCheck (Suc i), rs_device := (rs_device ?s1)\<lparr>currentEventIndex := int i\<rparr>\<rparr>"
  have "replay_step evs s ?s1" using Suc.prems by (intro replay_step.play_goes_on) auto
  moreover have "replay_step evs ?s1 ?s2" by (rule replay_step.play_writes) simp
  moreover have "(replay_step evs)\<^sup>*\<^sup>* ?s2 (?s2\<lparr>rs_pc := RCheck (Suc i + k), rs_device :=
      (rs_device ?s2)\<lparr>currentEventIndex := (if k = 0 then currentEventIndex (rs_device ?s2) else int (Suc i + k) - 1)\<rparr>\<rparr>)"
    using Suc.prems by (intro Suc.IH) auto
  ultimately have "(replay_step evs)\<^sup>*\<^sup>* s (?s2\<lparr>rs_pc := RCheck (Suc i + k), rs_device :=
      (rs_device ?s2)\<lparr>currentEventIndex := (if k = 0 then currentEventIndex (rs_device ?s2) else int (Suc i + k) - 1)\<rparr>\<rparr>)"
    by (meson converse_rtranclp_into_rtranclp)
  then show ?case by (cases "k = 0") simp_all
qed

section \<open>Properties\<close>



text \<open>C11. A stop that reaches the device while it plays is obeyed: after it, however the threads go on, at
  most the event whose delay and write had begun is still written.\<close>

theorem replay_stop_obeyed:
  assumes "(replay_step evs)\<^sup>*\<^sup>* (replay_begins d) s" and "rs_pc s = RCheck i \<or> rs_pc s = RWrite i"
    and "stopRequested (rs_device s)" and "(replay_step evs)\<^sup>*\<^sup>* s s'"
  shows "currentEventIndex (rs_device s') \<le> currentEventIndex (rs_device s) + (if rs_pc s = RWrite i then 1 else 0)"
proof -
  have inv: "replay_inv evs s" by (rule replay_reach_inv [OF assms(1) replay_inv_begins])
  then have "stopping (currentEventIndex (rs_device s) + (if rs_pc s = RWrite i then 1 else 0)) s"
    using assms(2,3) by (auto simp: stopping_def replay_inv_def)
  from stopping_reach [OF assms(4) this] show ?thesis by (simp add: stopping_def)
qed

theorem replay_stop_obeyed_witness:
  "\<exists>s. (replay_step [demo_move, demo_move])\<^sup>*\<^sup>* (replay_begins playback_init) s \<and> rs_pc s = RWrite 0 \<and> stopRequested (rs_device s)
     \<and> (\<forall>s'. (replay_step [demo_move, demo_move])\<^sup>*\<^sup>* s s' \<longrightarrow> currentEventIndex (rs_device s') \<le> 0)"
proof -
  let ?s = "\<lparr>rs_device = \<lparr>cached = [demo_move, demo_move], playing = False, stopRequested = True, currentEventIndex = -1\<rparr>,
     rs_pc = RWrite 0, rs_watch = WStopped, rs_cancelled = True, rs_watchDone = False, rs_callMu = True\<rparr>"
  have "(replay_step [demo_move, demo_move])\<^sup>*\<^sup>* (replay_begins playback_init) ?s"
    by (rule replay_then [OF replay_step.upload_begins], (simp add: replay_begins_def playback_init_def lpUpload_def lpStop_def)+,
      rule replay_then [OF replay_step.upload_served], (simp add: replay_begins_def playback_init_def lpUpload_def lpStop_def)+,
      rule replay_then [OF replay_step.play_called], (simp add: replay_begins_def playback_init_def lpUpload_def lpStop_def)+,
      rule replay_then [OF replay_step.play_copies], (simp add: replay_begins_def playback_init_def lpUpload_def lpStop_def)+,
      rule replay_then [OF replay_step.play_resets], (simp add: replay_begins_def playback_init_def lpUpload_def lpStop_def)+,
      rule replay_then [OF replay_step.play_goes_on], (simp add: replay_begins_def playback_init_def lpUpload_def lpStop_def)+,
      rule replay_then [OF replay_step.client_cancels], (simp add: replay_begins_def playback_init_def lpUpload_def lpStop_def)+,
      rule replay_then [OF replay_step.watch_cancelled], (simp add: replay_begins_def playback_init_def lpUpload_def lpStop_def)+,
      rule replay_then [OF replay_step.stop_begins], (simp add: replay_begins_def playback_init_def lpUpload_def lpStop_def)+,
      rule replay_then [OF replay_step.stop_served], (simp add: replay_begins_def playback_init_def lpUpload_def lpStop_def)+)
  from this replay_stop_obeyed [OF this, of 0] show ?thesis by (intro exI [of _ ?s]) auto
qed



end
