(* ===== verification/LogStream.thy ===== *)
theory LogStream
  imports Logging
begin

text \<open>
  One log stream from its opening to its end: the handler \<open>GrpcLogService::StreamLogs\<close> and its reading
  thread (\<open>evrp/sdk/log/grpc/grpclogservice.cpp\<close>) in the device, \<open>RemoteLogService::forwardUntil\<close> and its
  cancelling thread (\<open>grpc/remotelogservice.cpp\<close>) in the server, and the destructor of
  \<open>DeviceLogForwarder\<close> (\<open>evrp/server/impl/server/localevrp.cpp\<close>) that asks for the end. The threads are
  interleaved freely, and other threads of both processes log meanwhile. Of gRPC it is used that a
  read or write of a cancelled call fails, and that messages arrive in order.
\<close>

section \<open>The threads\<close>

text \<open>The handler is at the top of its loop, waits for a line, writes one, has left the loop, joins the
  reader, takes its buffer off the list, has returned.\<close>

datatype handler_pc = HTop | HPop | HWrite "int \<times> string" | HLeft | HJoin | HExit | HDone

datatype reader_pc = RRead | RIngest "int \<times> string" | RStore | RDone

datatype forward_pc = FTop | FRead | FIngest "int \<times> string" | FJoin | FDone

text \<open>\<open>st_down\<close> are the lines on their way to the server; those on their way to the device are the
  \<open>activeStream\<close> of the server. \<open>st_watching\<close>: the thread \<open>cancelOnStop\<close> runs. \<open>st_cancelled\<close>: the server has cancelled the
  call; \<open>st_arrived\<close>: the device sees it.\<close>

record ('d, 's) stream_state =
  st_dev :: "'d log_proc"
  st_srv :: "'s log_proc"
  st_down :: "(int \<times> string) list"
  st_handler :: handler_pc
  st_reader :: reader_pc
  st_forward :: forward_pc
  st_watching :: bool
  st_stop :: bool
  st_cancelled :: bool
  st_arrived :: bool
  st_readDone :: bool
  st_status :: grpc_status

inductive log_step ::
  "'d ILogService \<Rightarrow> 's ILogService \<Rightarrow> log_levels \<Rightarrow> ('d, 's) stream_state \<Rightarrow> ('d, 's) stream_state \<Rightarrow> bool" for D S lv where
  stop_asked: "\<not> st_stop s \<Longrightarrow> log_step D S lv s (s\<lparr>st_stop := True\<rparr>)"
| call_cancelled: "st_watching s \<Longrightarrow> st_stop s \<Longrightarrow> log_step D S lv s (s\<lparr>st_cancelled := True, st_watching := False\<rparr>)"
| cancel_arrives: "st_cancelled s \<Longrightarrow> \<not> st_arrived s \<Longrightarrow> log_step D S lv s (s\<lparr>st_arrived := True\<rparr>)"
| handler_leaves: "st_handler s = HTop \<Longrightarrow> st_arrived s \<or> st_readDone s \<Longrightarrow> log_step D S lv s (s\<lparr>st_handler := HLeft\<rparr>)"
| handler_waits: "st_handler s = HTop \<Longrightarrow> \<not> st_arrived s \<Longrightarrow> \<not> st_readDone s \<Longrightarrow> log_step D S lv s (s\<lparr>st_handler := HPop\<rparr>)"
| handler_pops: "st_handler s = HPop \<Longrightarrow> streamWrite lv 0 (st_dev s) = (Some m, dev) \<Longrightarrow>
    log_step D S lv s (s\<lparr>st_handler := HWrite m, st_dev := dev\<rparr>)"
| handler_times_out: "st_handler s = HPop \<Longrightarrow> streamWrite lv 0 (st_dev s) = (None, dev) \<Longrightarrow>
    log_step D S lv s (s\<lparr>st_handler := HTop, st_dev := dev\<rparr>)"
| handler_writes: "st_handler s = HWrite m \<Longrightarrow> \<not> st_arrived s \<Longrightarrow>
    log_step D S lv s (s\<lparr>st_handler := HTop, st_down := st_down s @ [m]\<rparr>)"
| handler_write_fails: "st_handler s = HWrite m \<Longrightarrow> st_arrived s \<Longrightarrow>
    log_step D S lv s (s\<lparr>st_handler := HLeft, st_status := status UNKNOWN ''write failed''\<rparr>)"
| handler_tells: "st_handler s = HLeft \<Longrightarrow>
    log_step D S lv s (s\<lparr>st_handler := HJoin, st_readDone := True,
      st_status := (if st_arrived s then status CANCELLED ''cancelled'' else st_status s)\<rparr>)"
| handler_joins: "st_handler s = HJoin \<Longrightarrow> st_reader s = RDone \<Longrightarrow> log_step D S lv s (s\<lparr>st_handler := HExit\<rparr>)"
| handler_exits: "st_handler s = HExit \<Longrightarrow> log_step D S lv s (s\<lparr>st_handler := HDone, st_dev := streamExit 0 (st_dev s)\<rparr>)"
| reader_reads: "st_reader s = RRead \<Longrightarrow> \<not> st_arrived s \<Longrightarrow> activeStream (st_srv s) = Some (m # ms) \<Longrightarrow>
    log_step D S lv s (s\<lparr>st_reader := RIngest m, st_srv := (st_srv s)\<lparr>activeStream := Some ms\<rparr>\<rparr>)"
| reader_ends: "st_reader s = RRead \<Longrightarrow> st_arrived s \<Longrightarrow> log_step D S lv s (s\<lparr>st_reader := RStore\<rparr>)"
| reader_ingests: "st_reader s = RIngest m \<Longrightarrow> streamRead D lv (st_arrived s) m (st_dev s) = (goon, dev) \<Longrightarrow>
    log_step D S lv s (s\<lparr>st_reader := (if goon then RRead else RStore), st_dev := dev\<rparr>)"
| reader_stores: "st_reader s = RStore \<Longrightarrow> log_step D S lv s (s\<lparr>st_reader := RDone, st_readDone := True\<rparr>)"
| forward_stops: "st_forward s = FTop \<Longrightarrow> st_stop s \<Longrightarrow> log_step D S lv s (s\<lparr>st_forward := FJoin\<rparr>)"
| forward_waits: "st_forward s = FTop \<Longrightarrow> \<not> st_stop s \<Longrightarrow> log_step D S lv s (s\<lparr>st_forward := FRead\<rparr>)"
| forward_reads: "st_forward s = FRead \<Longrightarrow> \<not> st_cancelled s \<Longrightarrow> st_down s = m # ms \<Longrightarrow>
    log_step D S lv s (s\<lparr>st_forward := FIngest m, st_down := ms\<rparr>)"
| forward_ends: "st_forward s = FRead \<Longrightarrow> st_cancelled s \<or> st_handler s = HDone \<and> st_down s = [] \<Longrightarrow>
    log_step D S lv s (s\<lparr>st_forward := FJoin\<rparr>)"
| forward_ingests: "st_forward s = FIngest m \<Longrightarrow>
    log_step D S lv s (s\<lparr>st_forward := FTop, st_srv := ingestInbound S lv RemoteLogService m (st_srv s)\<rparr>)"
| forward_joins: "st_forward s = FJoin \<Longrightarrow> \<not> st_watching s \<Longrightarrow>
    log_step D S lv s (s\<lparr>st_forward := FDone, st_srv := (st_srv s)\<lparr>activeStream := None\<rparr>\<rparr>)"

text \<open>Lines logged by other threads of the two processes.\<close>

inductive log_env ::
  "'d ILogService \<Rightarrow> 's ILogService \<Rightarrow> log_levels \<Rightarrow> ('d, 's) stream_state \<Rightarrow> ('d, 's) stream_state \<Rightarrow> bool" for D S lv where
  device_logs: "log_env D S lv s (s\<lparr>st_dev := globalLog D lv level msg (st_dev s)\<rparr>)"
| server_logs: "log_env D S lv s (s\<lparr>st_srv := globalLog S lv level msg (st_srv s)\<rparr>)"

definition log_move where
  "log_move D S lv s s' \<longleftrightarrow> log_step D S lv s s' \<or> log_env D S lv s s'"

text \<open>The stream has just been accepted: the handler has added its buffer, the first and only one, and
  \<open>forwardUntil\<close> has made it the active stream.\<close>

definition stream_opens :: "'d log_proc \<Rightarrow> 's log_proc \<Rightarrow> ('d, 's) stream_state" where
  "stream_opens dev srv =
     \<lparr>st_dev = dev\<lparr>subscriberBuffers := [Some newBuffer]\<rparr>, st_srv = srv\<lparr>activeStream := Some []\<rparr>, st_down = [],
      st_handler = HTop, st_reader = RRead, st_forward = FTop, st_watching = True, st_stop = False,
      st_cancelled = False, st_arrived = False, st_readDone = False, st_status = grpc_ok\<rparr>"

section \<open>Invariants\<close>

definition stream_inv :: "('d, 's) stream_state \<Rightarrow> bool" where
  "stream_inv s \<longleftrightarrow>
     (st_cancelled s \<longleftrightarrow> \<not> st_watching s) \<and> (st_cancelled s \<longrightarrow> st_stop s) \<and> (st_arrived s \<longrightarrow> st_cancelled s)
     \<and> (st_readDone s \<longrightarrow> st_arrived s) \<and> (st_reader s \<in> {RStore, RDone} \<longrightarrow> st_arrived s)
     \<and> (st_handler s \<in> {HLeft, HJoin, HExit, HDone} \<longrightarrow> st_arrived s)
     \<and> (st_handler s \<in> {HExit, HDone} \<longrightarrow> st_reader s = RDone)
     \<and> (st_handler s \<in> {HJoin, HExit, HDone} \<longrightarrow> st_status s = status CANCELLED ''cancelled'')
     \<and> (if st_handler s = HDone then subscriberBuffers (st_dev s) = [] else \<exists>b. subscriberBuffers (st_dev s) = [Some b])
     \<and> (st_forward s = FDone \<longleftrightarrow> activeStream (st_srv s) = None)"

fun handler_work :: "handler_pc \<Rightarrow> nat" where
  "handler_work HPop = 9"
| "handler_work (HWrite m) = 8"
| "handler_work HTop = 7"
| "handler_work HLeft = 5"
| "handler_work HJoin = 3"
| "handler_work HExit = 2"
| "handler_work HDone = 0"

fun reader_work :: "reader_pc \<Rightarrow> nat" where
  "reader_work (RIngest m) = 4"
| "reader_work RRead = 3"
| "reader_work RStore = 2"
| "reader_work RDone = 0"

fun forward_work :: "forward_pc \<Rightarrow> nat" where
  "forward_work (FIngest m) = 8"
| "forward_work FTop = 7"
| "forward_work FRead = 6"
| "forward_work FJoin = 4"
| "forward_work FDone = 0"

definition stream_work :: "('d, 's) stream_state \<Rightarrow> nat" where
  "stream_work s = handler_work (st_handler s) + reader_work (st_reader s) + forward_work (st_forward s)"

text \<open>Logging keeps the number of subscribers and never opens or closes the stream.\<close>

lemma globalLog_keeps:
  "(\<exists>b. subscriberBuffers st = [Some b]) \<Longrightarrow> \<exists>b. subscriberBuffers (globalLog P lv l m st) = [Some b]"
  "subscriberBuffers st = [] \<Longrightarrow> subscriberBuffers (globalLog P lv l m st) = []"
  "(activeStream (globalLog P lv l m st) = None) = (activeStream st = None)"
proof -
  have send: "(\<exists>b. subscriberBuffers st = [Some b]) \<Longrightarrow> \<exists>b. subscriberBuffers (senderLog lv n l m st) = [Some b]"
    "subscriberBuffers st = [] \<Longrightarrow> subscriberBuffers (senderLog lv n l m st) = []"
    "(activeStream (senderLog lv n l m st) = None) = (activeStream st = None)" for n
    by (cases n; auto simp: publishToAllSubscribers_def writeOutbound_def split: option.split)+
  have serve: "(\<exists>b. subscriberBuffers st = [Some b]) \<Longrightarrow> \<exists>b. subscriberBuffers (serviceLog P lv t l m st) = [Some b]"
    "subscriberBuffers st = [] \<Longrightarrow> subscriberBuffers (serviceLog P lv t l m st) = []"
    "(activeStream (serviceLog P lv t l m st) = None) = (activeStream st = None)" for t
    using send by (cases t; auto simp: Let_def split: option.split)+
  show "(\<exists>b. subscriberBuffers st = [Some b]) \<Longrightarrow> \<exists>b. subscriberBuffers (globalLog P lv l m st) = [Some b]"
    "subscriberBuffers st = [] \<Longrightarrow> subscriberBuffers (globalLog P lv l m st) = []"
    "(activeStream (globalLog P lv l m st) = None) = (activeStream st = None)"
    using serve by (auto simp: globalLog_def split: option.split)
qed

lemma streamRead_keeps:
  "streamRead P lv c m st = (goon, st') \<Longrightarrow> (\<exists>b. subscriberBuffers st = [Some b]) \<Longrightarrow> \<exists>b. subscriberBuffers st' = [Some b]"
  "streamRead P lv c m st = (goon, st') \<Longrightarrow> goon = (\<not> c)"
  using globalLog_keeps(1) [of st P lv] by (cases m; auto simp: streamRead_def split: if_splits)+

lemma streamWrite_keeps:
  "streamWrite lv 0 st = (r, st') \<Longrightarrow> (\<exists>b. subscriberBuffers st = [Some b]) \<Longrightarrow> \<exists>b. subscriberBuffers st' = [Some b]"
  by (auto simp: streamWrite_def split_beta Let_def)

lemma forward_keeps:
  "(activeStream (ingestInbound P lv RemoteLogService m st) = None) = (activeStream st = None)"
  using globalLog_keeps(3) [of P lv _ _ st] by (cases m) simp

lemma stream_inv_opens: "stream_inv (stream_opens dev srv)"
  by (simp add: stream_inv_def stream_opens_def)

lemma stream_inv_step: "log_step D S lv s s' \<Longrightarrow> stream_inv s \<Longrightarrow> stream_inv s'"
proof (induction rule: log_step.induct)
  case (handler_pops s m dev)
  then show ?case using streamWrite_keeps [OF handler_pops(2)] by (auto simp: stream_inv_def)
next
  case (handler_times_out s dev)
  then show ?case using streamWrite_keeps [OF handler_times_out(2)] by (auto simp: stream_inv_def)
next
  case (reader_ingests s m goon dev)
  then show ?case using streamRead_keeps [OF reader_ingests(2)] by (auto simp: stream_inv_def)
next
  case (handler_exits s)
  then show ?case by (auto simp: stream_inv_def streamExit_def)
next
  case (forward_ingests s m)
  then show ?case using forward_keeps [of S lv m "st_srv s"] by (auto simp: stream_inv_def)
qed (auto simp: stream_inv_def)

lemma stream_inv_env: "log_env D S lv s s' \<Longrightarrow> stream_inv s \<Longrightarrow> stream_inv s'"
proof (induction rule: log_env.induct)
  case (device_logs s level msg)
  then show ?case using globalLog_keeps(1,2) [of "st_dev s" D lv level msg] by (auto simp: stream_inv_def)
next
  case (server_logs s level msg)
  then show ?case using globalLog_keeps(3) [of S lv level msg "st_srv s"] by (auto simp: stream_inv_def)
qed

lemma stream_reach_inv: "(log_move D S lv)\<^sup>*\<^sup>* s s' \<Longrightarrow> stream_inv s \<Longrightarrow> stream_inv s'"
  by (induction rule: rtranclp_induct) (auto simp: log_move_def intro: stream_inv_step stream_inv_env)

lemma stream_work_step:
  "log_step D S lv s s' \<Longrightarrow> stream_inv s \<Longrightarrow> st_arrived s \<Longrightarrow> st_arrived s' \<and> stream_work s' < stream_work s"
  by (induction rule: log_step.induct) (auto simp: stream_work_def stream_inv_def streamRead_keeps(2))

lemma stream_env_work:
  "log_env D S lv s s' \<Longrightarrow> st_arrived s' = st_arrived s \<and> stream_work s' = stream_work s"
  by (induction rule: log_env.induct) (simp_all add: stream_work_def)

text \<open>After the cancellation has arrived each thread can always go on, or waits for one that can.\<close>

lemma stream_progress:
  assumes inv: "stream_inv s" and c: "st_arrived s"
    and left: "\<not> (st_handler s = HDone \<and> st_reader s = RDone \<and> st_forward s = FDone)"
  shows "\<exists>s'. log_step D S lv s s'"
proof -
  have w: "\<not> st_watching s" "st_stop s" "st_cancelled s" using inv c by (auto simp: stream_inv_def)
  consider "st_reader s \<noteq> RDone" | "st_forward s \<noteq> FDone" | "st_handler s \<noteq> HDone" "st_reader s = RDone" using left by blast
  then show ?thesis
  proof cases
    case 1
    then show ?thesis using c log_step.reader_ends [of s D S lv] log_step.reader_stores [of s D S lv] log_step.reader_ingests [of s _ D lv _ _ S]
      by (cases "st_reader s") (blast | metis surj_pair)+
  next
    case 2
    then show ?thesis using c w log_step.forward_stops [of s D S lv] log_step.forward_ends [of s D S lv]
        log_step.forward_ingests [of s _ D S lv] log_step.forward_joins [of s D S lv]
      by (cases "st_forward s") blast+
  next
    case 3
    have "\<exists>r dev. streamWrite lv 0 (st_dev s) = (r, dev)" by simp
    then show ?thesis using c 3 log_step.handler_leaves [of s D S lv] log_step.handler_pops [of s lv _ _ D S]
        log_step.handler_times_out [of s lv _ D S] log_step.handler_write_fails [of s _ D S lv] log_step.handler_tells [of s D S lv]
        log_step.handler_joins [of s D S lv] log_step.handler_exits [of s D S lv]
      by (cases "st_handler s") (blast | metis option.exhaust)+
  qed
qed

section \<open>The property\<close>

text \<open>C18. A log stream can always be closed. Whatever the two processes have logged to each other, once the
  end is asked for the call is cancelled; when that has arrived, every step of the four threads
  brings the end nearer, whatever other threads log meanwhile, and some step is possible until all have
  ended; then the call has the status \<open>CANCELLED\<close>, the server writes no more lines to it and the device
  keeps no buffer for it.\<close>

theorem log_stream_closes:
  assumes "(log_move D S lv)\<^sup>*\<^sup>* (stream_opens dev srv) s" and "st_stop s"
  shows "(\<not> st_arrived s \<longrightarrow> (\<exists>s'. (log_step D S lv)\<^sup>*\<^sup>* s s' \<and> st_arrived s'))
    \<and> (st_arrived s \<longrightarrow> (\<forall>s'. log_step D S lv s s' \<longrightarrow> st_arrived s' \<and> stream_work s' < stream_work s)
         \<and> (\<forall>s'. log_env D S lv s s' \<longrightarrow> st_arrived s' \<and> stream_work s' = stream_work s))
    \<and> ((\<nexists>s'. log_step D S lv s s') \<longrightarrow>
         st_handler s = HDone \<and> st_reader s = RDone \<and> st_forward s = FDone \<and> st_status s = status CANCELLED ''cancelled''
         \<and> activeStream (st_srv s) = None \<and> subscriberBuffers (st_dev s) = [])"
proof (intro conjI impI)
  have inv: "stream_inv s" by (rule stream_reach_inv [OF assms(1) stream_inv_opens])
  have cancel: "log_step D S lv s (s\<lparr>st_cancelled := True, st_watching := False\<rparr>)" if "\<not> st_cancelled s"
    using inv assms(2) that by (intro log_step.call_cancelled) (auto simp: stream_inv_def)
  have arrive: "log_step D S lv t (t\<lparr>st_arrived := True\<rparr>)" if "st_cancelled t" "\<not> st_arrived t" for t
    using that by (rule log_step.cancel_arrives)
  show "\<exists>s'. (log_step D S lv)\<^sup>*\<^sup>* s s' \<and> st_arrived s'" if a: "\<not> st_arrived s"
  proof (cases "st_cancelled s")
    case True
    from arrive [OF this a] show ?thesis by (intro exI conjI) (erule r_into_rtranclp, simp)
  next
    case False
    have "log_step D S lv (s\<lparr>st_cancelled := True, st_watching := False\<rparr>)
        (s\<lparr>st_cancelled := True, st_watching := False, st_arrived := True\<rparr>)"
      using a by (intro arrive) simp_all
    with cancel [OF False] show ?thesis
      by (intro exI [of _ "s\<lparr>st_cancelled := True, st_watching := False, st_arrived := True\<rparr>"] conjI)
        (erule converse_rtranclp_into_rtranclp, erule r_into_rtranclp, simp)
  qed
  show "\<forall>s'. log_step D S lv s s' \<longrightarrow> st_arrived s' \<and> stream_work s' < stream_work s" if "st_arrived s"
    using stream_work_step [OF _ inv that] by blast
  show "\<forall>s'. log_env D S lv s s' \<longrightarrow> st_arrived s' \<and> stream_work s' = stream_work s" if "st_arrived s"
    using stream_env_work that by blast
  assume stuck: "\<nexists>s'. log_step D S lv s s'"
  then have d: "st_handler s = HDone" "st_reader s = RDone" "st_forward s = FDone"
    using stream_progress [OF inv, of D S lv] cancel arrive [of s] by blast+
  then show "st_handler s = HDone" "st_reader s = RDone" "st_forward s = FDone" "st_status s = status CANCELLED ''cancelled''"
    "activeStream (st_srv s) = None" "subscriberBuffers (st_dev s) = []"
    using inv by (auto simp: stream_inv_def)
qed

theorem log_stream_closes_witness:
  "\<exists>s'. (log_step demo_log demo_log demo_levels)\<^sup>*\<^sup>*
      ((stream_opens \<lparr>logService = None, prim = [], threshold = Info, subscriberBuffers = [], activeStream = None\<rparr>
          \<lparr>logService = None, prim = [], threshold = Info, subscriberBuffers = [], activeStream = None\<rparr>)\<lparr>st_stop := True\<rparr>) s'
    \<and> st_arrived s'"
  (is "\<exists>s'. (log_step _ _ _)\<^sup>*\<^sup>* (?s\<lparr>st_stop := True\<rparr>) s' \<and> _")
proof -
  have "log_step demo_log demo_log demo_levels ?s (?s\<lparr>st_stop := True\<rparr>)"
    by (rule log_step.stop_asked) (simp add: stream_opens_def)
  then have "(log_move demo_log demo_log demo_levels)\<^sup>*\<^sup>* ?s (?s\<lparr>st_stop := True\<rparr>)"
    by (intro r_into_rtranclp) (simp add: log_move_def)
  from log_stream_closes [OF this] show ?thesis by (simp add: stream_opens_def)
qed

end
