(* ===== verification/EvrpServer.thy ===== *)
theory EvrpServer
  imports RecordReplay Session Logging
begin

text \<open>
  The server (\<open>evrp/server\<close>): the interface \<open>Evrp\<close>, its implementation \<open>LocalEvrp\<close>
  (\<open>impl/server/localevrp.cpp\<close>), the gRPC service over it (\<open>impl/server/grpc/grpcevrpservice.cpp\<close>)
  and the client's proxy \<open>RemoteEvrp\<close> (\<open>impl/client/remoteevrp.cpp\<close>, \<open>client.cpp\<close>). A record or
  replay may run for ever, so these operations are options. Worlds are pairs of the \<open>LocalEvrp\<close>
  object, which calls on other threads read and write, and of everything else; the connection to
  the device is a parameter.
\<close>

abbreviation (input) "kUnaryRpcServerContextSettingKey \<equiv> ''__evrpUnaryGrpcServerContext''"

record 'w Evrp =
  ev_record :: "MemorySetting option \<Rightarrow> 'w \<Rightarrow> (int \<times> 'w) option"
  ev_replay :: "MemorySetting option \<Rightarrow> 'w \<Rightarrow> (int \<times> 'w) option"
  ev_isRecording :: "'w \<Rightarrow> bool \<times> 'w"
  ev_isReplaying :: "'w \<Rightarrow> bool \<times> 'w"
  ev_stopRecording :: "'w \<Rightarrow> bool \<times> 'w"
  ev_stopReplay :: "'w \<Rightarrow> bool \<times> 'w"

section \<open>LocalEvrp\<close>

text \<open>The active listener and player are those of a client, by its number.\<close>

record LocalEvrp =
  activeListener :: "nat option"
  activePlayback :: "nat option"
  isRecording :: bool
  isReplaying :: bool
  stopRecordingRequested :: bool

definition localEvrp_init :: LocalEvrp where
  "localEvrp_init =
     \<lparr>activeListener = None, activePlayback = None, isRecording = False, isReplaying = False, stopRecordingRequested = False\<rparr>"

type_synonym 'w lw = "LocalEvrp \<times> 'w"

text \<open>A client of a device: \<open>IClient\<close>. The rest of the environment is as for \<open>Record\<close> and
  \<open>Playback\<close>; \<open>lv_cancelled\<close> is \<open>IsCancelled\<close> of a call's context.\<close>

record 'w IClient =
  cl_serverAddress :: string
  cl_inputListener :: "'w IInputListener"
  cl_playback :: "'w IPlayback"
  cl_destroy :: "'w \<Rightarrow> 'w"

record 'w local_env =
  lv_client :: "nat \<Rightarrow> 'w lw IClient"
  lv_makeClient :: "string \<Rightarrow> MemorySetting \<Rightarrow> 'w \<Rightarrow> nat option \<times> 'w"
  lv_io :: "'w lw IFileSystem"
  lv_tod :: "'w lw \<Rightarrow> int \<times> int"
  lv_sigint :: "'w lw \<Rightarrow> bool"
  lv_cancelled :: "nat \<Rightarrow> 'w lw \<Rightarrow> bool"
  lv_lua :: "'w lw lua_host"

definition getLogLevel :: "any \<Rightarrow> LogLevel \<Rightarrow> LogLevel" where
  "getLogLevel a d = (case a of ALogLevel l \<Rightarrow> l | _ \<Rightarrow> d)"

text \<open>The outer option is \<open>None\<close> when a call never returns, the inner one when there is no device. A
  connection keeps the log service there was before.\<close>

record ConnectedClient =
  cn_client :: nat
  cn_settings :: MemorySetting
  cn_priorLogService :: "log_service option"

definition connectDevice ::
  "'p ILogService \<Rightarrow> ('p log_proc \<times> 'w) local_env \<Rightarrow> MemorySetting option \<Rightarrow> ('p log_proc \<times> 'w) lw
   \<Rightarrow> (ConnectedClient option \<times> ('p log_proc \<times> 'w) lw) option" where
  "connectDevice L env settings = (\<lambda>(le, lg, w).
     case settings of
       None \<Rightarrow> Some (None, le, lg, w)
     | Some s \<Rightarrow>
         let level = getLogLevel (memGet s ''logLevel'') Info in
         (case globalSetLevel L level lg of
            None \<Rightarrow> None
          | Some lg1 \<Rightarrow>
              (case lv_makeClient env (getString (memGet s ''device'') []) s (lg1, w) of
                 (None, lgw) \<Rightarrow> Some (None, le, lgw)
               | (Some c, lg2, w') \<Rightarrow>
                   let s' = memInsert s ''device'' (AString (cl_serverAddress (lv_client env c))) in
                   map_option (\<lambda>lg3. (Some \<lparr>cn_client = c, cn_settings = s', cn_priorLogService = logService lg2\<rparr>, le, lg3, w'))
                     (installLogTee L level lg2))))"

text \<open>The destructor of a connection: the global log service is what it was, then the client goes.\<close>

definition destroyConnected ::
  "('p log_proc \<times> 'w) local_env \<Rightarrow> ConnectedClient \<Rightarrow> ('p log_proc \<times> 'w) lw \<Rightarrow> ('p log_proc \<times> 'w) lw" where
  "destroyConnected env cn = (\<lambda>(le, lg, w).
     cl_destroy (lv_client env (cn_client cn)) (le, removeLogTee (cn_priorLogService cn) lg, w))"

definition rpcContext :: "MemorySetting \<Rightarrow> nat option" where
  "rpcContext s = (case memGet s kUnaryRpcServerContextSettingKey of AUnknown n \<Rightarrow> Some n | _ \<Rightarrow> None)"

definition endRecording :: "LocalEvrp \<Rightarrow> LocalEvrp" where
  "endRecording le = le\<lparr>activeListener := None, isRecording := False, stopRecordingRequested := False\<rparr>"

definition beginRecording :: "nat \<Rightarrow> LocalEvrp \<Rightarrow> LocalEvrp" where
  "beginRecording c le = le\<lparr>stopRecordingRequested := False, isRecording := True, activeListener := Some c\<rparr>"

definition recordEnvOf :: "'w local_env \<Rightarrow> nat \<Rightarrow> nat option \<Rightarrow> 'w lw record_env" where
  "recordEnvOf env c ctx =
     \<lparr>re_io = lv_io env, re_listener = cl_inputListener (lv_client env c), re_tod = lv_tod env,
      re_stop = (\<lambda>st. lv_sigint env st \<or> stopRecordingRequested (fst st)
                    \<or> (case ctx of None \<Rightarrow> False | Some n \<Rightarrow> lv_cancelled env n st))\<rparr>"

text \<open>The objects are destroyed in reverse: the guard ends the recording, then the connection goes. The
  first call of \<open>Record::run\<close> and of \<open>Playback::run\<close> (once they have a path) is that of
  \<open>logService->setLevel\<close>, made here.\<close>

definition localRecord ::
  "'p ILogService \<Rightarrow> ('p log_proc \<times> 'w) local_env \<Rightarrow> MemorySetting option \<Rightarrow> ('p log_proc \<times> 'w) lw
   \<Rightarrow> (int \<times> ('p log_proc \<times> 'w) lw) option" where
  "localRecord L env settings st =
     (case connectDevice L env settings st of
        None \<Rightarrow> None
      | Some (None, st1) \<Rightarrow> Some (1, st1)
      | Some (Some cn, le, lg, w) \<Rightarrow>
          let c = cn_client cn; s = cn_settings cn in
          (case globalSetLevel L (getLogLevel (memGet s ''logLevel'') Info) lg of
             None \<Rightarrow> None
           | Some lg1 \<Rightarrow>
               (case recordRun (recordEnvOf env c (rpcContext s)) (newRecord (Some (memGet s)) True True)
                       (beginRecording c le, lg1, w) of
                  None \<Rightarrow> None
                | Some (code, le', lgw) \<Rightarrow> Some (code, destroyConnected env cn (endRecording le', lgw)))))"

definition localReplay ::
  "'p ILogService \<Rightarrow> ('p log_proc \<times> 'w) local_env \<Rightarrow> MemorySetting option \<Rightarrow> ('p log_proc \<times> 'w) lw
   \<Rightarrow> (int \<times> ('p log_proc \<times> 'w) lw) option" where
  "localReplay L env settings st =
     (case settings of
        None \<Rightarrow> Some (1, st)
      | Some s0 \<Rightarrow>
          if getString (memGet s0 ''playbackPath'') [] = [] then Some (1, st)
          else
            (case connectDevice L env settings st of
               None \<Rightarrow> None
             | Some (None, st1) \<Rightarrow> Some (1, st1)
             | Some (Some cn, le, lg, w) \<Rightarrow>
                 let c = cn_client cn; s = cn_settings cn in
                 (case globalSetLevel L (getLogLevel (memGet s ''logLevel'') Info) lg of
                    None \<Rightarrow> None
                  | Some lg1 \<Rightarrow>
                      (case playbackRun (lv_io env) (lv_lua env) (lv_sigint env) (Some (cl_playback (lv_client env c))) True
                              (playbackPathOf (Some (memGet s))) (le\<lparr>isReplaying := True, activePlayback := Some c\<rparr>, lg1, w) of
                         None \<Rightarrow> None
                       | Some (code, le', lgw) \<Rightarrow>
                           Some (code, destroyConnected env cn (le'\<lparr>activePlayback := None, isReplaying := False\<rparr>, lgw))))))"

definition localStopRecording :: "'w local_env \<Rightarrow> 'w lw \<Rightarrow> bool \<times> 'w lw" where
  "localStopRecording env = (\<lambda>(le, w).
     let le' = le\<lparr>stopRecordingRequested := True\<rparr> in
     (True, case activeListener le' of
              None \<Rightarrow> (le', w)
            | Some c \<Rightarrow> il_cancel (cl_inputListener (lv_client env c)) (le', w)))"

definition localStopReplay :: "'w local_env \<Rightarrow> 'w lw \<Rightarrow> bool \<times> 'w lw" where
  "localStopReplay env = (\<lambda>(le, w).
     case activePlayback le of None \<Rightarrow> (True, le, w) | Some c \<Rightarrow> pb_stopPlayback (cl_playback (lv_client env c)) (le, w))"

definition localEvrp :: "'p ILogService \<Rightarrow> ('p log_proc \<times> 'w) local_env \<Rightarrow> ('p log_proc \<times> 'w) lw Evrp" where
  "localEvrp L env =
     \<lparr>ev_record = localRecord L env, ev_replay = localReplay L env, ev_isRecording = (\<lambda>st. (isRecording (fst st), st)),
      ev_isReplaying = (\<lambda>st. (isReplaying (fst st), st)), ev_stopRecording = localStopRecording env,
      ev_stopReplay = localStopReplay env\<rparr>"

section \<open>The gRPC service\<close>

text \<open>A request as the fields of its \<open>google.protobuf.Struct\<close>, and the settings read from it.\<close>

type_synonym proto_Struct = "(string \<times> pvalue) list"

definition protoFields :: "proto_Struct \<Rightarrow> (string \<times> any) list" where
  "protoFields req =
     (let f = settingsFromProto Map.empty (map_of req) in
      map (\<lambda>k. (k, the (f k))) (filter (\<lambda>k. f k \<noteq> None) (map fst req)))"

definition mergeIntoMemorySetting :: "MemorySetting \<Rightarrow> (string \<times> any) list \<Rightarrow> MemorySetting" where
  "mergeIntoMemorySetting settings es = insertAll memInsert settings es"

definition insertContext :: "nat option \<Rightarrow> MemorySetting \<Rightarrow> MemorySetting" where
  "insertContext rpcCtx s =
     (case rpcCtx of None \<Rightarrow> s | Some n \<Rightarrow> memInsert s kUnaryRpcServerContextSettingKey (AUnknown n))"

definition getKinds :: "any \<Rightarrow> DeviceKind list" where
  "getKinds a = (case a of AKinds ks \<Rightarrow> ks | _ \<Rightarrow> [])"

definition recordSettings :: "nat option \<Rightarrow> proto_Struct \<Rightarrow> MemorySetting" where
  "recordSettings rpcCtx req =
     (let s0 = mergeIntoMemorySetting [] (protoFields req);
          s1 = memInsert s0 ''program'' (AString ''evrp-grpc'');
          s2 = memInsert s1 ''recording'' (ABool True);
          s3 = memInsert s2 ''playback'' (ABool False);
          kinds = getKinds (memGet s3 ''kinds'');
          kinds' = (if kinds = [] then [kTouchpad, kTouchscreen, kMouse, kKeyboard] else kinds);
          s4 = memInsert s3 ''kinds'' (AKinds kinds')
      in insertContext rpcCtx s4)"

definition replaySettings :: "proto_Struct \<Rightarrow> MemorySetting" where
  "replaySettings req =
     (let s0 = mergeIntoMemorySetting [] (protoFields req);
          s1 = memInsert s0 ''program'' (AString ''evrp-grpc'');
          s2 = memInsert s1 ''recording'' (ABool False)
      in memInsert s2 ''playback'' (ABool True))"

text \<open>A handler's result is the status and what it set in the response.\<close>

definition svcRecord ::
  "'w Evrp \<Rightarrow> server_context \<Rightarrow> nat option \<Rightarrow> int \<Rightarrow> proto_Struct \<Rightarrow> SessionRegistry \<times> 'w
   \<Rightarrow> ((grpc_status \<times> proto_StatusCode option) \<times> SessionRegistry \<times> 'w) option" where
  "svcRecord ev ctx rpcCtx now req = (\<lambda>(reg, w).
     let (st, reg') = requireBusinessSession ctx now reg in
     if \<not> is_ok st then Some ((st, None), reg', w)
     else
       (case ev_record ev (Some (recordSettings rpcCtx req)) w of
          None \<Rightarrow> None
        | Some (code, w') \<Rightarrow>
            Some ((grpc_ok, Some \<lparr>p_code_status = code, p_message = (if code \<noteq> 0 then ''record failed'' else [])\<rparr>), reg', w')))"

definition svcReplay ::
  "'w Evrp \<Rightarrow> server_context \<Rightarrow> nat option \<Rightarrow> int \<Rightarrow> proto_Struct \<Rightarrow> SessionRegistry \<times> 'w
   \<Rightarrow> ((grpc_status \<times> proto_StatusCode option) \<times> SessionRegistry \<times> 'w) option" where
  "svcReplay ev ctx rpcCtx now req = (\<lambda>(reg, w).
     let (st, reg') = requireBusinessSession ctx now reg in
     if \<not> is_ok st then Some ((st, None), reg', w)
     else
       let s = replaySettings req in
       if getString (memGet s ''playbackPath'') [] = [] then
         Some ((status INVALID_ARGUMENT ''playbackPath is required'',
                Some \<lparr>p_code_status = 1, p_message = ''playbackPath is required''\<rparr>), reg', w)
       else
         (case ev_replay ev (Some (insertContext rpcCtx s)) w of
            None \<Rightarrow> None
          | Some (code, w') \<Rightarrow>
              Some ((grpc_ok, Some \<lparr>p_code_status = code, p_message = (if code \<noteq> 0 then ''replay failed'' else [])\<rparr>), reg', w')))"

definition svcIsRecording ::
  "'w Evrp \<Rightarrow> server_context \<Rightarrow> int \<Rightarrow> SessionRegistry \<times> 'w \<Rightarrow> (grpc_status \<times> bool option) \<times> SessionRegistry \<times> 'w" where
  "svcIsRecording ev ctx now = (\<lambda>(reg, w).
     let (st, reg') = requireBusinessSession ctx now reg in
     if \<not> is_ok st then ((st, None), reg', w) else let (b, w') = ev_isRecording ev w in ((grpc_ok, Some b), reg', w'))"

definition svcIsReplaying ::
  "'w Evrp \<Rightarrow> server_context \<Rightarrow> int \<Rightarrow> SessionRegistry \<times> 'w \<Rightarrow> (grpc_status \<times> bool option) \<times> SessionRegistry \<times> 'w" where
  "svcIsReplaying ev ctx now = (\<lambda>(reg, w).
     let (st, reg') = requireBusinessSession ctx now reg in
     if \<not> is_ok st then ((st, None), reg', w) else let (b, w') = ev_isReplaying ev w in ((grpc_ok, Some b), reg', w'))"

definition svcEvrpStopRecording ::
  "'w Evrp \<Rightarrow> server_context \<Rightarrow> int \<Rightarrow> SessionRegistry \<times> 'w
   \<Rightarrow> (grpc_status \<times> proto_StatusCode option) \<times> SessionRegistry \<times> 'w" where
  "svcEvrpStopRecording ev ctx now = (\<lambda>(reg, w).
     let (st, reg') = requireBusinessSession ctx now reg in
     if \<not> is_ok st then ((st, None), reg', w)
     else let (ok, w') = ev_stopRecording ev w
          in ((grpc_ok, Some \<lparr>p_code_status = (if ok then 0 else 1), p_message = (if ok then [] else ''stopRecording failed'')\<rparr>), reg', w'))"

definition svcEvrpStopReplay ::
  "'w Evrp \<Rightarrow> server_context \<Rightarrow> int \<Rightarrow> SessionRegistry \<times> 'w
   \<Rightarrow> (grpc_status \<times> proto_StatusCode option) \<times> SessionRegistry \<times> 'w" where
  "svcEvrpStopReplay ev ctx now = (\<lambda>(reg, w).
     let (st, reg') = requireBusinessSession ctx now reg in
     if \<not> is_ok st then ((st, None), reg', w)
     else let (ok, w') = ev_stopReplay ev w
          in ((grpc_ok, Some \<lparr>p_code_status = (if ok then 0 else 1), p_message = (if ok then [] else ''stopReplay failed'')\<rparr>), reg', w'))"

section \<open>The client's proxy\<close>

text \<open>What the generated stub does; a call may never return.\<close>

record 'w evrp_stub =
  es_Record :: "metadata \<Rightarrow> proto_Struct \<Rightarrow> 'w \<Rightarrow> ((grpc_status \<times> proto_StatusCode) \<times> 'w) option"
  es_Replay :: "metadata \<Rightarrow> proto_Struct \<Rightarrow> 'w \<Rightarrow> ((grpc_status \<times> proto_StatusCode) \<times> 'w) option"
  es_IsRecording :: "metadata \<Rightarrow> 'w \<Rightarrow> (grpc_status \<times> bool) \<times> 'w"
  es_IsReplaying :: "metadata \<Rightarrow> 'w \<Rightarrow> (grpc_status \<times> bool) \<times> 'w"
  es_StopRecording :: "metadata \<Rightarrow> 'w \<Rightarrow> (grpc_status \<times> proto_StatusCode) \<times> 'w"
  es_StopReplay :: "metadata \<Rightarrow> 'w \<Rightarrow> (grpc_status \<times> proto_StatusCode) \<times> 'w"

record RemoteEvrp =
  re_sessionId :: string
  re_leaseTimeoutMs :: int

definition newRemoteEvrp :: "string \<Rightarrow> int \<Rightarrow> RemoteEvrp" where
  "newRemoteEvrp sessionId lease = \<lparr>re_sessionId = sessionId, re_leaseTimeoutMs = (if lease > 0 then lease else 3000)\<rparr>"

text \<open>The time between two heartbeats, in milliseconds.\<close>

definition heartbeatIntervalMs :: "RemoteEvrp \<Rightarrow> int" where
  "heartbeatIntervalMs self = max 200 ((re_leaseTimeoutMs self * 2) sdiv 5)"

text \<open>The heartbeat thread; \<open>stop\<close> reads \<open>heartbeatStop_\<close>, which the destructor sets.\<close>

partial_function (option) heartbeatLoop ::
  "(metadata \<Rightarrow> 'w \<Rightarrow> grpc_status \<times> 'w) \<Rightarrow> ('w \<Rightarrow> bool) \<Rightarrow> (int \<Rightarrow> 'w \<Rightarrow> 'w) \<Rightarrow> RemoteEvrp \<Rightarrow> 'w \<Rightarrow> 'w option" where
  "heartbeatLoop rpc stop sleep self w =
     (if stop w then Some w
      else let w1 = sleep (heartbeatIntervalMs self) w in
           if stop w1 then Some w1
           else heartbeatLoop rpc stop sleep self (snd (sessionHeartbeat rpc (re_sessionId self) w1)))"

definition requestOfSettings :: "MemorySetting \<Rightarrow> proto_Struct" where
  "requestOfSettings s =
     (let f = settingsToProto (memSnapshot s) in
      map (\<lambda>k. (k, the (f k))) (filter (\<lambda>k. f k \<noteq> None) (memKeys s)))"

definition remoteRecord :: "'w evrp_stub \<Rightarrow> RemoteEvrp \<Rightarrow> MemorySetting option \<Rightarrow> 'w \<Rightarrow> (int \<times> 'w) option" where
  "remoteRecord stub self settings w =
     (case settings of
        None \<Rightarrow> Some (1, w)
      | Some s \<Rightarrow>
          (case es_Record stub (addSessionMetadata [] (re_sessionId self)) (requestOfSettings s) w of
             None \<Rightarrow> None
           | Some ((st, resp), w') \<Rightarrow> Some (if \<not> is_ok st then 1 else p_code_status resp, w')))"

definition remoteReplay :: "'w evrp_stub \<Rightarrow> RemoteEvrp \<Rightarrow> MemorySetting option \<Rightarrow> 'w \<Rightarrow> (int \<times> 'w) option" where
  "remoteReplay stub self settings w =
     (case settings of
        None \<Rightarrow> Some (1, w)
      | Some s \<Rightarrow>
          (case es_Replay stub (addSessionMetadata [] (re_sessionId self)) (requestOfSettings s) w of
             None \<Rightarrow> None
           | Some ((st, resp), w') \<Rightarrow> Some (if \<not> is_ok st then 1 else p_code_status resp, w')))"

definition remoteIsRecording :: "'w evrp_stub \<Rightarrow> RemoteEvrp \<Rightarrow> 'w \<Rightarrow> bool \<times> 'w" where
  "remoteIsRecording stub self w =
     (let ((st, v), w') = es_IsRecording stub (addSessionMetadata [] (re_sessionId self)) w in (is_ok st \<and> v, w'))"

definition remoteIsReplaying :: "'w evrp_stub \<Rightarrow> RemoteEvrp \<Rightarrow> 'w \<Rightarrow> bool \<times> 'w" where
  "remoteIsReplaying stub self w =
     (let ((st, v), w') = es_IsReplaying stub (addSessionMetadata [] (re_sessionId self)) w in (is_ok st \<and> v, w'))"

definition remoteStopRecording :: "'w evrp_stub \<Rightarrow> RemoteEvrp \<Rightarrow> 'w \<Rightarrow> bool \<times> 'w" where
  "remoteStopRecording stub self w =
     (let ((st, resp), w') = es_StopRecording stub (addSessionMetadata [] (re_sessionId self)) w
      in (is_ok st \<and> p_code_status resp = 0, w'))"

definition remoteStopReplay :: "'w evrp_stub \<Rightarrow> RemoteEvrp \<Rightarrow> 'w \<Rightarrow> bool \<times> 'w" where
  "remoteStopReplay stub self w =
     (let ((st, resp), w') = es_StopReplay stub (addSessionMetadata [] (re_sessionId self)) w
      in (is_ok st \<and> p_code_status resp = 0, w'))"

definition remoteEvrp :: "'w evrp_stub \<Rightarrow> RemoteEvrp \<Rightarrow> 'w Evrp" where
  "remoteEvrp stub self =
     \<lparr>ev_record = remoteRecord stub self, ev_replay = remoteReplay stub self, ev_isRecording = remoteIsRecording stub self,
      ev_isReplaying = remoteIsReplaying stub self, ev_stopRecording = remoteStopRecording stub self,
      ev_stopReplay = remoteStopReplay stub self\<rparr>"

text \<open>The destructor's \<open>sessionDisconnect\<close>, for a proxy with a channel.\<close>

definition destroyRemoteEvrp :: "(metadata \<Rightarrow> 'w \<Rightarrow> grpc_status \<times> 'w) \<Rightarrow> RemoteEvrp \<Rightarrow> 'w \<Rightarrow> 'w" where
  "destroyRemoteEvrp rpc self w =
     (if re_sessionId self \<noteq> [] then snd (sessionDisconnect rpc (re_sessionId self) w) else w)"

text \<open>\<open>connectRemoteEvrp\<close> and \<open>makeClient\<close> on a given address; \<open>channel\<close> is whether
  \<open>makeGrpcClientChannel\<close> gives one.\<close>

definition connectRemoteEvrp :: "('w \<Rightarrow> (grpc_status \<times> ConnectResponse) \<times> 'w) \<Rightarrow> 'w \<Rightarrow> RemoteEvrp option \<times> 'w" where
  "connectRemoteEvrp rpc w =
     (let ((ok, info), w') = sessionConnect rpc w in
      if \<not> ok \<or> si_sessionId info = [] then (None, w')
      else (Some (newRemoteEvrp (si_sessionId info) (si_leaseTimeoutMs info)), w'))"

definition makeEvrpClient ::
  "(string \<Rightarrow> bool) \<Rightarrow> (string \<Rightarrow> 'w \<Rightarrow> (grpc_status \<times> ConnectResponse) \<times> 'w) \<Rightarrow> string \<Rightarrow> 'w \<Rightarrow> (string \<times> RemoteEvrp) option \<times> 'w" where
  "makeEvrpClient channel rpc address w =
     (if address = [] then (None, w)
      else if \<not> channel address then (None, w)
      else let (e, w') = connectRemoteEvrp (rpc address) w in (map_option (Pair address) e, w'))"

text \<open>\<open>resolveHostGrpcChannel\<close>: the address of the flag, or the first target found with a channel.\<close>

definition resolveHostGrpcChannel ::
  "(string \<Rightarrow> bool) \<Rightarrow> ('w \<Rightarrow> (string list \<times> 'w) option) \<Rightarrow> string \<Rightarrow> 'w \<Rightarrow> (string option \<times> 'w) option" where
  "resolveHostGrpcChannel channel discover device w =
     (if device = [] then
        map_option (\<lambda>(targets, w'). (find channel targets, w')) (discover w)
      else Some (if channel device then Some device else None, w))"

definition makeDefaultClient ::
  "(string \<Rightarrow> bool) \<Rightarrow> ('w \<Rightarrow> (string list \<times> 'w) option) \<Rightarrow> (string \<Rightarrow> 'w \<Rightarrow> (grpc_status \<times> ConnectResponse) \<times> 'w)
   \<Rightarrow> string \<Rightarrow> 'w \<Rightarrow> ((string \<times> RemoteEvrp) option \<times> 'w) option" where
  "makeDefaultClient channel discover rpc device w =
     (case resolveHostGrpcChannel channel discover device w of
        None \<Rightarrow> None
      | Some (None, w') \<Rightarrow> Some (None, w')
      | Some (Some target, w') \<Rightarrow>
          Some (let (e, w'') = connectRemoteEvrp (rpc target) w' in (map_option (Pair target) e, w'')))"

text \<open>The makers of a bare proxy; a channel is the target it leads to, a null pointer is \<open>None\<close>.\<close>

definition createGrpcChannel ::
  "(string \<Rightarrow> bool) \<Rightarrow> ('w \<Rightarrow> (string list \<times> 'w) option) \<Rightarrow> string \<Rightarrow> 'w \<Rightarrow> (string option \<times> 'w) option" where
  "createGrpcChannel channel discover device w = resolveHostGrpcChannel channel discover device w"

definition makeEvrp ::
  "(string \<Rightarrow> 'w \<Rightarrow> (grpc_status \<times> ConnectResponse) \<times> 'w) \<Rightarrow> string option \<Rightarrow> 'w \<Rightarrow> RemoteEvrp option \<times> 'w" where
  "makeEvrp rpc channel w = (case channel of None \<Rightarrow> (None, w) | Some target \<Rightarrow> connectRemoteEvrp (rpc target) w)"

definition createClient ::
  "(string \<Rightarrow> bool) \<Rightarrow> ('w \<Rightarrow> (string list \<times> 'w) option) \<Rightarrow> (string \<Rightarrow> 'w \<Rightarrow> (grpc_status \<times> ConnectResponse) \<times> 'w)
   \<Rightarrow> string \<Rightarrow> 'w \<Rightarrow> (RemoteEvrp option \<times> 'w) option" where
  "createClient channel discover rpc device w =
     (case resolveHostGrpcChannel channel discover device w of
        None \<Rightarrow> None
      | Some (None, w') \<Rightarrow> Some (None, w')
      | Some (target, w') \<Rightarrow> Some (makeEvrp rpc target w'))"

text \<open>A stub joined to the service in the same world: the calls of one peer at one time.\<close>

definition directStub :: "'w Evrp \<Rightarrow> string \<Rightarrow> nat option \<Rightarrow> int \<Rightarrow> (SessionRegistry \<times> 'w) evrp_stub" where
  "directStub ev peer rpcCtx now =
     (let ctx = (\<lambda>md. \<lparr>ctx_metadata = md, ctx_peer = peer\<rparr>);
          resp = (\<lambda>r. case r of None \<Rightarrow> \<lparr>p_code_status = 0, p_message = []\<rparr> | Some x \<Rightarrow> x)
      in \<lparr>es_Record = (\<lambda>md req w. map_option (\<lambda>((st, r), w'). ((st, resp r), w')) (svcRecord ev (ctx md) rpcCtx now req w)),
          es_Replay = (\<lambda>md req w. map_option (\<lambda>((st, r), w'). ((st, resp r), w')) (svcReplay ev (ctx md) rpcCtx now req w)),
          es_IsRecording = (\<lambda>md w. let ((st, b), w') = svcIsRecording ev (ctx md) now w in ((st, b = Some True), w')),
          es_IsReplaying = (\<lambda>md w. let ((st, b), w') = svcIsReplaying ev (ctx md) now w in ((st, b = Some True), w')),
          es_StopRecording = (\<lambda>md w. let ((st, r), w') = svcEvrpStopRecording ev (ctx md) now w in ((st, resp r), w')),
          es_StopReplay = (\<lambda>md w. let ((st, r), w') = svcEvrpStopReplay ev (ctx md) now w in ((st, resp r), w'))\<rparr>)"

section \<open>Lemmas\<close>

text \<open>The three makers agree: the proxy of \<open>createClient\<close> is that of \<open>makeClient\<close>, and is the one
  \<open>makeEvrp\<close> makes on the channel of \<open>createGrpcChannel\<close>.\<close>

lemma createClient_makers:
  "createClient channel discover rpc device w
     = map_option (apfst (map_option snd)) (makeDefaultClient channel discover rpc device w)"
  "createClient channel discover rpc device w
     = map_option (\<lambda>(ch, w'). makeEvrp rpc ch w') (createGrpcChannel channel discover device w)"
  by (auto simp: createClient_def makeDefaultClient_def createGrpcChannel_def makeEvrp_def split_beta option.map_comp comp_def
      option.map_ident split: option.split)

lemma map_of_tabulate:
  "map_of (map (\<lambda>k. (k, the (f k))) (filter (\<lambda>k. f k \<noteq> None) ks)) k = (if k \<in> set ks then f k else None)"
  by (induction ks) auto

lemma map_of_rev_tabulate:
  "map_of (rev (map (\<lambda>k. (k, the (f k))) (filter (\<lambda>k. f k \<noteq> None) ks))) k = (if k \<in> set ks then f k else None)"
proof -
  have "rev (map (\<lambda>k. (k, the (f k))) (filter (\<lambda>k. f k \<noteq> None) ks)) = map (\<lambda>k. (k, the (f k))) (filter (\<lambda>k. f k \<noteq> None) (rev ks))"
    by (simp add: rev_map rev_filter)
  then show ?thesis using map_of_tabulate [of f "rev ks" k] by simp
qed

lemma map_of_key: "map_of xs k = Some v \<Longrightarrow> k \<in> fst ` set xs"
  by (induction xs) (auto split: if_splits)

lemma getKinds_AKinds [simp]: "getKinds (AKinds ks) = ks"
  by (simp add: getKinds_def)

lemma requestOfSettings_map: "map_of (requestOfSettings s) = settingsToProto (memSnapshot s)"
proof
  fix k
  show "map_of (requestOfSettings s) k = settingsToProto (memSnapshot s) k"
    unfolding requestOfSettings_def Let_def map_of_tabulate
    by (cases "map_of s k") (simp_all add: memKeys_def settingsToProto_def memSnapshot_def map_of_key)
qed

lemma merged_snapshot:
  "memSnapshot (mergeIntoMemorySetting [] (protoFields req)) = settingsFromProto Map.empty (map_of req)"
proof
  fix k
  have "memSnapshot (mergeIntoMemorySetting [] (protoFields req)) k = map_of (rev (protoFields req)) k"
    using mem.snapshot_insAll [of "[]" "protoFields req"]
    by (simp add: mergeIntoMemorySetting_def mem_wf_def memSnapshot_def)
  also have "\<dots> = settingsFromProto Map.empty (map_of req) k"
    unfolding protoFields_def Let_def map_of_rev_tabulate
    by (cases "map_of req k") (simp_all add: settingsFromProto_def map_of_key)
  finally show "memSnapshot (mergeIntoMemorySetting [] (protoFields req)) k = settingsFromProto Map.empty (map_of req) k" .
qed

lemma merged_wf: "mem_wf (mergeIntoMemorySetting [] es)"
  unfolding mergeIntoMemorySetting_def by (rule mem.wf_insAll) (simp add: mem_wf_def)

text \<open>An entry of the client's settings as the server reads it.\<close>

definition arrives :: "MemorySetting \<Rightarrow> string \<Rightarrow> any" where
  "arrives s k = (case settingsFromProto Map.empty (settingsToProto (memSnapshot s)) k of None \<Rightarrow> AEmpty | Some a \<Rightarrow> a)"

lemma merged_get: "memGet (mergeIntoMemorySetting [] (protoFields (requestOfSettings s))) k = arrives s k"
  using merged_snapshot [of "requestOfSettings s"]
  by (simp add: memGet_def arrives_def requestOfSettings_map memSnapshot_def [symmetric])

lemma arrives_portable: "memSnapshot s k = Some a \<Longrightarrow> portable k a \<Longrightarrow> arrives s k = a"
  by (simp add: arrives_def portable_entry)

lemma arrives_absent: "memSnapshot s k = None \<Longrightarrow> arrives s k = AEmpty"
  by (simp add: arrives_def settingsFromProto_def settingsToProto_def)

lemmas mem_simps = mem.get_ins mem_wf_insert merged_wf merged_get

lemma recordSettings_get:
  assumes "k \<notin> {''program'', ''recording'', ''playback'', ''kinds'', kUnaryRpcServerContextSettingKey}"
  shows "memGet (recordSettings rpcCtx (requestOfSettings s)) k = arrives s k"
  using assms by (cases rpcCtx) (simp_all add: recordSettings_def insertContext_def mem_simps Let_def)

lemma recordSettings_kinds:
  "getKinds (memGet (recordSettings rpcCtx (requestOfSettings s)) ''kinds'') =
    (let ks = getKinds (arrives s ''kinds'') in if ks = [] then [kTouchpad, kTouchscreen, kMouse, kKeyboard] else ks)"
  by (cases rpcCtx) (simp_all add: recordSettings_def insertContext_def mem_simps Let_def)

text \<open>The \<open>Record\<close> built from the settings that arrive is the one that the client's settings
  describe.\<close>

lemma newRecord_kinds:
  "newRecord (Some f) True True =
     \<lparr>rc_listener = True, rc_fs = True, rc_kinds = getKinds (f ''kinds''), rc_outputPath = getString (f ''outputPath'') [],
      rc_mode = keyboardCtrlCFilterModeFromLabel (getString (f ''keyboardCtrlCFilter'') ''ending'')\<rparr>"
  by (simp add: newRecord_def getKinds_def)

definition sendable :: "MemorySetting \<Rightarrow> bool" where
  "sendable s \<longleftrightarrow> (\<forall>k a. memSnapshot s k = Some a \<longrightarrow> portable k a \<or> (k = ''kinds'' \<and> a = AKinds []))"

lemma sendable_arrives:
  assumes "sendable s"
  shows "k \<noteq> ''kinds'' \<Longrightarrow> arrives s k = memGet s k" and "getKinds (arrives s ''kinds'') = getKinds (memGet s ''kinds'')"
proof -
  have g: "memGet s k = (case memSnapshot s k of None \<Rightarrow> AEmpty | Some a \<Rightarrow> a)" for k
    by (simp add: memGet_def memSnapshot_def)
  have p: "memSnapshot s k = Some a \<Longrightarrow> portable k a \<or> (k = ''kinds'' \<and> a = AKinds [])" for k a
    using assms by (simp add: sendable_def)
  show "k \<noteq> ''kinds'' \<Longrightarrow> arrives s k = memGet s k"
    using p [of k] arrives_portable [of s k] arrives_absent [of s k] by (cases "memSnapshot s k") (auto simp: g)
  show "getKinds (arrives s ''kinds'') = getKinds (memGet s ''kinds'')"
  proof (cases "memSnapshot s ''kinds''")
    case (Some a)
    show ?thesis
    proof (cases "a = AKinds []")
      case True
      then have "arrives s ''kinds'' = AEmpty"
        using Some by (simp add: arrives_def settingsFromProto_def settingsToProto_def has_value_def anyToProtoValue_def
            appendKindsFromList_def)
      then show ?thesis using True Some by (simp add: g getKinds_def)
    qed (use p [OF Some] arrives_portable [OF Some] Some in \<open>auto simp: g\<close>)
  qed (use arrives_absent in \<open>simp add: g\<close>)
qed

lemma remoteRecord_direct:
  assumes "requireBusinessSession \<lparr>ctx_metadata = addSessionMetadata [] (re_sessionId self), ctx_peer = peer\<rparr> now reg = (st, reg')"
    and "is_ok st"
  shows "remoteRecord (directStub ev peer c now) self (Some s) (reg, w) =
    map_option (\<lambda>(code, w'). (code, reg', w')) (ev_record ev (Some (recordSettings c (requestOfSettings s))) w)"
  using assms
  by (auto simp: remoteRecord_def directStub_def svcRecord_def Let_def grpc_ok_def is_ok_def split: option.split)

text \<open>The interval of the heartbeats against the lease.\<close>

lemma two_fifths: "500 \<le> (l :: int) \<Longrightarrow> 200 \<le> l * 2 div 5 \<and> 2 * (l * 2 div 5) \<le> l"
  by presburger

lemma heartbeat_interval:
  assumes "500 \<le> re_leaseTimeoutMs self"
  shows "200 \<le> heartbeatIntervalMs self \<and> 2 * heartbeatIntervalMs self \<le> re_leaseTimeoutMs self"
proof -
  have "(re_leaseTimeoutMs self * 2) sdiv 5 = (re_leaseTimeoutMs self * 2) div 5"
    using assms by (simp add: signed_divide_int_def)
  then show ?thesis using two_fifths [OF assms] by (simp add: heartbeatIntervalMs_def)
qed

section \<open>Properties\<close>

text \<open>What a client asks for is what the server records: a \<open>record\<close> call of a client with a live
  session runs the server's \<open>record\<close> once and returns its code, and the settings it runs with
  give the output file, the Ctrl-C filter and the device kinds of the client's settings, all four
  kinds when the client names none.\<close>

theorem remote_record_settings:
  assumes "requireBusinessSession \<lparr>ctx_metadata = addSessionMetadata [] (re_sessionId self), ctx_peer = peer\<rparr> now reg = (st, reg')"
    and "is_ok st" and "sendable s"
  shows "\<exists>S. remoteRecord (directStub ev peer c now) self (Some s) (reg, w) =
      map_option (\<lambda>(code, w'). (code, reg', w')) (ev_record ev (Some S) w)
    \<and> newRecord (Some (memGet S)) True True = (newRecord (Some (memGet s)) True True)
        \<lparr>rc_kinds := (let ks = getKinds (memGet s ''kinds'') in if ks = [] then [kTouchpad, kTouchscreen, kMouse, kKeyboard] else ks)\<rparr>"
  using remoteRecord_direct [OF assms(1,2), of ev c s w]
  by (intro exI [of _ "recordSettings c (requestOfSettings s)"])
     (simp add: newRecord_kinds recordSettings_get recordSettings_kinds sendable_arrives [OF assms(3)])

theorem remote_record_settings_witness:
  "\<exists>S. remoteRecord (directStub \<lparr>ev_record = (\<lambda>s w. Some (0, w + 1)), ev_replay = (\<lambda>s w. None), ev_isRecording = Pair False,
         ev_isReplaying = Pair False, ev_stopRecording = Pair True, ev_stopReplay = Pair True\<rparr> ''p'' None 5)
       \<lparr>re_sessionId = ''id'', re_leaseTimeoutMs = 3000\<rparr> (Some [(''outputPath'', AString ''o.txt'')])
       (\<lparr>leaseTimeoutMs = 3000, sessions = [''id'' \<mapsto> \<lparr>sr_peer = ''p'', sr_lastHeartbeat = 0\<rparr>]\<rparr>, 0 :: int)
     = Some (0, \<lparr>leaseTimeoutMs = 3000, sessions = [''id'' \<mapsto> \<lparr>sr_peer = ''p'', sr_lastHeartbeat = 5\<rparr>]\<rparr>, 1)
     \<and> rc_outputPath (newRecord (Some (memGet S)) True True) = ''o.txt''"
proof -
  let ?reg = "\<lparr>leaseTimeoutMs = 3000, sessions = [''id'' \<mapsto> \<lparr>sr_peer = ''p'', sr_lastHeartbeat = 0\<rparr>]\<rparr>"
  let ?reg' = "\<lparr>leaseTimeoutMs = 3000, sessions = [''id'' \<mapsto> \<lparr>sr_peer = ''p'', sr_lastHeartbeat = 5\<rparr>]\<rparr>"
  let ?self = "\<lparr>re_sessionId = ''id'', re_leaseTimeoutMs = 3000\<rparr>"
  have 1: "requireBusinessSession \<lparr>ctx_metadata = addSessionMetadata [] (re_sessionId ?self), ctx_peer = ''p''\<rparr> 5 ?reg = (grpc_ok, ?reg')"
    by (simp add: requireBusinessSession_def sessionIdFromContext_def orEmpty_def requireActiveBusinessCall_def
        addSessionMetadata_def expired_def)
  have 2: "is_ok grpc_ok" by (simp add: is_ok_def grpc_ok_def)
  have 3: "sendable [(''outputPath'', AString ''o.txt'')]" by (simp add: sendable_def memSnapshot_def)
  show ?thesis
    using remote_record_settings [OF 1 2 3, where w = "0 :: int" and c = None and ev =
      "\<lparr>ev_record = (\<lambda>s w. Some (0, w + 1)), ev_replay = (\<lambda>s w. None), ev_isRecording = Pair False,
         ev_isReplaying = Pair False, ev_stopRecording = Pair True, ev_stopReplay = Pair True\<rparr>"]
    by (auto simp: newRecord_kinds memGet_def getString_def)
qed


text \<open>A machine with a device that refuses to listen.\<close>

definition demo_local :: "(string list log_proc \<times> nat) local_env" where
  "demo_local =
     \<lparr>lv_client = (\<lambda>c. \<lparr>cl_serverAddress = ''dev:1'',
        cl_inputListener = \<lparr>il_start = (\<lambda>ks w. (False, w)), il_wait = (\<lambda>t w. (False, w)), il_read = Pair [], il_cancel = id\<rparr>,
        cl_playback = \<lparr>pb_upload = (\<lambda>es w. ((False, \<lparr>sc_code = 1, sc_message = []\<rparr>), w)),
          pb_playback = Pair (False, \<lparr>sc_code = 1, sc_message = []\<rparr>), pb_stopPlayback = Pair True\<rparr>,
        cl_destroy = id\<rparr>),
      lv_makeClient = (\<lambda>a s w. (Some 0, w)),
      lv_io = \<lparr>io_open = (\<lambda>p f m w. (-1, w)), io_close = (\<lambda>fd w. (0, w)), io_read = (\<lambda>fd k w. ((0, []), w)),
        io_write = (\<lambda>fd d w. (-1, w)), io_poll = (\<lambda>fds t w. ((0, []), w)), io_fsync = (\<lambda>fd w. (0, w)),
        io_fflushStdout = (\<lambda>w. (0, w)), io_errno = (\<lambda>w. 0), io_set_errno = (\<lambda>e w. w)\<rparr>,
      lv_tod = (\<lambda>w. (0, 0)), lv_sigint = (\<lambda>w. False),
      lv_cancelled = (\<lambda>c w. False),
      lv_lua = \<lparr>lh_lua = (\<lambda>f s. Done 3), lh_newstate = True, lh_cursor = None, lh_now = (\<lambda>w. (0, w))\<rparr>\<rparr>"


text \<open>The heartbeats of a client tolerate the loss of one: with a lease of at least 500
  milliseconds, a heartbeat that reaches the server within two intervals of the last accepted one
  is accepted and renews the session.\<close>

theorem heartbeat_tolerates_loss:
  assumes "500 \<le> leaseTimeoutMs reg" and "self = newRemoteEvrp sid (leaseTimeoutMs reg)" and "sid \<noteq> []"
    and "sessions reg sid = Some r" and "sr_peer r = peer"
    and "now \<le> sr_lastHeartbeat r + 2 * heartbeatIntervalMs self * 1000000"
  shows "heartbeat sid peer now reg = (grpc_ok, reg\<lparr>sessions := (sessions reg)(sid \<mapsto> r\<lparr>sr_lastHeartbeat := now\<rparr>)\<rparr>)"
proof -
  have "re_leaseTimeoutMs self = leaseTimeoutMs reg" using assms(1,2) by (simp add: newRemoteEvrp_def)
  then have "2 * heartbeatIntervalMs self \<le> leaseTimeoutMs reg" using heartbeat_interval [of self] assms(1) by simp
  then have "\<not> expired reg r now" using assms(6) by (simp add: expired_def)
  then show ?thesis using assms(3-5) by (simp add: heartbeat_def)
qed

theorem heartbeat_tolerates_loss_witness:
  "heartbeat ''id'' ''p'' 2400000000 \<lparr>leaseTimeoutMs = 3000, sessions = [''id'' \<mapsto> \<lparr>sr_peer = ''p'', sr_lastHeartbeat = 0\<rparr>]\<rparr>
   = (grpc_ok, \<lparr>leaseTimeoutMs = 3000, sessions = [''id'' \<mapsto> \<lparr>sr_peer = ''p'', sr_lastHeartbeat = 2400000000\<rparr>]\<rparr>)"
  using heartbeat_tolerates_loss [of "\<lparr>leaseTimeoutMs = 3000, sessions = [''id'' \<mapsto> \<lparr>sr_peer = ''p'', sr_lastHeartbeat = 0\<rparr>]\<rparr>"
      "newRemoteEvrp ''id'' 3000" "''id''" "\<lparr>sr_peer = ''p'', sr_lastHeartbeat = 0\<rparr>" "''p''" 2400000000]
  by (simp add: heartbeatIntervalMs_def newRemoteEvrp_def)

end
