(* ===== verification/CommandLine.thy ===== *)
theory CommandLine
  imports EvrpServer
begin

text \<open>
  The command lines: \<open>evrp-client/argparser.cpp\<close> with \<open>runner.cpp\<close> and \<open>main.cpp\<close>, and
  \<open>evrp-server/argparser.cpp\<close> with \<open>main.cpp\<close>. \<open>gflags\<close> is a parameter, from the reset flags and
  the normalised arguments to the values of the flags. \<open>argv\<close> entries that are null are empty
  strings here.
\<close>

section \<open>Arguments of the client\<close>

text \<open>\<open>normalizeLegacyArgs\<close> from a position on; the two cases that erase an element look at the
  same position again.\<close>

function normalizeFrom :: "string list \<Rightarrow> string list" where
  "normalizeFrom [] = []"
| "normalizeFrom (x # xs) =
     (if x = ''-r'' then
        (case xs of
           [] \<Rightarrow> [''--record'']
         | next # rest \<Rightarrow>
             if next \<noteq> [] \<and> hd next \<noteq> CHR ''-'' then ''--record'' # (''--output='' @ next) # normalizeFrom rest
             else ''--record'' # normalizeFrom xs)
      else if x = ''-p'' \<and> xs \<noteq> [] then normalizeFrom ((''--playback='' @ hd xs) # tl xs)
      else if x = ''-o'' \<and> xs \<noteq> [] then normalizeFrom ((''--output='' @ hd xs) # tl xs)
      else if prefix ''--log-level='' x then (''--log_level='' @ drop 12 x) # normalizeFrom xs
      else if prefix ''--wait-leading='' x then
        (if drop 15 x \<in> {''yes'', ''true'', ''1''} then ''--wait_leading'' else ''--nowait_leading'') # normalizeFrom xs
      else if prefix ''--wait-trailing='' x then
        (if drop 16 x \<in> {''yes'', ''true'', ''1''} then ''--wait_trailing'' else ''--nowait_trailing'') # normalizeFrom xs
      else x # normalizeFrom xs)"
  by pat_completeness auto
termination by (relation "measure length") (auto simp: neq_Nil_conv)

definition normalizeLegacyArgs :: "string list \<Rightarrow> string list" where
  "normalizeLegacyArgs args = (case args of [] \<Rightarrow> [] | prog # rest \<Rightarrow> prog # normalizeFrom rest)"

text \<open>The flags of the client.\<close>

record client_flags =
  FLAGS_record :: bool
  FLAGS_playback :: string
  FLAGS_output :: string
  FLAGS_kind :: string
  FLAGS_log_level :: string
  FLAGS_wait_leading :: bool
  FLAGS_wait_trailing :: bool
  FLAGS_device :: string
  FLAGS_host :: string
  FLAGS_keyboard_ctrl_c_filter :: string
  FLAGS_discovery_port :: int
  FLAGS_discovery_link_mode :: string

definition resetArgFlags :: "client_flags \<Rightarrow> client_flags" where
  "resetArgFlags f =
     f\<lparr>FLAGS_record := False, FLAGS_playback := [], FLAGS_output := [], FLAGS_kind := [], FLAGS_log_level := ''info'',
       FLAGS_wait_leading := True, FLAGS_wait_trailing := True, FLAGS_device := [], FLAGS_host := [],
       FLAGS_keyboard_ctrl_c_filter := ''ending''\<rparr>"

text \<open>A segment between commas, without the white space around it.\<close>

definition trimSegment :: "string \<Rightarrow> string" where
  "trimSegment s = rev (dropWhile c_isspace (rev (dropWhile c_isspace s)))"

definition segmentKinds :: "string \<Rightarrow> DeviceKind list" where
  "segmentKinds seg =
     (let token = trimSegment seg in
      if token = [] then [] else if toKind token \<noteq> kUnspecified then [toKind token] else [])"

function kindsFrom :: "string \<Rightarrow> DeviceKind list" where
  "kindsFrom raw =
     (let s = dropWhile c_isspace raw in
      if s = [] then []
      else case chr_find (CHR '','') s 0 of
             None \<Rightarrow> segmentKinds s
           | Some comma \<Rightarrow> segmentKinds (take comma s) @ kindsFrom (drop (comma + 1) s))"
  by pat_completeness auto
termination
proof (relation "measure length")
  fix raw s comma
  assume s: "s = dropWhile c_isspace raw" and ne: "s \<noteq> []"
  have "length s \<le> length raw" by (simp add: s length_dropWhile_le)
  moreover have "length (drop (comma + 1) s) < length s" using ne by (cases s) auto
  ultimately show "(drop (comma + 1) s, raw) \<in> measure length" by simp
qed simp

definition kindsFromKindFlag :: "client_flags \<Rightarrow> DeviceKind list" where
  "kindsFromKindFlag f = (if FLAGS_kind f = [] then [] else kindsFrom (FLAGS_kind f))"

definition programOf :: "string \<Rightarrow> string list \<Rightarrow> string" where
  "programOf dflt argv = (case argv of [] \<Rightarrow> dflt | p # _ \<Rightarrow> if p = [] then dflt else p)"

text \<open>What the flags insert into the options, in order.\<close>

definition clientOptions :: "string \<Rightarrow> client_flags \<Rightarrow> (string \<times> any) list" where
  "clientOptions program f =
     (let recording = FLAGS_record f; kinds = kindsFromKindFlag f;
          kinds' = (if recording \<and> kinds = [] then [kTouchpad, kTouchscreen, kMouse, kKeyboard] else kinds)
      in [(''program'', AString program), (''recording'', ABool recording), (''playback'', ABool (FLAGS_playback f \<noteq> [])),
          (''logLevel'', ALogLevel (logLevelFromString (FLAGS_log_level f))), (''playbackPath'', AString (FLAGS_playback f)),
          (''outputPath'', AString (FLAGS_output f)), (''device'', AString (FLAGS_device f)), (''kinds'', AKinds kinds'),
          (''executeWaitBeforeFirst'', ABool (FLAGS_wait_leading f)), (''executeWaitAfterLast'', ABool (FLAGS_wait_trailing f)),
          (''keyboardCtrlCFilter'', AString (FLAGS_keyboard_ctrl_c_filter f)),
          (''discovery_port'', AInt32 (FLAGS_discovery_port f)),
          (''discovery_link_mode'', AString (FLAGS_discovery_link_mode f))])"

definition parseArgvInto ::
  "(string list \<Rightarrow> client_flags \<Rightarrow> client_flags) \<Rightarrow> client_flags \<Rightarrow> string list \<Rightarrow> MemorySetting \<Rightarrow> client_flags \<times> MemorySetting" where
  "parseArgvInto gflags f argv options =
     (let f' = gflags (normalizeLegacyArgs argv) (resetArgFlags f)
      in (f', insertAll memInsert options (clientOptions (programOf ''evrp'' argv) f')))"

section \<open>Runner\<close>

record RunnerSetting =
  rn_program :: string
  rn_recording :: bool
  rn_playback :: bool
  rn_playbackPath :: string
  rn_logLevel :: LogLevel

definition newRunnerSetting :: "MemorySetting \<Rightarrow> RunnerSetting" where
  "newRunnerSetting s =
     \<lparr>rn_program = getString (memGet s ''program'') ''evrp'', rn_recording = getBool (memGet s ''recording'') False,
      rn_playback = getBool (memGet s ''playback'') False, rn_playbackPath = getString (memGet s ''playbackPath'') [],
      rn_logLevel = getLogLevel (memGet s ''logLevel'') Info\<rparr>"

text \<open>\<open>setLevel\<close> is that of the process's log service.\<close>

definition runnerRun ::
  "(LogLevel \<Rightarrow> 'w \<Rightarrow> 'w) \<Rightarrow> 'w Evrp option \<Rightarrow> MemorySetting \<Rightarrow> 'w \<Rightarrow> (int \<times> 'w) option" where
  "runnerRun setLevel evrp settings w0 =
     (let r = newRunnerSetting settings;
          w = setLevel (rn_logLevel r) w0;
          modeCount = (if rn_recording r then 1 else 0) + (if rn_playback r then (1 :: nat) else 0) in
      if modeCount > 1 then Some (1, w)
      else if modeCount = 0 then Some (1, w)
      else case evrp of
        None \<Rightarrow> Some (1, w)
      | Some ev \<Rightarrow>
          if rn_playback r then
            (if rn_playbackPath r = [] then Some (1, w) else ev_replay ev (Some settings) w)
          else ev_record ev (Some settings) w)"

text \<open>\<open>main\<close> of the client: \<open>mkClient\<close> is \<open>makeClient\<close> on an address, a client with its
  \<open>evrp()\<close> and its destructor.\<close>

definition clientMain ::
  "(string list \<Rightarrow> client_flags \<Rightarrow> client_flags) \<Rightarrow> (LogLevel \<Rightarrow> 'w \<Rightarrow> 'w)
   \<Rightarrow> (string \<Rightarrow> 'w \<Rightarrow> ('w Evrp option \<times> ('w \<Rightarrow> 'w)) option \<times> 'w) \<Rightarrow> client_flags \<Rightarrow> string list \<Rightarrow> 'w \<Rightarrow> (int \<times> 'w) option" where
  "clientMain gflags setLevel mkClient f argv w =
     (let (f', storage) = parseArgvInto gflags f argv [];
          host = (if FLAGS_host f' = [] then ''unix:'' @ ''/tmp/evrp.server.sock'' else FLAGS_host f');
          (client, w') = mkClient host w
      in case client of
           None \<Rightarrow> Some (1, w')
         | Some (None, destroy) \<Rightarrow> Some (1, destroy w')
         | Some (Some ev, destroy) \<Rightarrow> map_option (\<lambda>(code, w''). (code, destroy w'')) (runnerRun setLevel (Some ev) storage w'))"

section \<open>Arguments of the server\<close>

record server_flags =
  SFLAGS_log_level :: string
  SFLAGS_listen :: string

definition resetServerListenFlags :: "server_flags \<Rightarrow> server_flags" where
  "resetServerListenFlags f = f\<lparr>SFLAGS_log_level := ''info'', SFLAGS_listen := []\<rparr>"

definition parseServerArgvInto ::
  "(string list \<Rightarrow> server_flags \<Rightarrow> server_flags) \<Rightarrow> server_flags \<Rightarrow> string list \<Rightarrow> MemorySetting \<Rightarrow> server_flags \<times> MemorySetting" where
  "parseServerArgvInto gflags f argv options =
     (let f' = gflags argv (resetServerListenFlags f);
          es = [(''program'', AString (programOf ''evrp-server'' argv)), (''logLevel'', ALogLevel (logLevelFromString (SFLAGS_log_level f')))]
               @ (if SFLAGS_listen f' \<noteq> [] then [(''listen'', AString (SFLAGS_listen f'))] else [])
      in (f', insertAll memInsert options es))"

text \<open>\<open>Server::run\<close>: \<open>unlink\<close> removes a stale socket file, \<open>build\<close> is \<open>BuildAndStart\<close>, and
  \<open>wait\<close> the time until the server ends, which may never come.\<close>

definition socketToUnlink :: "string \<Rightarrow> string option" where
  "socketToUnlink addr = (if prefix ''unix:'' addr \<and> drop 5 addr \<noteq> [] then Some (drop 5 addr) else None)"

definition serverRun ::
  "(string \<Rightarrow> 'w \<Rightarrow> 'w) \<Rightarrow> (string \<Rightarrow> 'w \<Rightarrow> bool \<times> 'w) \<Rightarrow> ('w \<Rightarrow> 'w option) \<Rightarrow> MemorySetting \<Rightarrow> 'w \<Rightarrow> (int \<times> 'w) option" where
  "serverRun unlink build wait s w =
     (let addr = getString (memGet s ''listen'') [] in
      if addr = [] then Some (1, w)
      else let w1 = (case socketToUnlink addr of None \<Rightarrow> w | Some path \<Rightarrow> unlink path w);
               (started, w2) = build addr w1
           in if \<not> started then Some (1, w2) else map_option (Pair 0) (wait w2))"

text \<open>\<open>main\<close> of the server.\<close>

definition serverMain ::
  "(string list \<Rightarrow> server_flags \<Rightarrow> server_flags) \<Rightarrow> (LogLevel \<Rightarrow> 'w \<Rightarrow> 'w) \<Rightarrow> (string \<Rightarrow> 'w \<Rightarrow> 'w) \<Rightarrow> (string \<Rightarrow> 'w \<Rightarrow> bool \<times> 'w)
   \<Rightarrow> ('w \<Rightarrow> 'w option) \<Rightarrow> server_flags \<Rightarrow> string list \<Rightarrow> 'w \<Rightarrow> (int \<times> 'w) option" where
  "serverMain gflags setLevel unlink build wait f argv w =
     (let (f', storage) = parseServerArgvInto gflags f argv [];
          w1 = setLevel (getLogLevel (memGet storage ''logLevel'') Info) w;
          storage' = (if SFLAGS_listen f' = [] then memInsert storage ''listen'' (AString (''unix:'' @ ''/tmp/evrp.server.sock''))
                      else storage)
      in serverRun unlink build wait storage' w1)"

section \<open>Lemmas on the kinds of the flag\<close>

text \<open>The reference: split at the commas, trim, look up, and drop what is no kind.\<close>

fun splitComma :: "string \<Rightarrow> string list" where
  "splitComma [] = [[]]"
| "splitComma (c # cs) =
     (if c = CHR '','' then [] # splitComma cs
      else case splitComma cs of [] \<Rightarrow> [[c]] | t # ts \<Rightarrow> (c # t) # ts)"

lemma splitComma_none [simp]: "CHR '','' \<notin> set s \<Longrightarrow> splitComma s = [s]"
  by (induction s) auto

lemma splitComma_first [simp]: "CHR '','' \<notin> set s \<Longrightarrow> splitComma (s @ CHR '','' # t) = s # splitComma t"
  by (induction s) auto

lemma chr_find_none: "c \<notin> set s \<Longrightarrow> chr_find c s 0 = None"
proof -
  assume c: "c \<notin> set s"
  have "find_suf (\<lambda>t. t \<noteq> [] \<and> hd t = c) s = None"
  proof (rule find_suf_none)
    fix k
    show "\<not> (drop k s \<noteq> [] \<and> hd (drop k s) = c)"
      using c hd_in_set [of "drop k s"] set_drop_subset [of k s] by blast
  qed
  then show ?thesis by (simp add: chr_find_def find_from_def)
qed

lemma comma_no_space [simp]: "\<not> c_isspace (CHR '','')"
  by (simp add: c_isspace_def char_code_def)

lemma trim_dropWhile [simp]: "trimSegment (dropWhile c_isspace s) = trimSegment s"
  by (simp add: trimSegment_def)

lemma segmentKinds_alt: "segmentKinds seg = filter (\<lambda>k. k \<noteq> kUnspecified) [toKind (trimSegment seg)]"
  by (simp add: segmentKinds_def Let_def toKind_def)

lemma segmentKinds_dropWhile [simp]: "segmentKinds (dropWhile c_isspace s) = segmentKinds s"
  by (simp add: segmentKinds_alt)

declare kindsFrom.simps [simp del]

lemma kindsFrom_last: "CHR '','' \<notin> set s \<Longrightarrow> kindsFrom s = segmentKinds s"
proof -
  assume c: "CHR '','' \<notin> set s"
  let ?t = "dropWhile c_isspace s"
  have n: "chr_find (CHR '','') ?t 0 = None"
    using c by (intro chr_find_none) (meson set_dropWhileD)
  show ?thesis
  proof (cases "?t = []")
    case True
    then have "trimSegment s = []" by (simp only: trimSegment_def) simp
    with True show ?thesis by (simp add: kindsFrom.simps [of s] segmentKinds_def)
  next
    case False
    then show ?thesis using n by (auto simp: kindsFrom.simps [of s] Let_def)
  qed
qed

lemma kindsFrom_step: "CHR '','' \<notin> set s \<Longrightarrow> kindsFrom (s @ CHR '','' # t) = segmentKinds s @ kindsFrom t"
proof -
  assume c: "CHR '','' \<notin> set s"
  let ?s = "dropWhile c_isspace s"
  have d: "dropWhile c_isspace (s @ CHR '','' # t) = ?s @ CHR '','' # t"
    by (induction s) auto
  have "CHR '','' \<notin> set ?s" using c by (meson set_dropWhileD)
  then have "chr_find (CHR '','') (?s @ CHR '','' # t) 0 = Some (length ?s)"
    using chr_find_append [of "CHR '',''" ?s 0 "[]" t] by simp
  then show ?thesis using d by (simp add: kindsFrom.simps [of "s @ CHR '','' # t"] Let_def)
qed

lemma kindsFrom_split: "kindsFrom raw = concat (map segmentKinds (splitComma raw))"
proof (induction "length raw" arbitrary: raw rule: less_induct)
  case less
  show ?case
  proof (cases "CHR '','' \<in> set raw")
    case True
    then obtain s t where st: "raw = s @ CHR '','' # t" "CHR '','' \<notin> set s" by (meson split_list_first)
    then have "kindsFrom t = concat (map segmentKinds (splitComma t))" by (intro less) simp
    with st show ?thesis by (simp add: kindsFrom_step)
  qed (simp add: kindsFrom_last)
qed

lemma concat_segmentKinds:
  "concat (map segmentKinds ss) = filter (\<lambda>k. k \<noteq> kUnspecified) (map (toKind \<circ> trimSegment) ss)"
  by (induction ss) (simp_all add: segmentKinds_alt)

lemma kindsFromKindFlag_specified: "kUnspecified \<notin> set (kindsFromKindFlag f)"
  by (simp add: kindsFromKindFlag_def kindsFrom_split concat_segmentKinds)

section \<open>Lemmas on the arguments\<close>

text \<open>Arguments in which nothing is left to rewrite.\<close>

fun normalArgs :: "string list \<Rightarrow> bool" where
  "normalArgs [] \<longleftrightarrow> True"
| "normalArgs (x # xs) \<longleftrightarrow>
     x \<noteq> ''-r'' \<and> (x \<in> {''-p'', ''-o''} \<longrightarrow> xs = []) \<and> \<not> prefix ''--log-level='' x
     \<and> \<not> prefix ''--wait-leading='' x \<and> \<not> prefix ''--wait-trailing='' x \<and> normalArgs xs"

declare normalizeFrom.simps(2) [simp del]
lemmas normalizeFrom_Cons = normalizeFrom.simps(2)

lemma normalArgs_fixed: "normalArgs xs \<Longrightarrow> normalizeFrom xs = xs"
  by (induction xs) (auto simp: normalizeFrom_Cons)

lemma normalizeFrom_normal: "normalArgs (normalizeFrom xs)"
  by (induction xs rule: normalizeFrom.induct) (auto simp: normalizeFrom_Cons split: list.split)

lemma normalizeFrom_length: "length (normalizeFrom xs) \<le> length xs"
  by (induction xs rule: normalizeFrom.induct) (auto simp: normalizeFrom_Cons split: list.split)

section \<open>Lemmas on the options\<close>

lemma clientOptions_snapshot:
  "memSnapshot (insertAll memInsert [] (clientOptions program f)) = map_of (rev (clientOptions program f))"
  using mem.snapshot_insAll [of "[]" "clientOptions program f"] by (simp add: mem_wf_def memSnapshot_def)

lemma clientOptions_get:
  "memGet (insertAll memInsert [] (clientOptions program f)) k
   = (case map_of (rev (clientOptions program f)) k of None \<Rightarrow> AEmpty | Some a \<Rightarrow> a)"
  using fun_cong [OF clientOptions_snapshot [of program f], of k] by (simp add: memGet_def memSnapshot_def)

lemma clientOptions_sendable:
  "in_i32 (FLAGS_discovery_port f) \<Longrightarrow> sendable (insertAll memInsert [] (clientOptions program f))"
proof -
  assume "in_i32 (FLAGS_discovery_port f)"
  then have "list_all (\<lambda>(k, a). portable k a \<or> (k = ''kinds'' \<and> a = AKinds [])) (clientOptions program f)"
    using kindsFromKindFlag_specified [of f] by (simp add: clientOptions_def Let_def)
  then show ?thesis
    unfolding sendable_def clientOptions_snapshot by (fastforce simp: list_all_iff dest: map_of_SomeD)
qed

text \<open>The settings of the runner are the flags.\<close>

lemma newRunnerSetting_options:
  "newRunnerSetting (insertAll memInsert [] (clientOptions program f)) =
     \<lparr>rn_program = program, rn_recording = FLAGS_record f, rn_playback = FLAGS_playback f \<noteq> [],
      rn_playbackPath = FLAGS_playback f, rn_logLevel = logLevelFromString (FLAGS_log_level f)\<rparr>"
  unfolding newRunnerSetting_def clientOptions_get
  by (simp add: clientOptions_def Let_def getString_def getBool_def getLogLevel_def)

lemma runnerRun_flags:
  "runnerRun setLevel (Some ev) (insertAll memInsert [] (clientOptions program f)) w =
     (let s = insertAll memInsert [] (clientOptions program f); w' = setLevel (logLevelFromString (FLAGS_log_level f)) w in
      if FLAGS_record f \<longleftrightarrow> FLAGS_playback f \<noteq> [] then Some (1, w')
      else if FLAGS_record f then ev_record ev (Some s) w' else ev_replay ev (Some s) w')"
  by (auto simp: runnerRun_def newRunnerSetting_options Let_def)

definition recordedKinds :: "client_flags \<Rightarrow> DeviceKind list" where
  "recordedKinds f =
     (let ks = filter (\<lambda>k. k \<noteq> kUnspecified) (map (toKind \<circ> trimSegment) (splitComma (FLAGS_kind f)))
      in if ks = [] then [kTouchpad, kTouchscreen, kMouse, kKeyboard] else ks)"

lemma kindsFromKindFlag_split:
  "kindsFromKindFlag f = filter (\<lambda>k. k \<noteq> kUnspecified) (map (toKind \<circ> trimSegment) (splitComma (FLAGS_kind f)))"
  by (simp add: kindsFromKindFlag_def kindsFrom_split concat_segmentKinds trimSegment_def toKind_def)

lemma newRecord_options:
  "FLAGS_record f \<Longrightarrow>
   (newRecord (Some (memGet (insertAll memInsert [] (clientOptions program f)))) True True) =
     \<lparr>rc_listener = True, rc_fs = True, rc_kinds = recordedKinds f, rc_outputPath = FLAGS_output f,
      rc_mode = keyboardCtrlCFilterModeFromLabel (FLAGS_keyboard_ctrl_c_filter f)\<rparr>"
  unfolding newRecord_kinds clientOptions_get
  by (simp add: clientOptions_def Let_def getString_def recordedKinds_def kindsFromKindFlag_split [symmetric])

lemma recordedKinds_ne [simp]: "recordedKinds f \<noteq> []"
  by (simp add: recordedKinds_def Let_def)

section \<open>Properties\<close>

text \<open>The rewriting of the old-style arguments is complete and stable: what it gives keeps the program name, has no
  \<open>-r\<close>, no \<open>-p\<close> or \<open>-o\<close> before another argument and none of the hyphenated long options, is not longer
  than what it got, and is rewritten to itself.\<close>

theorem normalize_stable:
  "normalArgs (tl (normalizeLegacyArgs args)) \<and> length (normalizeLegacyArgs args) \<le> length args
   \<and> take 1 (normalizeLegacyArgs args) = take 1 args
   \<and> normalizeLegacyArgs (normalizeLegacyArgs args) = normalizeLegacyArgs args"
  by (cases args) (simp_all add: normalizeLegacyArgs_def normalizeFrom_normal normalizeFrom_length
      normalArgs_fixed [OF normalizeFrom_normal])

text \<open>The kinds of \<open>--kind\<close> are those of its segments: the position-by-position scan of the flag gives what splitting
  at the commas, trimming the white space and looking the labels up gives, unknown and empty
  segments dropped.\<close>

theorem kinds_flag_reference:
  "kindsFromKindFlag f = filter (\<lambda>k. k \<noteq> kUnspecified) (map (toKind \<circ> trimSegment) (splitComma (FLAGS_kind f)))"
  by (rule kindsFromKindFlag_split)


text \<open>A machine for the client: a server that counts its recordings, a live session, and flags
  parsed from nothing but \<open>-r out.txt\<close>.\<close>

definition demo_flags :: client_flags where
  "demo_flags =
     \<lparr>FLAGS_record = False, FLAGS_playback = [], FLAGS_output = [], FLAGS_kind = [], FLAGS_log_level = [],
      FLAGS_wait_leading = False, FLAGS_wait_trailing = False, FLAGS_device = [], FLAGS_host = [],
      FLAGS_keyboard_ctrl_c_filter = [], FLAGS_discovery_port = 5353, FLAGS_discovery_link_mode = []\<rparr>"

definition demo_gflags :: "string list \<Rightarrow> client_flags \<Rightarrow> client_flags" where
  "demo_gflags args f =
     f\<lparr>FLAGS_record := ''--record'' \<in> set args, FLAGS_output := (if ''--output=out.txt'' \<in> set args then ''out.txt'' else []),
       FLAGS_host := ''h:1''\<rparr>"

definition demo_evrp :: "nat Evrp" where
  "demo_evrp = \<lparr>ev_record = (\<lambda>s n. Some (7, n + 1)), ev_replay = (\<lambda>s n. None), ev_isRecording = Pair False,
     ev_isReplaying = Pair False, ev_stopRecording = Pair True, ev_stopReplay = Pair True\<rparr>"

definition demo_mkClient ::
  "string \<Rightarrow> SessionRegistry \<times> nat \<Rightarrow> ((SessionRegistry \<times> nat) Evrp option \<times> (SessionRegistry \<times> nat \<Rightarrow> SessionRegistry \<times> nat)) option
   \<times> SessionRegistry \<times> nat" where
  "demo_mkClient h rw =
     (Some (Some (remoteEvrp (directStub demo_evrp ''p'' None 5) \<lparr>re_sessionId = ''id'', re_leaseTimeoutMs = 3000\<rparr>), id), rw)"

definition demo_setLevel :: "LogLevel \<Rightarrow> SessionRegistry \<times> nat \<Rightarrow> SessionRegistry \<times> nat" where
  "demo_setLevel l rw = rw"


end
