(* ===== verification/Dispatch.thy ===== *)
theory Dispatch
  imports Fifo Writers
begin

text \<open>
  The worker threads of the two servers: \<open>SyncDispatchQueue\<close> and \<open>IoContextPostedBase\<close>
  (\<open>evrp/sdk\<close>), the wrappers that post the calls of the services to the worker
  (\<open>evrp/device/impl/server/posted\<close>, \<open>evrp/server/impl/server/posted\<close>) and the destructors of the
  servers. The queue of \<open>asio::io_context\<close> is a parameter (\<open>put\<close> is \<open>asio::post\<close>, \<open>get\<close> the choice of
  the worker), its law the contract \<open>lossless_fifo\<close> of one thread in \<open>run\<close>. A thread is a number,
  and so is a \<open>SyncDispatchQueue\<close>; several share an \<open>io_context\<close>.
\<close>

section \<open>State\<close>

datatype ('s, 'v) job =
    Task (job_queue: nat) (job_owner: nat) (task_fn: "'s \<Rightarrow> 'v \<times> 's")
  | Barrier (job_queue: nat) (job_owner: nat) (final_fn: "('s \<Rightarrow> 's) option")

text \<open>Where a calling thread is: after the test of \<open>shutdownDone\<close>, in \<open>fut.get()\<close> or
  \<open>done.wait()\<close>, or with the future ready.\<close>

datatype ('s, 'v) caller = Idle | Checked "('s, 'v) job" | Blocked | Ready "'v option"

record ('q, 's, 'v) dispatch =
  inner :: 's
  jobs :: 'q
  running :: "('s, 'v) job option"
  stopped :: bool
  shutdownDone :: "nat \<Rightarrow> bool"
  callers :: "nat \<Rightarrow> ('s, 'v) caller"

definition dispatch_init :: "'q \<Rightarrow> 's \<Rightarrow> ('q, 's, 'v) dispatch" where
  "dispatch_init q s =
     \<lparr>inner = s, jobs = q, running = None, stopped = False, shutdownDone = (\<lambda>_. False), callers = (\<lambda>_. Idle)\<rparr>"

section \<open>Operations\<close>

text \<open>\<open>postSync\<close> and \<open>postVoid\<close> up to the test, then \<open>asio::post\<close>, then the return of the value;
  \<open>dflt\<close> is \<open>R{}\<close>.\<close>

definition postCheck ::
  "nat \<Rightarrow> nat \<Rightarrow> 'v \<Rightarrow> ('s \<Rightarrow> 'v \<times> 's) \<Rightarrow> ('q, 's, 'v) dispatch \<Rightarrow> 'v option \<times> ('q, 's, 'v) dispatch" where
  "postCheck q t dflt fn d =
     (if shutdownDone d q then (Some dflt, d)
      else (None, d\<lparr>callers := (callers d)(t := Checked (Task q t fn))\<rparr>))"

definition enqueue :: "(('s, 'v) job \<Rightarrow> 'q \<Rightarrow> 'q) \<Rightarrow> nat \<Rightarrow> ('s, 'v) job \<Rightarrow> ('q, 's, 'v) dispatch \<Rightarrow> ('q, 's, 'v) dispatch" where
  "enqueue put t j d = d\<lparr>jobs := put j (jobs d), callers := (callers d)(t := Blocked)\<rparr>"

definition takeResult :: "nat \<Rightarrow> ('q, 's, 'v) dispatch \<Rightarrow> ('q, 's, 'v) dispatch" where
  "takeResult t d = d\<lparr>callers := (callers d)(t := Idle)\<rparr>"

text \<open>\<open>shutdown\<close> up to the post of the barrier; \<open>True\<close> when it returns at once.\<close>

definition shutdownCheck ::
  "nat \<Rightarrow> nat \<Rightarrow> ('s \<Rightarrow> 's) option \<Rightarrow> ('q, 's, 'v) dispatch \<Rightarrow> bool \<times> ('q, 's, 'v) dispatch" where
  "shutdownCheck q t ft d =
     (if shutdownDone d q then (True, d)
      else (False, d\<lparr>callers := (callers d)(t := Checked (Barrier q t ft))\<rparr>))"

text \<open>The worker in \<open>io_context::run\<close>: it takes a handler, and runs it.\<close>

definition workerTake :: "('q \<Rightarrow> ('s, 'v) job option \<times> 'q) \<Rightarrow> ('q, 's, 'v) dispatch \<Rightarrow> ('q, 's, 'v) dispatch" where
  "workerTake get d =
     (if stopped d \<or> running d \<noteq> None then d
      else let (j, q) = get (jobs d) in d\<lparr>running := j, jobs := q\<rparr>)"

definition jobResult :: "('s, 'v) job \<Rightarrow> 's \<Rightarrow> 'v option" where
  "jobResult j s = (case j of Task q t fn \<Rightarrow> Some (fst (fn s)) | Barrier q t ft \<Rightarrow> None)"

definition jobEffect :: "('s, 'v) job \<Rightarrow> 's \<Rightarrow> 's" where
  "jobEffect j s = (case j of Task q t fn \<Rightarrow> snd (fn s) | Barrier q t ft \<Rightarrow> (case ft of None \<Rightarrow> s | Some f \<Rightarrow> f s))"

definition workerRun :: "('q, 's, 'v) dispatch \<Rightarrow> ('q, 's, 'v) dispatch" where
  "workerRun d =
     (case running d of
        None \<Rightarrow> d
      | Some j \<Rightarrow>
          d\<lparr>inner := jobEffect j (inner d), running := None,
            shutdownDone := (case j of Task _ _ _ \<Rightarrow> shutdownDone d | Barrier q _ _ \<Rightarrow> (shutdownDone d)(q := True)),
            callers := (callers d)(job_owner j := Ready (jobResult j (inner d)))\<rparr>)"

definition stopContext :: "('q, 's, 'v) dispatch \<Rightarrow> ('q, 's, 'v) dispatch" where
  "stopContext d = d\<lparr>stopped := True\<rparr>"

section \<open>The wrappers\<close>

text \<open>A call of a wrapper is posted, with the value it gives after the shutdown, or made directly.\<close>

datatype ('s, 'v) wrapped = PostSync 'v "'s \<Rightarrow> 'v \<times> 's" | Direct "'s \<Rightarrow> 'v \<times> 's"

datatype dvalue =
    RBool bool
  | RInt int
  | REvents "InputEvent list"
  | RKinds "DeviceKind list"
  | RStatus bool StatusCode
  | RPos bool int int
  | RVoid

definition postedStartListening :: "(DeviceKind list \<Rightarrow> 's \<Rightarrow> bool \<times> 's) \<Rightarrow> DeviceKind list \<Rightarrow> ('s, dvalue) wrapped" where
  "postedStartListening inner_start kinds = PostSync (RBool False) (\<lambda>s. map_prod RBool id (inner_start kinds s))"

definition postedReadInputEvents :: "('s \<Rightarrow> InputEvent list \<times> 's) \<Rightarrow> ('s, dvalue) wrapped" where
  "postedReadInputEvents inner_read = PostSync (REvents []) (\<lambda>s. map_prod REvents id (inner_read s))"

definition postedWaitForInputEvent :: "(int \<Rightarrow> 's \<Rightarrow> bool \<times> 's) \<Rightarrow> int \<Rightarrow> ('s, dvalue) wrapped" where
  "postedWaitForInputEvent inner_wait timeoutMs = PostSync (RBool False) (\<lambda>s. map_prod RBool id (inner_wait timeoutMs s))"

definition postedCancelListening :: "('s \<Rightarrow> 's) \<Rightarrow> ('s, dvalue) wrapped" where
  "postedCancelListening inner_cancel = PostSync RVoid (\<lambda>s. (RVoid, inner_cancel s))"

definition postedIsListening :: "('s \<Rightarrow> bool) \<Rightarrow> ('s, dvalue) wrapped" where
  "postedIsListening inner_is = PostSync (RBool False) (\<lambda>s. (RBool (inner_is s), s))"

definition postedGetCursorPositionAvailability :: "('s \<Rightarrow> bool \<times> 's) \<Rightarrow> ('s, dvalue) wrapped" where
  "postedGetCursorPositionAvailability inner_avail = PostSync (RBool False) (\<lambda>s. map_prod RBool id (inner_avail s))"

definition postedReadCursorPosition :: "(int \<times> int \<Rightarrow> 's \<Rightarrow> (bool \<times> int \<times> int) \<times> 's) \<Rightarrow> int \<times> int \<Rightarrow> ('s, dvalue) wrapped" where
  "postedReadCursorPosition inner_read out =
     PostSync (RPos False (fst out) (snd out)) (\<lambda>s. let ((ok, x, y), s') = inner_read out s in (RPos ok x y, s'))"

definition postedKinds :: "('s \<Rightarrow> DeviceKind list \<times> 's) \<Rightarrow> ('s, dvalue) wrapped" where
  "postedKinds inner_kinds = PostSync (RKinds []) (\<lambda>s. map_prod RKinds id (inner_kinds s))"

text \<open>The status is an out parameter: a call after the shutdown leaves it as it was.\<close>

definition postedUpload ::
  "(InputEvent list \<Rightarrow> 's \<Rightarrow> (bool \<times> StatusCode) \<times> 's) \<Rightarrow> StatusCode \<Rightarrow> InputEvent list \<Rightarrow> ('s, dvalue) wrapped" where
  "postedUpload inner_upload out events =
     PostSync (RStatus False out) (\<lambda>s. let ((ok, st), s') = inner_upload events s in (RStatus ok st, s'))"

definition postedPlayback :: "('s \<Rightarrow> (bool \<times> StatusCode) \<times> 's) \<Rightarrow> StatusCode \<Rightarrow> ('s, dvalue) wrapped" where
  "postedPlayback inner_playback out =
     PostSync (RStatus False out) (\<lambda>s. let ((ok, st), s') = inner_playback s in (RStatus ok st, s'))"

definition postedPlaybackIndex :: "('s \<Rightarrow> int) \<Rightarrow> ('s, dvalue) wrapped" where
  "postedPlaybackIndex inner_index = PostSync (RInt 0) (\<lambda>s. (RInt (inner_index s), s))"

definition postedIsPlayback :: "('s \<Rightarrow> bool) \<Rightarrow> ('s, dvalue) wrapped" where
  "postedIsPlayback inner_is = Direct (\<lambda>s. (RBool (inner_is s), s))"

definition postedStopPlayback :: "('s \<Rightarrow> bool \<times> 's) \<Rightarrow> ('s, dvalue) wrapped" where
  "postedStopPlayback inner_stop = Direct (\<lambda>s. map_prod RBool id (inner_stop s))"

text \<open>\<open>PostedEvrp\<close>: \<open>op\<close> is \<open>inner.record\<close> or \<open>inner.replay\<close> on the settings, when they return.\<close>

definition postedEvrpRun :: "('a \<Rightarrow> 's \<Rightarrow> int \<times> 's) \<Rightarrow> 'a \<Rightarrow> ('s, dvalue) wrapped" where
  "postedEvrpRun op settings = PostSync (RInt 0) (\<lambda>s. map_prod RInt id (op settings s))"

definition postedEvrpDirect :: "('s \<Rightarrow> bool \<times> 's) \<Rightarrow> ('s, dvalue) wrapped" where
  "postedEvrpDirect op = Direct (\<lambda>s. map_prod RBool id (op s))"

text \<open>What a destructor does, in order: calls on a queue, shutdowns of a queue, the stop.\<close>

datatype ('s, 'v) act = ACall nat "('s, 'v) wrapped" | AShutdown nat | AStop

definition postedListenerShutdown :: "nat \<Rightarrow> ('s \<Rightarrow> 's) \<Rightarrow> ('s, dvalue) act list" where
  "postedListenerShutdown q inner_cancel = [ACall q (postedCancelListening inner_cancel), AShutdown q]"

text \<open>The queues of the device's server are those of the listener, the cursor, the kinds and the
  playback.\<close>

definition destroyDeviceServer :: "('s \<Rightarrow> 's) \<Rightarrow> ('s, dvalue) act list" where
  "destroyDeviceServer inner_cancel = postedListenerShutdown 0 inner_cancel @ [AShutdown 1, AShutdown 2, AShutdown 3, AStop]"

definition destroyEvrpServer :: "('s, dvalue) act list" where
  "destroyEvrpServer = [AShutdown 0, AStop]"

text \<open>The acts of one thread while no other one calls: the worker serves each of them.\<close>

definition serve ::
  "(('s, 'v) job \<Rightarrow> 'q \<Rightarrow> 'q) \<Rightarrow> ('q \<Rightarrow> ('s, 'v) job option \<times> 'q) \<Rightarrow> nat \<Rightarrow> ('q, 's, 'v) dispatch \<Rightarrow> ('q, 's, 'v) dispatch" where
  "serve put get t d =
     (case callers d t of
        Checked j \<Rightarrow> takeResult t (workerRun (workerTake get (enqueue put t j d)))
      | _ \<Rightarrow> d)"

fun perform ::
  "(('s, 'v) job \<Rightarrow> 'q \<Rightarrow> 'q) \<Rightarrow> ('q \<Rightarrow> ('s, 'v) job option \<times> 'q) \<Rightarrow> nat \<Rightarrow> ('s, 'v) act \<Rightarrow> ('q, 's, 'v) dispatch
   \<Rightarrow> ('q, 's, 'v) dispatch" where
  "perform put get t (ACall q (PostSync dflt fn)) d = serve put get t (snd (postCheck q t dflt fn d))"
| "perform put get t (ACall q (Direct fn)) d = d\<lparr>inner := snd (fn (inner d))\<rparr>"
| "perform put get t (AShutdown q) d = serve put get t (snd (shutdownCheck q t None d))"
| "perform put get t AStop d = stopContext d"

section \<open>Interleavings\<close>

text \<open>The steps of all threads. Calls that return at once, and direct ones, give their value in
  one step.\<close>

datatype ('s, 'v) label =
    LReject nat 'v
  | LCheck nat
  | LEnqueue "('s, 'v) job"
  | LTake
  | LRun "('s, 'v) job" "'v option"
  | LReturn nat "'v option"
  | LDirect nat "'s \<Rightarrow> 'v \<times> 's" 'v
  | LStop

inductive dstep ::
  "(('s, 'v) job \<Rightarrow> 'q \<Rightarrow> 'q) \<Rightarrow> ('q \<Rightarrow> ('s, 'v) job option \<times> 'q) \<Rightarrow> ('q, 's, 'v) dispatch \<Rightarrow> ('s, 'v) label
   \<Rightarrow> ('q, 's, 'v) dispatch \<Rightarrow> bool" for put get where
  reject: "callers d t = Idle \<Longrightarrow> postCheck q t dflt fn d = (Some v, d') \<Longrightarrow> dstep put get d (LReject t v) d'"
| check: "callers d t = Idle \<Longrightarrow> postCheck q t dflt fn d = (None, d') \<Longrightarrow> dstep put get d (LCheck t) d'"
| shut: "callers d t = Idle \<Longrightarrow> shutdownCheck q t ft d = (False, d') \<Longrightarrow> dstep put get d (LCheck t) d'"
| enq: "callers d t = Checked j \<Longrightarrow> dstep put get d (LEnqueue j) (enqueue put t j d)"
| take: "\<not> stopped d \<Longrightarrow> running d = None \<Longrightarrow> dstep put get d LTake (workerTake get d)"
| run: "running d = Some j \<Longrightarrow> dstep put get d (LRun j (jobResult j (inner d))) (workerRun d)"
| return: "callers d t = Ready v \<Longrightarrow> dstep put get d (LReturn t v) (takeResult t d)"
| direct: "callers d t = Idle \<Longrightarrow> fn (inner d) = (v, s) \<Longrightarrow> dstep put get d (LDirect t fn v) (d\<lparr>inner := s\<rparr>)"
| stop: "dstep put get d LStop (stopContext d)"

inductive druns ::
  "(('s, 'v) job \<Rightarrow> 'q \<Rightarrow> 'q) \<Rightarrow> ('q \<Rightarrow> ('s, 'v) job option \<times> 'q) \<Rightarrow> ('q, 's, 'v) dispatch \<Rightarrow> ('s, 'v) label list
   \<Rightarrow> ('q, 's, 'v) dispatch \<Rightarrow> bool" for put get where
  nil: "druns put get d [] d"
| snoc: "druns put get d ls d1 \<Longrightarrow> dstep put get d1 l d2 \<Longrightarrow> druns put get d (ls @ [l]) d2"

inductive_cases dstep_cases: "dstep put get d l d'"

text \<open>What a history posted and ran, what it answered a thread, and its sequential replay, which
  checks every value.\<close>

fun postedOf :: "('s, 'v) label list \<Rightarrow> ('s, 'v) job list" where
  "postedOf [] = []"
| "postedOf (LEnqueue j # ls) = j # postedOf ls"
| "postedOf (_ # ls) = postedOf ls"

fun ranOf :: "('s, 'v) label list \<Rightarrow> ('s, 'v) job list" where
  "ranOf [] = []"
| "ranOf (LRun j v # ls) = j # ranOf ls"
| "ranOf (_ # ls) = ranOf ls"

fun valuesOf :: "nat \<Rightarrow> ('s, 'v) label list \<Rightarrow> 'v option list" where
  "valuesOf t [] = []"
| "valuesOf t (LRun j v # ls) = (if job_owner j = t then [v] else []) @ valuesOf t ls"
| "valuesOf t (_ # ls) = valuesOf t ls"

fun returnsOf :: "nat \<Rightarrow> ('s, 'v) label list \<Rightarrow> 'v option list" where
  "returnsOf t [] = []"
| "returnsOf t (LReturn t' v # ls) = (if t' = t then [v] else []) @ returnsOf t ls"
| "returnsOf t (_ # ls) = returnsOf t ls"

fun replay :: "('s, 'v) label list \<Rightarrow> 's \<Rightarrow> 's \<Rightarrow> bool" where
  "replay [] s s' \<longleftrightarrow> s' = s"
| "replay (LRun j v # ls) s s' \<longleftrightarrow> v = jobResult j s \<and> replay ls (jobEffect j s) s'"
| "replay (LDirect t fn v # ls) s s' \<longleftrightarrow> v = fst (fn s) \<and> replay ls (snd (fn s)) s'"
| "replay (_ # ls) s s' \<longleftrightarrow> replay ls s s'"

section \<open>The contract of the queue, and what it gives\<close>

text \<open>The jobs that are not done yet, in order, and the value a thread has not picked up.\<close>

definition outstanding :: "('q \<Rightarrow> ('s, 'v) job list) \<Rightarrow> ('q, 's, 'v) dispatch \<Rightarrow> ('s, 'v) job list" where
  "outstanding content d = (case running d of None \<Rightarrow> [] | Some j \<Rightarrow> [j]) @ content (jobs d)"

fun readyOf :: "('s, 'v) caller \<Rightarrow> 'v option list" where
  "readyOf (Ready v) = [v]"
| "readyOf _ = []"

text \<open>The invariant of a history \<open>ls\<close> that started with the inner state \<open>s0\<close>: exactly the owners of
  outstanding jobs wait, each for one; every posted job has run or is outstanding, in the order
  of the posts; and a thread got, or will get, the values of its own jobs.\<close>

definition callers_ok :: "('q \<Rightarrow> ('s, 'v) job list) \<Rightarrow> ('q, 's, 'v) dispatch \<Rightarrow> bool" where
  "callers_ok content d \<longleftrightarrow>
     (\<forall>t j. callers d t = Checked j \<longrightarrow> job_owner j = t)
     \<and> (\<forall>t. callers d t = Blocked \<longleftrightarrow> t \<in> set (map job_owner (outstanding content d)))
     \<and> distinct (map job_owner (outstanding content d))"

definition dinv :: "('q \<Rightarrow> ('s, 'v) job list) \<Rightarrow> ('q \<Rightarrow> bool) \<Rightarrow> 's \<Rightarrow> ('s, 'v) label list \<Rightarrow> ('q, 's, 'v) dispatch \<Rightarrow> bool" where
  "dinv content invar s0 ls d \<longleftrightarrow>
     invar (jobs d) \<and> callers_ok content d \<and> ranOf ls @ outstanding content d = postedOf ls \<and> replay ls s0 (inner d)
     \<and> (\<forall>t. returnsOf t ls @ readyOf (callers d t) = valuesOf t ls)"

lemma dinv_ready: "dinv content invar s0 ls d \<Longrightarrow> returnsOf t ls @ readyOf (callers d t) = valuesOf t ls"
  by (simp add: dinv_def)

lemma dinv_blocked:
  "dinv content invar s0 ls d \<Longrightarrow> callers d t = Blocked \<longleftrightarrow> t \<in> job_owner ` set (outstanding content d)"
  by (simp add: dinv_def callers_ok_def)

lemma postedOf_append [simp]: "postedOf (ls @ ls') = postedOf ls @ postedOf ls'"
  by (induction ls rule: postedOf.induct) auto

lemma ranOf_append [simp]: "ranOf (ls @ ls') = ranOf ls @ ranOf ls'"
  by (induction ls rule: ranOf.induct) auto

lemma valuesOf_append [simp]: "valuesOf t (ls @ ls') = valuesOf t ls @ valuesOf t ls'"
  by (induction t ls rule: valuesOf.induct) auto

lemma returnsOf_append [simp]: "returnsOf t (ls @ ls') = returnsOf t ls @ returnsOf t ls'"
  by (induction t ls rule: returnsOf.induct) auto

lemma replay_append [simp]: "replay (ls @ ls') s s'' \<longleftrightarrow> (\<exists>s'. replay ls s s' \<and> replay ls' s' s'')"
  by (induction ls s s'' rule: replay.induct) auto

lemma outstanding_update [simp]:
  "outstanding content (d\<lparr>callers := c\<rparr>) = outstanding content d"
  "outstanding content (d\<lparr>inner := s\<rparr>) = outstanding content d"
  "outstanding content (d\<lparr>stopped := b\<rparr>) = outstanding content d"
  by (simp_all add: outstanding_def)

text \<open>Nothing is posted, and thread \<open>t\<close> makes no call.\<close>

definition quiet :: "('q \<Rightarrow> ('s, 'v) job list) \<Rightarrow> ('q \<Rightarrow> bool) \<Rightarrow> nat \<Rightarrow> ('q, 's, 'v) dispatch \<Rightarrow> bool" where
  "quiet content invar t d \<longleftrightarrow>
     invar (jobs d) \<and> content (jobs d) = [] \<and> running d = None \<and> \<not> stopped d \<and> callers d t = Idle"

lemmas dispatch_defs = postCheck_def shutdownCheck_def enqueue_def takeResult_def stopContext_def

locale dispatcher = lossless_fifo content put get invar
  for content :: "'q \<Rightarrow> ('s, 'v) job list" and put get invar
begin

lemma take_outstanding:
  assumes "invar (jobs d)"
  shows "outstanding content (workerTake get d) = outstanding content d" and "invar (jobs (workerTake get d))"
    and "callers (workerTake get d) = callers d" and "inner (workerTake get d) = inner d"
proof -
  from assms have "outstanding content (workerTake get d) = outstanding content d \<and> invar (jobs (workerTake get d))"
  proof (cases rule: get_cases)
    case 1
    then show ?thesis using assms by (auto simp: workerTake_def outstanding_def split: option.split)
  next
    case (2 x q')
    then show ?thesis using assms by (auto simp: workerTake_def outstanding_def split: option.split)
  qed
  then show "outstanding content (workerTake get d) = outstanding content d" "invar (jobs (workerTake get d))" by auto
qed (simp_all add: workerTake_def Let_def case_prod_unfold)

lemma run_outstanding:
  assumes "running d = Some j"
  shows "outstanding content d = j # outstanding content (workerRun d)" and "jobs (workerRun d) = jobs d"
    and "callers (workerRun d) = (callers d)(job_owner j := Ready (jobResult j (inner d)))"
    and "inner (workerRun d) = jobEffect j (inner d)"
  using assms by (simp_all add: outstanding_def workerRun_def)

lemma enqueue_outstanding:
  "invar (jobs d) \<Longrightarrow> outstanding content (enqueue put t j d) = outstanding content d @ [j]"
  by (simp add: outstanding_def enqueue_def put_all)

lemma dinv_step:
  assumes "dstep put get d l d'" and "dinv content invar s0 ls d"
  shows "dinv content invar s0 (ls @ [l]) d'"
  using assms
proof (induction rule: dstep.induct)
  case (enq d t j)
  then have "job_owner j = t" "invar (jobs d)" by (simp_all add: dinv_def callers_ok_def)
  then show ?case
    using enq dinv_blocked [OF enq(2), of t] dinv_ready [OF enq(2), of t]
    by (auto simp: dinv_def callers_ok_def enqueue_outstanding) (auto simp: enqueue_def invar_put split: if_splits)
next
  case (take d)
  then have "invar (jobs d)" by (simp add: dinv_def)
  from take_outstanding [OF this] take show ?case by (simp add: dinv_def callers_ok_def)
next
  case (run d j)
  note o = run_outstanding [OF run(1)]
  have "job_owner j \<notin> set (map job_owner (outstanding content (workerRun d)))"
    using run(2) unfolding dinv_def callers_ok_def o(1) by simp
  moreover have "callers d (job_owner j) = Blocked" using dinv_blocked [OF run(2)] o(1) by simp
  then have "returnsOf (job_owner j) ls = valuesOf (job_owner j) ls" using dinv_ready [OF run(2), of "job_owner j"] by simp
  ultimately show ?case
    using run(2) o by (auto simp: dinv_def callers_ok_def split: if_splits)
next
  case (return d t v)
  then show ?case
    using dinv_ready [OF return(2), of t] dinv_blocked [OF return(2), of t]
    by (auto simp: dinv_def callers_ok_def takeResult_def split: if_splits)
next
  case (check d t q dflt fn d')
  then show ?case
    using dinv_ready [OF check(3), of t] dinv_blocked [OF check(3), of t]
    by (auto simp: dinv_def callers_ok_def postCheck_def split: if_splits)
next
  case (shut d t q ft d')
  then show ?case
    using dinv_ready [OF shut(3), of t] dinv_blocked [OF shut(3), of t]
    by (auto simp: dinv_def callers_ok_def shutdownCheck_def split: if_splits)
next
  case (direct d t fn v s)
  then show ?case by (auto simp: dinv_def callers_ok_def)
qed (auto simp: dinv_def callers_ok_def dispatch_defs split: if_splits)

lemma dinv_runs: "druns put get d ls d' \<Longrightarrow> dinv content invar s0 ls0 d \<Longrightarrow> dinv content invar s0 (ls0 @ ls) d'"
proof (induction rule: druns.induct)
  case (snoc d ls d1 l d2)
  then show ?case using dinv_step [of d1 l d2 s0 "ls0 @ ls"] by simp
qed simp

lemma dinv_init: "invar q \<Longrightarrow> content q = [] \<Longrightarrow> dinv content invar s [] (dispatch_init q s)"
  by (simp add: dinv_def callers_ok_def outstanding_def dispatch_init_def)

text \<open>The worker alone brings every waiting thread its value.\<close>

lemma druns_cons: "dstep put get d l d1 \<Longrightarrow> druns put get d1 ls d2 \<Longrightarrow> druns put get d (l # ls) d2"
proof (rotate_tac, induction rule: druns.induct)
  case (nil d1)
  then show ?case using druns.snoc [OF druns.nil] by fastforce
next
  case (snoc d1 ls d2 l' d3)
  then show ?case using druns.snoc [of put get d "l # ls" d2 l' d3] by simp
qed

lemma drains:
  assumes "invar (jobs d)" and "\<not> stopped d"
  shows "\<exists>ls d'. druns put get d ls d' \<and> set ls \<subseteq> {LTake} \<union> {LRun j v |j v. True} \<and> outstanding content d' = []"
  using assms
proof (induction "length (outstanding content d)" arbitrary: d rule: less_induct)
  case less
  show ?case
  proof (cases "outstanding content d")
    case Nil
    then show ?thesis using druns.nil [of put get d] by fastforce
  next
    case (Cons j js)
    let ?r = "running d = None"
    define d1 where "d1 = workerTake get d"
    have d1: "outstanding content d1 = j # js" "invar (jobs d1)" "\<not> stopped d1"
      using take_outstanding [OF less(2)] Cons less(3) by (simp_all add: d1_def workerTake_def Let_def case_prod_unfold)
    have "running d1 = Some j"
    proof (cases "running d")
      case None
      then have "content (jobs d) = j # js" using Cons by (simp add: outstanding_def)
      then show ?thesis using None get_front [OF less(2)] less(3) by (simp add: d1_def workerTake_def case_prod_unfold Let_def)
    qed (use Cons in \<open>simp add: d1_def workerTake_def outstanding_def\<close>)
    note o = run_outstanding [OF this] and step = dstep.run [where put = put and get = get, OF this]
    have "\<not> stopped (workerRun d1)" using d1(3) by (simp add: workerRun_def split: option.split)
    then obtain ls d' where ls: "druns put get (workerRun d1) ls d'" "set ls \<subseteq> {LTake} \<union> {LRun j v |j v. True}" "outstanding content d' = []"
      using less(1) [of "workerRun d1"] o d1 Cons by auto
    have "druns put get d1 (LRun j (jobResult j (inner d1)) # ls) d'" using druns_cons [OF step ls(1)] .
    then have "druns put get d ((if ?r then [LTake] else []) @ LRun j (jobResult j (inner d1)) # ls) d'"
      using druns_cons [OF dstep.take [OF less(3), of put get]] by (cases ?r) (auto simp: d1_def workerTake_def)
    then show ?thesis using ls(2,3) by (intro exI conjI) (assumption, auto)
  qed
qed

lemma ran_order:
  "druns put get d ls d' \<Longrightarrow> dinv content invar s0 ls0 d \<Longrightarrow> ranOf ls @ outstanding content d' = outstanding content d @ postedOf ls"
  using dinv_runs [of d ls d' s0 ls0] by (auto simp: dinv_def) (metis append.assoc same_append_eq)

text \<open>A thread that was idle while a job ran gets a value only after the end of that job.\<close>

lemma return_after_running:
  assumes "dinv content invar s0 ls0 d" and "running d = Some j" and "callers d t = Idle"
    and "druns put get d ls d1" and "callers d1 t = Ready v"
  shows "\<exists>w. LRun j w \<in> set ls"
proof -
  have "returnsOf t ls @ [v] = valuesOf t ls"
    using dinv_ready [OF assms(1), of t] dinv_ready [OF dinv_runs [OF assms(4,1)], of t] assms(3,5) by simp
  then have "valuesOf t ls \<noteq> []" by auto
  then have ne: "ranOf ls \<noteq> []" by (induction t ls rule: valuesOf.induct) auto
  have "ranOf ls @ outstanding content d1 = j # content (jobs d) @ postedOf ls"
    using ran_order [OF assms(4,1)] assms(2) by (simp add: outstanding_def)
  with ne have "j \<in> set (ranOf ls)" by (cases "ranOf ls") auto
  then show ?thesis by (induction ls rule: ranOf.induct) auto
qed

text \<open>One call served while no other thread calls.\<close>

lemma serve_alone:
  assumes "invar (jobs d)" and "content (jobs d) = []" and "running d = None" and "\<not> stopped d"
    and "callers d t = Checked j" and "job_owner j = t"
  shows "\<exists>q. invar q \<and> content q = [] \<and> serve put get t d =
     d\<lparr>jobs := q, inner := jobEffect j (inner d), callers := (callers d)(t := Idle),
       shutdownDone := (case j of Task _ _ _ \<Rightarrow> shutdownDone d | Barrier q _ _ \<Rightarrow> (shutdownDone d)(q := True))\<rparr>"
proof -
  let ?q = "put j (jobs d)"
  have q: "invar ?q" "content ?q = [j]" using assms(1,2) by (simp_all add: invar_put put_all)
  then have "fst (get ?q) = Some j" "content (snd (get ?q)) = []" "invar (snd (get ?q))"
    using get_front [of ?q j "[]"] invar_get by simp_all
  then show ?thesis
    using assms(3-6)
    by (intro exI [of _ "snd (get ?q)"], cases d, cases j)
       (auto simp: serve_def takeResult_def workerRun_def workerTake_def enqueue_def case_prod_unfold Let_def)
qed

lemma perform_shutdown:
  assumes "quiet content invar t d"
  shows "quiet content invar t (perform put get t (AShutdown q) d) \<and> inner (perform put get t (AShutdown q) d) = inner d
    \<and> shutdownDone (perform put get t (AShutdown q) d) = (shutdownDone d)(q := True)"
proof (cases "shutdownDone d q")
  case True
  then show ?thesis using assms by (auto simp: shutdownCheck_def serve_def quiet_def fun_eq_iff)
next
  case False
  let ?d = "d\<lparr>callers := (callers d)(t := Checked (Barrier q t None))\<rparr>"
  obtain q' where "invar q' \<and> content q' = [] \<and> serve put get t ?d =
     ?d\<lparr>jobs := q', inner := inner d, callers := (callers d)(t := Idle), shutdownDone := (shutdownDone d)(q := True)\<rparr>"
    using serve_alone [of ?d t "Barrier q t None"] assms by (auto simp: quiet_def jobEffect_def)
  with False assms show ?thesis by (simp add: shutdownCheck_def quiet_def)
qed

lemma perform_call:
  assumes "quiet content invar t d" and "\<not> shutdownDone d q"
  shows "quiet content invar t (perform put get t (ACall q (PostSync dflt fn)) d)
    \<and> inner (perform put get t (ACall q (PostSync dflt fn)) d) = snd (fn (inner d))
    \<and> shutdownDone (perform put get t (ACall q (PostSync dflt fn)) d) = shutdownDone d"
proof -
  let ?d = "d\<lparr>callers := (callers d)(t := Checked (Task q t fn))\<rparr>"
  obtain q' where "invar q' \<and> content q' = [] \<and> serve put get t ?d =
     ?d\<lparr>jobs := q', inner := snd (fn (inner d)), callers := (callers d)(t := Idle), shutdownDone := shutdownDone d\<rparr>"
    using serve_alone [of ?d t "Task q t fn"] assms by (auto simp: quiet_def jobEffect_def)
  with assms show ?thesis by (simp add: postCheck_def quiet_def)
qed

end

text \<open>The queue of the worker as a list.\<close>

definition ioPost :: "('s, 'v) job \<Rightarrow> ('s, 'v) job list \<Rightarrow> ('s, 'v) job list" where
  "ioPost j q = q @ [j]"

definition ioTake :: "('s, 'v) job list \<Rightarrow> ('s, 'v) job option \<times> ('s, 'v) job list" where
  "ioTake q = (case q of [] \<Rightarrow> (None, []) | j # js \<Rightarrow> (Some j, js))"

interpretation io: dispatcher "\<lambda>q. q" ioPost ioTake "\<lambda>_. True"
  by unfold_locales (simp_all add: ioPost_def ioTake_def)

lemma druns_split:
  "druns put get d ls d' \<Longrightarrow> ls = ls1 @ l # ls2 \<Longrightarrow> \<exists>d1 d2. druns put get d ls1 d1 \<and> dstep put get d1 l d2"
proof (induction arbitrary: ls2 rule: druns.induct)
  case (snoc d ls d1 l' d2)
  then show ?case by (cases ls2 rule: rev_cases) auto
qed simp

section \<open>Properties\<close>

text \<open>C8. Posted calls are sequential: in every interleaving of the calling threads with the worker, the state behind
  the wrappers, and every value computed, are those of running the posted calls one after the
  other in the order in which they were posted (with the direct calls in between), each once and none
  skipped; and a thread gets the values of its own calls, in order.\<close>

theorem dispatch_linear:
  assumes "dispatcher content put get invar" and "invar q" and "content q = []"
    and "druns put get (dispatch_init q s0) ls d"
  shows "replay ls s0 (inner d) \<and> postedOf ls = ranOf ls @ outstanding content d
    \<and> (\<forall>t. valuesOf t ls = returnsOf t ls @ readyOf (callers d t))"
proof -
  have "dinv content invar s0 [] (dispatch_init q s0)" using dispatcher.dinv_init [OF assms(1-3)] .
  from dispatcher.dinv_runs [OF assms(1,4) this] show ?thesis by (simp add: dinv_def)
qed

text \<open>A counter behind the wrapper, and one call of thread 1.\<close>

definition demo_job :: "(nat, nat) job" where
  "demo_job = Task 0 1 (\<lambda>s. (s, s + 1))"

lemma demo_runs:
  "\<exists>d. druns ioPost ioTake (dispatch_init [] 5) [LCheck 1, LEnqueue demo_job, LTake] d \<and> running d = Some demo_job
     \<and> callers d 2 = Idle \<and> inner d = 5 \<and> \<not> stopped d"
proof -
  let ?d0 = "dispatch_init [] 5 :: ((nat, nat) job list, nat, nat) dispatch"
  let ?d1 = "?d0\<lparr>callers := (callers ?d0)(1 := Checked demo_job)\<rparr>"
  have "dstep ioPost ioTake ?d0 (LCheck 1) ?d1"
    by (rule dstep.check [of _ _ 0 0 "\<lambda>s. (s, s + 1)"]) (simp_all add: dispatch_init_def postCheck_def demo_job_def)
  from druns.snoc [OF druns.nil this] have "druns ioPost ioTake ?d0 [LCheck 1] ?d1" by simp
  from druns.snoc [OF this dstep.enq [of ?d1 1 demo_job]]
  have "druns ioPost ioTake ?d0 [LCheck 1, LEnqueue demo_job] (enqueue ioPost 1 demo_job ?d1)" by simp
  from druns.snoc [OF this dstep.take]
  have "druns ioPost ioTake ?d0 [LCheck 1, LEnqueue demo_job, LTake] (workerTake ioTake (enqueue ioPost 1 demo_job ?d1))"
    by (simp add: enqueue_def dispatch_init_def)
  then show ?thesis
    by (intro exI conjI) (assumption, simp_all add: enqueue_def dispatch_init_def workerTake_def ioPost_def ioTake_def)
qed

theorem dispatch_linear_witness:
  "\<exists>d. druns ioPost ioTake (dispatch_init [] 5) [LCheck 1, LEnqueue demo_job, LTake] d
     \<and> [demo_job] = outstanding (\<lambda>q. q) d \<and> inner d = 5"
proof -
  obtain d where d: "druns ioPost ioTake (dispatch_init [] 5) [LCheck 1, LEnqueue demo_job, LTake] d"
    using demo_runs by blast
  from dispatch_linear [OF io.dispatcher_axioms _ _ d] show ?thesis using d by auto
qed



text \<open>A posted call waits for the one the worker is running: a thread that was idle at a moment when a job was
  running gets no value from the worker before that job has ended. For \<open>playbackIndex\<close>, which is
  posted, that is the end of the whole playback, while \<open>stopPlayback\<close>, which is direct, does not
  wait.\<close>

theorem posted_call_waits:
  assumes "dispatcher content put get invar" and "invar q" and "content q = []"
    and "druns put get (dispatch_init q s0) ls0 d" and "running d = Some j" and "callers d t = Idle"
    and "druns put get d (ls1 @ LReturn t v # ls2) d'"
  shows "\<exists>w. LRun j w \<in> set ls1"
proof -
  have "dinv content invar s0 [] (dispatch_init q s0)" using dispatcher.dinv_init [OF assms(1-3)] .
  from dispatcher.dinv_runs [OF assms(1,4) this] have i: "dinv content invar s0 ls0 d" by simp
  from druns_split [OF assms(7) refl] obtain d1 d2 where
    d: "druns put get d ls1 d1" "dstep put get d1 (LReturn t v) d2" by blast
  from d(2) have "callers d1 t = Ready v" by (rule dstep_cases) simp_all
  from dispatcher.return_after_running [OF assms(1) i assms(5,6) d(1) this] show ?thesis .
qed

theorem posted_call_waits_witness:
  "\<exists>d. running d = Some demo_job \<and> callers d 2 = Idle
     \<and> (\<forall>ls1 ls2 v d'. druns ioPost ioTake d (ls1 @ LReturn 2 v # ls2) d' \<longrightarrow> (\<exists>w. LRun demo_job w \<in> set ls1))"
proof -
  obtain d where d: "druns ioPost ioTake (dispatch_init [] 5) [LCheck 1, LEnqueue demo_job, LTake] d"
    "running d = Some demo_job" "callers d 2 = Idle" using demo_runs by blast
  from posted_call_waits [OF io.dispatcher_axioms _ _ d] show ?thesis using d(2,3) by blast
qed

text \<open>The destructor of the device's server ends in order: while no other thread calls, it cancels the
  listening through the worker, every wrapper is shut down, the worker is stopped with nothing
  posted, and later calls return the default without reaching the objects behind the wrappers.\<close>

theorem device_server_destroyed:
  assumes "dispatcher content put get invar" and "quiet content invar t d" and "\<not> shutdownDone d 0"
  shows "let d' = fold (perform put get t) (destroyDeviceServer cancel) d in
    inner d' = cancel (inner d) \<and> stopped d' \<and> content (jobs d') = [] \<and> callers d' t = Idle
    \<and> (\<forall>q t' dflt fn. q < 4 \<longrightarrow> postCheck q t' dflt fn d' = (Some dflt, d'))"
proof -
  let ?p = "perform put get t"
  define d1 where "d1 = ?p (ACall 0 (postedCancelListening cancel)) d"
  define d2 where "d2 = ?p (AShutdown 0) d1"
  define d3 where "d3 = ?p (AShutdown 1) d2"
  define d4 where "d4 = ?p (AShutdown 2) d3"
  define d5 where "d5 = ?p (AShutdown 3) d4"
  have 1: "quiet content invar t d1 \<and> inner d1 = cancel (inner d)"
    using dispatcher.perform_call [OF assms(1-3), of RVoid "\<lambda>s. (RVoid, cancel s)"]
    by (simp add: d1_def postedCancelListening_def)
  note down = dispatcher.perform_shutdown [OF assms(1)]
  have 2: "quiet content invar t d2 \<and> inner d2 = cancel (inner d) \<and> shutdownDone d2 0"
    using down [of t d1 0] 1 by (simp add: d2_def)
  have 3: "quiet content invar t d3 \<and> inner d3 = cancel (inner d) \<and> shutdownDone d3 0 \<and> shutdownDone d3 1"
    using down [of t d2 1] 2 by (simp add: d3_def)
  have 4: "quiet content invar t d4 \<and> inner d4 = cancel (inner d) \<and> shutdownDone d4 0 \<and> shutdownDone d4 1 \<and> shutdownDone d4 2"
    using down [of t d3 2] 3 by (simp add: d4_def)
  have 5: "quiet content invar t d5 \<and> inner d5 = cancel (inner d)
      \<and> shutdownDone d5 0 \<and> shutdownDone d5 1 \<and> shutdownDone d5 2 \<and> shutdownDone d5 3"
    using down [of t d4 3] 4 by (simp add: d5_def)
  have f: "fold ?p (destroyDeviceServer cancel) d = stopContext d5"
    unfolding destroyDeviceServer_def postedListenerShutdown_def d5_def d4_def d3_def d2_def d1_def
    by (simp del: perform.simps) (simp only: perform.simps)
  have "shutdownDone d5 q" if "q < 4" for q
    using that 5 by (auto simp: less_Suc_eq numeral_eq_Suc)
  with 5 show ?thesis unfolding f Let_def by (simp add: stopContext_def quiet_def postCheck_def)
qed

theorem device_server_destroyed_witness:
  "inner (fold (perform ioPost ioTake 0) (destroyDeviceServer (\<lambda>s. s + 1)) (dispatch_init [] (5 :: nat))) = 6"
proof -
  have "quiet (\<lambda>q. q) (\<lambda>_. True) 0 (dispatch_init [] (5 :: nat))" by (simp add: quiet_def dispatch_init_def)
  from device_server_destroyed [OF io.dispatcher_axioms this, of "\<lambda>s. s + 1"]
  show ?thesis by (simp add: dispatch_init_def Let_def)
qed

end
