(* ===== verification/Spec2Isabelle.thy ===== *)
theory Spec2Isabelle
  imports EndToEnd RemoteListening DeviceProcess ReplayCancel LogStream CommandLine Dispatch
begin

text \<open>
  evrp records the input of keyboards, mice and touch devices of a machine and plays it back
  on another (or the same) one.

  \<^bold>\<open>Parts.\<close> A device process (\<open>evrp-device\<close>) owns the evdev nodes: it listens to them and
  writes to them, and offers both over gRPC to clients with a session; a UDP responder announces
  its port. A server process (\<open>evrp-server\<close>) connects to a device on behalf of its own clients:
  it records what the device delivers into a text file, and composes a text file (a recording,
  a recording with lines of Lua, or a whole script) into events that it uploads to the device and
  plays. A client process (\<open>evrp-client\<close>) turns a command line into settings and asks a server to
  record or replay. In both servers, the gRPC handlers post most calls to one worker thread.
  Device and server forward their log lines to each other.

  \<^bold>\<open>Theories and sources\<close> (paths under \<open>src/\<close>):
  \<^item> \<open>Prelude\<close>: machine integers, the used fragment of \<open>std::string\<close>, shared lemmas.
  \<^item> \<open>EvTypes\<close>, \<open>KeyboardDevice\<close>, \<open>TouchDevice\<close>, \<open>EventFormat\<close>: \<open>evrp/sdk/types.h\<close>, the Ctrl-C
    filter of recordings, the touch segmenter and the text format of recordings
    (\<open>evrp/sdk/keyboard\<close>, \<open>touchdevice.cpp\<close>, \<open>eventformat.cpp\<close>, \<open>tofromstring.cpp\<close>).
  \<^item> \<open>FileSystem\<close>, \<open>InputDevice\<close>, \<open>Writers\<close>: \<open>evrp/sdk/filesystem\<close>, evdev access and the search for
    devices (\<open>evdev.cpp\<close>, \<open>inputdevice.cpp\<close>), the sinks of raw events (\<open>inputeventwriter.cpp\<close>,
    \<open>playbackeventcollector.cpp\<close>, the keyboard and mouse writers).
  \<^item> \<open>Lua\<close>: the bindings of scripts and the composer (\<open>evrp/sdk/luaeventcomposer\<close>); \<open>ComposerTypes\<close>: that what
    it composes is well typed.
  \<^item> \<open>Settings\<close>, \<open>Session\<close>: \<open>evrp/sdk/setting\<close>, \<open>tofromproto.cpp\<close>, the registry of sessions, the
    check of each call, the session service and its client calls.
  \<^item> \<open>Fifo\<close>, \<open>Dispatch\<close>: the contract of a queue between threads; \<open>syncdispatchqueue.cpp\<close>, the
    posted wrappers and the destructors of the servers, as a step relation over all threads.
  \<^item> \<open>Logging\<close>, \<open>LogStream\<close>: \<open>evrp/sdk/log\<close>: the buffers of subscribers, the tee, both ends of the log
    stream; the threads of a stream from its opening to its end, as a step relation.
  \<^item> \<open>Discovery\<close>: the UDP protocol, its responder and the search (\<open>evrp/device/internal/discovery\<close>).
  \<^item> \<open>Listener\<close>, \<open>PlaybackSvc\<close>, \<open>DeviceSvc\<close>: the services of a device and their proxies
    (\<open>evrp/device/impl\<close>), the client object of a device, the start of the device process;
    \<open>RemoteListening\<close>: listening through proxy and service as a refinement of the local listener.
  \<^item> \<open>DeviceProcess\<close>: the list of interfaces (\<open>evrp/sdk/ioc.h\<close>), the construction of the objects and services of a
    device (\<open>server.cpp\<close>, \<open>grpcserver.cpp\<close>) and the process they form over one registry of sessions.
  \<^item> \<open>RecordReplay\<close>: \<open>Record::run\<close> and \<open>Playback::run\<close> of \<open>evrp/server/impl/server\<close>.
  \<^item> \<open>EvrpServer\<close>: \<open>LocalEvrp\<close>, \<open>GrpcEvrpService\<close>, \<open>RemoteEvrp\<close> and the makers of clients.
  \<^item> \<open>EndToEnd\<close>: a recording, its replay, the proxy and the service of the playing device in one run.
  \<^item> \<open>ReplayCancel\<close>: the threads of a replay and of its cancellation, as a step relation.
  \<^item> \<open>CommandLine\<close>: the command lines of client and server, \<open>Runner\<close>, the main functions.

  \<^bold>\<open>Conventions.\<close> A class is a record of its fields; an operation is a function with the source's
  name where HOL allows it, prefixed by \<open>svc\<close> for a gRPC handler, \<open>remote\<close> for a proxy, \<open>local\<close> or
  \<open>lp\<close> for the implementation behind it, \<open>posted\<close> for a wrapper. State is passed explicitly: \<open>'w\<close>
  stands for the world of the system calls. Unsigned integers are words; signed ones are integers with
  the predicate \<open>in_i32\<close> or \<open>in_i64\<close> and explicit wrap-around where the code can leave the range.
  Out parameters are arguments and results, null pointers are \<open>None\<close>. A loop that may not end is
  an option-valued partial function: \<open>None\<close> means that the call does not return. Recursion is
  otherwise structural or has a termination proof; there is no fuel.

  \<^bold>\<open>Interfaces\<close> are locales, interpreted on the definitions of the model: \<open>setting\<close> (a memory setting, and
  any stack of settings), \<open>input_listener\<close> (the local listener and its proxy), \<open>interface_list\<close> (the list of
  interfaces), \<open>fifo\<close> (the log
  buffer), \<open>lossless_fifo\<close> and \<open>dispatcher\<close> (the task queue), and those of the sinks of raw events.

  \<^bold>\<open>What is shown.\<close> What a recording holds is what playback sends: the filtered events that
  \<open>Record::run\<close> writes are composed back with their times, and a playback delivers each packet
  in order; in \<open>EndToEnd\<close> both, with the proxy and the service between them, give what the kernel
  of the playing device has accepted, and so for a file of any contents, scripts included, whose events are
  always well typed. The Ctrl-C filter loses nothing but a closing Ctrl-C. Sinks agree with each other and release what
  they open. Sessions are accepted only for the peer and lease they were issued for, and peers without one
  have no influence on a device. A started device has all its objects. Listening
  keeps its invariant, a client that listens from afar gets what the local listener reads, waiting ends, progress streams end when subscribed in time. The command
  line determines the recording the server makes. Posted calls are linearised in the order of the posts, none
  is lost, and the destructors end in order. The search finds exactly the devices that answered.
  Some of what is shown are faults: \<open>record\<close> and \<open>replay\<close> of a server never return once a device is
  connected, since the level of the log is set in an endless recursion; log lines echo for ever; a
  late subscriber waits for ever; a playback longer than the lease cannot be stopped; a cancellation
  that comes before the device begins to play is lost. The theorems on
  \<open>recordRun\<close> and \<open>playbackRun\<close> are about these functions after that first call.

  \<^bold>\<open>Parameters and hypotheses.\<close> The file system calls, evdev, clocks, sockets, the Lua interpreter, gRPC
  channels and stubs, asio's queue, gflags, spdlog and the random engine are arguments of the
  definitions; what is relied on is named (\<open>posix_write\<close>, \<open>posix_read\<close>, \<open>clock_advances\<close>, \<open>hears\<close>,
  \<open>spdlog_levels\<close>, \<open>dispatcher\<close> and the like) and shown to be satisfiable by the witnesses.

  \<^bold>\<open>Not modelled.\<close> Lines written to the log inside the recording, listening and playback code (the
  log service itself is modelled); the options of gRPC channels (timing of keep-alive packets); the construction of
  the members of \<open>evrp-server\<close>'s \<open>Server\<close> (what they start with is written out where they are used); the timing of
  the threads that sweep expired sessions (their rounds are steps of \<open>sess_step\<close> and \<open>deviceStep\<close>); X11; the printing of the usage; test code, build files and third-party code.
\<close>

section \<open>Sessions and playback together\<close>


text \<open>A device that is playing for the session \<open>id\<close>, and its client.\<close>

definition demo_playing :: play_service where
  "demo_playing =
     \<lparr>ps_configured = True, ps_playback = playback_init\<lparr>playing := True\<rparr>,
      ps_sessions = \<lparr>leaseTimeoutMs = 3000, sessions = [''id'' \<mapsto> \<lparr>sr_peer = ''p'', sr_lastHeartbeat = 7\<rparr>]\<rparr>,
      playbackProgressSem = 0, subscriberActive = False, playbackProgressFinished = False\<rparr>"

definition demo_stop_stub :: "play_service play_stub" where
  "demo_stop_stub =
     \<lparr>stub_Upload = (\<lambda>md es s. ((grpc_ok, \<lparr>p_code_status = 0, p_message = []\<rparr>), s)),
      stub_Playback = (\<lambda>md s. ((grpc_ok, \<lparr>p_code_status = 0, p_message = []\<rparr>), s)),
      stub_Stop = (\<lambda>md s. svcStop 4000000000 \<lparr>ctx_metadata = md, ctx_peer = ''p''\<rparr> s)\<rparr>"


end
